theory Spec2Isabelle
  imports Complex_Main "HOL-Library.Sublist" "HOL-Library.Product_Lexorder" "HOL-Library.AList"
begin

section \<open>Values, errors and configuration\<close>

text \<open>
  The semantic-search skill (\<^verbatim>\<open>database.py\<close>, \<^verbatim>\<open>cli.py\<close>) is modelled as pure
  functions. Python exceptions are values of type \<open>error\<close>; a function that can raise
  returns \<open>error + 'a\<close> with \<open>Inl\<close> for the exception.
\<close>

datatype error =
    ValueError string
  | KeyError string
  | IndexError
  | TypeError
  | BackendError string

text \<open>
  A Python float read back from the store is a real number or NaN (pgvector's cosine
  distance of a zero vector is NaN). Floats supplied by the caller are plain reals.
\<close>

datatype pyfloat = Float real | NaN

datatype val = VNull | VInt int | VFloat pyfloat | VStr string | VVec "real list" | VTime real

text \<open>The values handed to \<^verbatim>\<open>cur.execute(query, params)\<close>.\<close>

datatype param = PVec "real list" | PInt int | PFloat real

type_synonym row = "(string \<times> val) list"

text \<open>
  One entry of \<^verbatim>\<open>tables.yaml\<close>. Every key may be absent, as in the loosely typed
  mapping the code reads; \<open>None\<close> is an absent key.
\<close>

record filters_config =
  time_column :: "string option"
  default_hours :: "int option"
  confidence_column :: "string option"
  default_min_confidence :: "real option"

record table_config =
  table :: "string option"
  table_alias :: "string option"
  content_column :: "string option"
  embedding_column :: "string option"
  display_columns :: "string list option"
  joins :: "string list option"
  filters :: "filters_config option"

text \<open>
  The loaded configuration: the mapping under the key \<^verbatim>\<open>tables\<close>, in insertion order
  (a Python dict keeps it), or no such key.
\<close>

record config =
  tables :: "(string \<times> table_config) list option"

section \<open>The query compiler (\<^verbatim>\<open>ConfigurableTableSearch.search\<close>, lines 218 to 268)\<close>

text \<open>
  The method \<^verbatim>\<open>search\<close> is modelled in two parts: \<open>compile_query\<close> (with \<open>build\<close>,
  \<open>time_part\<close> and \<open>conf_part\<close>) is the part that reads the entry and builds the
  statement and its parameters, \<open>search\<close> below is the whole method.
\<close>

fun py_join :: "string \<Rightarrow> string list \<Rightarrow> string" where
  "py_join sep [] = []"
| "py_join sep [x] = x"
| "py_join sep (x # y # ys) = x @ sep @ py_join sep (y # ys)"

text \<open>Python truthiness of \<^verbatim>\<open>filters.get(key)\<close>: an absent key and the empty string are false.\<close>

fun truthy_col :: "string option \<Rightarrow> string option" where
  "truthy_col None = None"
| "truthy_col (Some []) = None"
| "truthy_col (Some (c # cs)) = Some (c # cs)"

definition newline :: string where
  "newline = [CHR 0x0A]"

record compiled =
  select_clause :: string
  from_clause :: string
  where_conditions :: "string list"
  order_clause :: string
  params :: "param list"
  query :: string

text \<open>
  The statement text and the parameter list, built as the source builds them. The two
  \<^verbatim>\<open>.get\<close> defaults \<^verbatim>\<open>table[0]\<close> and \<^verbatim>\<open>table_config['content_column']\<close> are evaluated
  whether or not the key is present, so an empty table name raises \<open>IndexError\<close> and a
  missing content column raises \<open>KeyError\<close> in every case.
\<close>

definition time_part :: "string \<Rightarrow> filters_config \<Rightarrow> int option \<Rightarrow> string list \<times> param list" where
  "time_part al fs hours =
     (case truthy_col (time_column fs) of
        None \<Rightarrow> ([], [])
      | Some time_col \<Rightarrow>
          let effective_hours =
                (case hours of Some h \<Rightarrow> h
                 | None \<Rightarrow> (case default_hours fs of Some d \<Rightarrow> d | None \<Rightarrow> 168))
          in ([al @ ''.'' @ time_col @ '' >= NOW() - INTERVAL '' @ [CHR 0x27] @ ''%s hours'' @ [CHR 0x27]],
              [PInt effective_hours]))"

definition conf_part :: "string \<Rightarrow> filters_config \<Rightarrow> real option \<Rightarrow> string list \<times> param list" where
  "conf_part al fs min_confidence =
     (case truthy_col (confidence_column fs) of
        None \<Rightarrow> ([], [])
      | Some conf_col \<Rightarrow>
          let effective_conf =
                (case min_confidence of Some m \<Rightarrow> m
                 | None \<Rightarrow> (case default_min_confidence fs of Some d \<Rightarrow> d | None \<Rightarrow> 0.0))
          in ([al @ ''.'' @ conf_col @ '' >= %s''], [PFloat effective_conf]))"

definition build :: "string \<Rightarrow> string \<Rightarrow> string \<Rightarrow> string list \<Rightarrow> string list \<Rightarrow> filters_config \<Rightarrow>
    real list \<Rightarrow> int \<Rightarrow> int option \<Rightarrow> real option \<Rightarrow> compiled" where
  "build tbl embedding_col al display_cols jns fs query_embedding limit hours min_confidence =
     (let select_cols = py_join '', '' display_cols;
          sel = select_cols @ '', 1 - ('' @ al @ ''.'' @ embedding_col @ '' <=> %s::vector) as similarity_score'';
          frm = tbl @ '' '' @ al @ (if jns \<noteq> [] then '' '' @ py_join '' '' jns else []);
          tp = time_part al fs hours;
          cp = conf_part al fs min_confidence;
          conds = [al @ ''.'' @ embedding_col @ '' IS NOT NULL''] @ fst tp @ fst cp;
          ord = al @ ''.'' @ embedding_col @ '' <=> %s::vector'';
          ps = [PVec query_embedding] @ snd tp @ snd cp @ [PVec query_embedding, PInt limit]
      in \<lparr> select_clause = sel, from_clause = frm, where_conditions = conds,
           order_clause = ord, params = ps,
           query = newline @ ''            SELECT '' @ sel @
                   newline @ ''            FROM '' @ frm @
                   newline @ ''            WHERE '' @ py_join '' AND '' conds @
                   newline @ ''            ORDER BY '' @ ord @
                   newline @ ''            LIMIT %s'' @
                   newline @ ''        '' \<rparr>)"

definition compile_query :: "table_config \<Rightarrow> real list \<Rightarrow> int \<Rightarrow> int option \<Rightarrow> real option \<Rightarrow>
    error + compiled" where
  "compile_query tc query_embedding limit hours min_confidence =
     (case table tc of
        None \<Rightarrow> Inl (KeyError ''table'')
      | Some tbl \<Rightarrow>
     (case embedding_column tc of
        None \<Rightarrow> Inl (KeyError ''embedding_column'')
      | Some embedding_col \<Rightarrow>
     (case tbl of
        [] \<Rightarrow> Inl IndexError
      | t0 # _ \<Rightarrow>
     (case content_column tc of
        None \<Rightarrow> Inl (KeyError ''content_column'')
      | Some content \<Rightarrow>
          let al = (case table_alias tc of Some a \<Rightarrow> a | None \<Rightarrow> [t0]);
              display_cols = (case display_columns tc of Some d \<Rightarrow> d
                              | None \<Rightarrow> [al @ ''.id'', al @ ''.'' @ content]);
              jns = (case joins tc of Some j \<Rightarrow> j | None \<Rightarrow> []);
              fs = (case filters tc of Some f \<Rightarrow> f
                    | None \<Rightarrow> \<lparr> time_column = None, default_hours = None,
                                confidence_column = None, default_min_confidence = None \<rparr>)
          in Inr (build tbl embedding_col al display_cols jns fs
                    query_embedding limit hours min_confidence)))))"

section \<open>Python's \<^verbatim>\<open>repr\<close> of a list of strings\<close>

text \<open>
  A Python string is modelled as a list of code points below 256. \<^verbatim>\<open>repr\<close> quotes with
  an apostrophe unless the string has an apostrophe and no double quote; it escapes the
  quote and the backslash, writes tab, line feed and carriage return as \<^verbatim>\<open>\t\<close>,
  \<^verbatim>\<open>\n\<close>, \<^verbatim>\<open>\r\<close>, and every other non-printable code point as \<^verbatim>\<open>\xhh\<close>.
\<close>

definition hex_digit :: "nat \<Rightarrow> char" where
  "hex_digit n = ''0123456789abcdef'' ! (n mod 16)"

definition py_printable :: "char \<Rightarrow> bool" where
  "py_printable ch = (let n = (of_char ch :: nat) in (32 \<le> n \<and> n < 127) \<or> (161 \<le> n \<and> n \<noteq> 173))"

definition py_repr_char :: "char \<Rightarrow> char \<Rightarrow> string" where
  "py_repr_char quote ch =
     (if ch = quote \<or> ch = CHR 0x5C then [CHR 0x5C, ch]
      else if ch = CHR 0x09 then [CHR 0x5C, CHR ''t'']
      else if ch = CHR 0x0A then [CHR 0x5C, CHR ''n'']
      else if ch = CHR 0x0D then [CHR 0x5C, CHR ''r'']
      else if py_printable ch then [ch]
      else [CHR 0x5C, CHR ''x'', hex_digit (of_char ch div 16), hex_digit (of_char ch mod 16)])"

definition py_repr_str :: "string \<Rightarrow> string" where
  "py_repr_str s =
     (let quote = (if CHR 0x27 \<in> set s \<and> CHR 0x22 \<notin> set s then CHR 0x22 else CHR 0x27)
      in [quote] @ concat (map (py_repr_char quote) s) @ [quote])"

definition py_repr_list :: "string list \<Rightarrow> string" where
  "py_repr_list xs = ''['' @ py_join '', '' (map py_repr_str xs) @ '']''"

section \<open>The search engine (\<^verbatim>\<open>ConfigurableTableSearch.search\<close>)\<close>

text \<open>
  The connection records every statement handed to \<^verbatim>\<open>cur.execute\<close>, with its
  parameters. The store behind it is a parameter \<open>exec\<close>: what the backend answers to a
  statement and its parameters (rows as \<^verbatim>\<open>RealDictCursor\<close> gives them, or an error).
\<close>

record conn =
  executed :: "(string \<times> param list) list"

type_synonym backend = "string \<Rightarrow> param list \<Rightarrow> error + row list"

definition get_available_tables :: "config \<Rightarrow> (string \<times> table_config) list" where
  "get_available_tables cfg = (case tables cfg of Some t \<Rightarrow> t | None \<Rightarrow> [])"

text \<open>
  \<^verbatim>\<open>float(data.pop('similarity_score'))\<close>: the score column is a double precision
  expression, so its cell is a float, an integer or NULL; \<^verbatim>\<open>float(None)\<close> raises
  \<open>TypeError\<close>. Cells of other types do not occur in that column and are rejected alike.
\<close>

fun py_float :: "val \<Rightarrow> error + pyfloat" where
  "py_float (VFloat f) = Inr f"
| "py_float (VInt i) = Inr (Float (of_int i))"
| "py_float _ = Inl TypeError"

definition pop_score :: "row \<Rightarrow> error + (row \<times> pyfloat)" where
  "pop_score r =
     (case map_of r ''similarity_score'' of
        None \<Rightarrow> Inl (KeyError ''similarity_score'')
      | Some v \<Rightarrow>
          (case py_float v of
             Inl e \<Rightarrow> Inl e
           | Inr s \<Rightarrow> Inr (filter (\<lambda>kv. fst kv \<noteq> ''similarity_score'') r, s)))"

fun shape_rows :: "row list \<Rightarrow> error + (row \<times> pyfloat) list" where
  "shape_rows [] = Inr []"
| "shape_rows (r # rs) =
     (case pop_score r of
        Inl e \<Rightarrow> Inl e
      | Inr p \<Rightarrow> (case shape_rows rs of Inl e \<Rightarrow> Inl e | Inr ps \<Rightarrow> Inr (p # ps)))"

definition unknown_table_message :: "string \<Rightarrow> string list \<Rightarrow> string" where
  "unknown_table_message table_name names =
     ''Table '' @ [CHR 0x27] @ table_name @ [CHR 0x27] @ '' not configured. Available: '' @
     py_repr_list names"

definition search :: "config \<Rightarrow> backend \<Rightarrow> conn \<Rightarrow> string \<Rightarrow> real list \<Rightarrow> int \<Rightarrow> int option \<Rightarrow>
    real option \<Rightarrow> (error + (row \<times> pyfloat) list) \<times> conn" where
  "search cfg exec c table_name query_embedding limit hours min_confidence =
     (let tbls = get_available_tables cfg in
      case map_of tbls table_name of
        None \<Rightarrow> (Inl (ValueError (unknown_table_message table_name (map fst tbls))), c)
      | Some tc \<Rightarrow>
          (case compile_query tc query_embedding limit hours min_confidence of
             Inl e \<Rightarrow> (Inl e, c)
           | Inr cq \<Rightarrow>
               let c' = c\<lparr>executed := executed c @ [(query cq, params cq)]\<rparr> in
               (case exec (query cq) (params cq) of
                  Inl e \<Rightarrow> (Inl e, c')
                | Inr rows \<Rightarrow> (shape_rows rows, c'))))"

section \<open>The vector store\<close>

text \<open>
  Modelled from the spec: the Vector Store that executes the compiled statement.
  PostgreSQL with pgvector is an external collaborator and not part of the repository;
  the model reads exactly the statement shape \<open>build\<close> emits and nothing else. A
  relation is named by the text of its FROM clause and holds rows whose cells are keyed
  by the qualified column names the statement uses. The score is
  \<open>1 - cosine_distance\<close> as the spec has it; the distance of a zero vector is NaN.
\<close>

definition dot :: "real list \<Rightarrow> real list \<Rightarrow> real" where
  "dot u v = sum_list (map2 (*) u v)"

definition vec_norm :: "real list \<Rightarrow> real" where
  "vec_norm u = sqrt (dot u u)"

definition cosine_distance :: "real list \<Rightarrow> real list \<Rightarrow> pyfloat" where
  "cosine_distance u v =
     (if vec_norm u = 0 \<or> vec_norm v = 0 then NaN
      else Float (1 - dot u v / (vec_norm u * vec_norm v)))"

record store =
  now :: real
  relations :: "(string \<times> row list) list"

subsection \<open>Reading the statement\<close>

text \<open>
  Modelled from the spec: how the store takes the statement text apart. The text has
  the seven lines of the template; the SELECT list ends with the score expression, the
  predicates are joined by \<^verbatim>\<open>AND\<close>, and each predicate is one of the three forms the
  compiler writes.
\<close>

fun split_on :: "char \<Rightarrow> string \<Rightarrow> string list" where
  "split_on c [] = [[]]"
| "split_on c (x # xs) =
     (if x = c then [] # split_on c xs
      else (case split_on c xs of [] \<Rightarrow> [[x]] | y # ys \<Rightarrow> (x # y) # ys))"

function split_str :: "string \<Rightarrow> string \<Rightarrow> string list" where
  "split_str sep [] = [[]]"
| "split_str sep (x # xs) =
     (if sep \<noteq> [] \<and> prefix sep (x # xs) then [] # split_str sep (drop (length sep) (x # xs))
      else (case split_str sep xs of [] \<Rightarrow> [[x]] | y # ys \<Rightarrow> (x # y) # ys))"
  by pat_completeness auto
termination
  by (relation "measure (\<lambda>(sep, s). length s)") (auto simp: neq_Nil_conv)

definition strip_prefix :: "string \<Rightarrow> string \<Rightarrow> string option" where
  "strip_prefix p s = (if prefix p s then Some (drop (length p) s) else None)"

definition strip_suffix :: "string \<Rightarrow> string \<Rightarrow> string option" where
  "strip_suffix p s = (if suffix p s then Some (take (length s - length p) s) else None)"

definition after_last :: "char \<Rightarrow> string \<Rightarrow> string" where
  "after_last c s = rev (takeWhile (\<lambda>x. x \<noteq> c) (rev s))"

record statement =
  st_select :: "string list"
  st_score_col :: string
  st_from :: string
  st_where :: "string list"
  st_order_col :: string

definition parse_select :: "string \<Rightarrow> (string list \<times> string) option" where
  "parse_select sel =
     (case strip_suffix '' <=> %s::vector) as similarity_score'' sel of
        None \<Rightarrow> None
      | Some body \<Rightarrow>
          let col = after_last (CHR ''('') body in
          (case strip_suffix ('', 1 - ('' @ col) body of
             None \<Rightarrow> None
           | Some cols \<Rightarrow> Some (split_str '', '' cols, col)))"

definition parse_statement :: "string \<Rightarrow> statement option" where
  "parse_statement sql =
     (let ls = split_on (CHR 0x0A) sql in
      if length ls \<noteq> 7 then None
      else if ls ! 0 \<noteq> [] \<or> ls ! 5 \<noteq> ''            LIMIT %s'' \<or> ls ! 6 \<noteq> ''        '' then None
      else
        (case strip_prefix ''            SELECT '' (ls ! 1) of None \<Rightarrow> None | Some sel \<Rightarrow>
        (case strip_prefix ''            FROM '' (ls ! 2) of None \<Rightarrow> None | Some frm \<Rightarrow>
        (case strip_prefix ''            WHERE '' (ls ! 3) of None \<Rightarrow> None | Some whr \<Rightarrow>
        (case strip_prefix ''            ORDER BY '' (ls ! 4) of None \<Rightarrow> None | Some ord \<Rightarrow>
        (case parse_select sel of None \<Rightarrow> None | Some (cols, score_col) \<Rightarrow>
        (case strip_suffix '' <=> %s::vector'' ord of None \<Rightarrow> None | Some order_col \<Rightarrow>
           Some \<lparr> st_select = cols, st_score_col = score_col, st_from = frm,
                  st_where = split_str '' AND '' whr, st_order_col = order_col \<rparr>)))))))"

datatype cond = NotNull string | SinceHours string | AtLeast string

definition parse_cond :: "string \<Rightarrow> cond option" where
  "parse_cond s =
     (case strip_suffix '' IS NOT NULL'' s of
        Some c \<Rightarrow> Some (NotNull c)
      | None \<Rightarrow>
     (case strip_suffix ('' >= NOW() - INTERVAL '' @ [CHR 0x27] @ ''%s hours'' @ [CHR 0x27]) s of
        Some c \<Rightarrow> Some (SinceHours c)
      | None \<Rightarrow>
     (case strip_suffix '' >= %s'' s of
        Some c \<Rightarrow> Some (AtLeast c)
      | None \<Rightarrow> None)))"

fun parse_conds :: "string list \<Rightarrow> cond list option" where
  "parse_conds [] = Some []"
| "parse_conds (s # ss) =
     (case parse_cond s of
        None \<Rightarrow> None
      | Some c \<Rightarrow> (case parse_conds ss of None \<Rightarrow> None | Some cs \<Rightarrow> Some (c # cs)))"

subsection \<open>Evaluating the statement\<close>

text \<open>
  Modelled from the spec: what the store computes for the statement it has read. Rows
  that pass every predicate are projected and scored, ordered by ascending distance
  (ties in the order of the relation) and cut at the limit.
\<close>

fun map_rows :: "('a \<Rightarrow> error + 'b) \<Rightarrow> 'a list \<Rightarrow> error + 'b list" where
  "map_rows f [] = Inr []"
| "map_rows f (x # xs) =
     (case f x of
        Inl e \<Rightarrow> Inl e
      | Inr y \<Rightarrow> (case map_rows f xs of Inl e \<Rightarrow> Inl e | Inr ys \<Rightarrow> Inr (y # ys)))"

fun num_of_val :: "val \<Rightarrow> pyfloat option" where
  "num_of_val (VInt i) = Some (Float (of_int i))"
| "num_of_val (VFloat f) = Some f"
| "num_of_val _ = None"

fun num_of_param :: "param \<Rightarrow> real option" where
  "num_of_param (PInt i) = Some (of_int i)"
| "num_of_param (PFloat x) = Some x"
| "num_of_param (PVec v) = None"

text \<open>PostgreSQL orders NaN above every number.\<close>

fun ge_float :: "pyfloat \<Rightarrow> real \<Rightarrow> bool" where
  "ge_float (Float x) m = (m \<le> x)"
| "ge_float NaN m = True"

fun needs_param :: "cond \<Rightarrow> bool" where
  "needs_param (NotNull c) = False"
| "needs_param (SinceHours c) = True"
| "needs_param (AtLeast c) = True"

text \<open>One predicate on one row; a comparison with NULL does not hold.\<close>

fun holds :: "real \<Rightarrow> row \<Rightarrow> cond \<Rightarrow> param list \<Rightarrow> error + (bool \<times> param list)" where
  "holds nw r (NotNull c) ps =
     (case map_of r c of
        None \<Rightarrow> Inl (BackendError ''column does not exist'')
      | Some v \<Rightarrow> Inr (v \<noteq> VNull, ps))"
| "holds nw r (SinceHours c) (PInt h # ps) =
     (case map_of r c of
        None \<Rightarrow> Inl (BackendError ''column does not exist'')
      | Some (VTime t) \<Rightarrow> Inr (nw - of_int h \<le> t, ps)
      | Some VNull \<Rightarrow> Inr (False, ps)
      | Some _ \<Rightarrow> Inl (BackendError ''operator does not exist''))"
| "holds nw r (AtLeast c) (p # ps) =
     (case num_of_param p of
        None \<Rightarrow> Inl (BackendError ''operator does not exist'')
      | Some m \<Rightarrow>
          (case map_of r c of
             None \<Rightarrow> Inl (BackendError ''column does not exist'')
           | Some VNull \<Rightarrow> Inr (False, ps)
           | Some v \<Rightarrow>
               (case num_of_val v of
                  None \<Rightarrow> Inl (BackendError ''operator does not exist'')
                | Some x \<Rightarrow> Inr (ge_float x m, ps))))"
| "holds nw r _ _ = Inl (BackendError ''parameter mismatch'')"

fun row_passes :: "real \<Rightarrow> row \<Rightarrow> cond list \<Rightarrow> param list \<Rightarrow> error + bool" where
  "row_passes nw r [] ps = Inr True"
| "row_passes nw r (c # cs) ps =
     (case holds nw r c ps of
        Inl e \<Rightarrow> Inl e
      | Inr (b, ps') \<Rightarrow>
          (case row_passes nw r cs ps' of Inl e \<Rightarrow> Inl e | Inr b' \<Rightarrow> Inr (b \<and> b')))"

fun select_rows :: "real \<Rightarrow> cond list \<Rightarrow> param list \<Rightarrow> row list \<Rightarrow> error + row list" where
  "select_rows nw cs ps [] = Inr []"
| "select_rows nw cs ps (r # rs) =
     (case row_passes nw r cs ps of
        Inl e \<Rightarrow> Inl e
      | Inr b \<Rightarrow>
          (case select_rows nw cs ps rs of
             Inl e \<Rightarrow> Inl e
           | Inr kept \<Rightarrow> Inr (if b then r # kept else kept)))"

text \<open>
  The operator \<^verbatim>\<open><=>\<close> on one row: vectors of different dimensions are an error of
  the store, a NULL embedding gives NULL.
\<close>

definition pg_distance :: "row \<Rightarrow> string \<Rightarrow> real list \<Rightarrow> error + val" where
  "pg_distance r col q =
     (case map_of r col of
        None \<Rightarrow> Inl (BackendError ''column does not exist'')
      | Some (VVec v) \<Rightarrow>
          (if length v \<noteq> length q then Inl (BackendError ''different vector dimensions'')
           else Inr (VFloat (cosine_distance v q)))
      | Some VNull \<Rightarrow> Inr VNull
      | Some _ \<Rightarrow> Inl (BackendError ''operator does not exist''))"

fun one_minus :: "val \<Rightarrow> val" where
  "one_minus (VFloat (Float x)) = VFloat (Float (1 - x))"
| "one_minus (VFloat NaN) = VFloat NaN"
| "one_minus _ = VNull"

text \<open>Ascending order of the store: numbers, then NaN, then NULL.\<close>

fun order_key :: "val \<Rightarrow> nat \<times> real" where
  "order_key (VFloat (Float x)) = (0, x)"
| "order_key (VFloat NaN) = (1, 0)"
| "order_key _ = (2, 0)"

text \<open>
  A display expression is a qualified column, optionally renamed with \<^verbatim>\<open>AS\<close>; the
  result column of \<^verbatim>\<open>f.id\<close> is named \<^verbatim>\<open>id\<close>.
\<close>

definition split_as :: "string \<Rightarrow> string \<times> string" where
  "split_as d =
     (case split_str '' AS '' d of
        [e, n] \<Rightarrow> (e, n)
      | _ \<Rightarrow>
          (case split_str '' as '' d of
             [e, n] \<Rightarrow> (e, n)
           | _ \<Rightarrow> (d, after_last (CHR ''.'') d)))"

definition project_col :: "row \<Rightarrow> string \<Rightarrow> error + (string \<times> val)" where
  "project_col r d =
     (case map_of r (fst (split_as d)) of
        None \<Rightarrow> Inl (BackendError ''column does not exist'')
      | Some v \<Rightarrow> Inr (snd (split_as d), v))"

text \<open>A \<^verbatim>\<open>RealDictRow\<close>: a later column of the same name overwrites the earlier value.\<close>

definition dict_of :: "(string \<times> val) list \<Rightarrow> row" where
  "dict_of cells = foldl (\<lambda>d kv. AList.update (fst kv) (snd kv) d) [] cells"

definition score_row :: "statement \<Rightarrow> real list \<Rightarrow> real list \<Rightarrow> row \<Rightarrow> error + ((nat \<times> real) \<times> row)" where
  "score_row s q_sel q_ord r =
     (case map_rows (project_col r) (st_select s) of
        Inl e \<Rightarrow> Inl e
      | Inr cells \<Rightarrow>
     (case pg_distance r (st_score_col s) q_sel of
        Inl e \<Rightarrow> Inl e
      | Inr d_sel \<Rightarrow>
     (case pg_distance r (st_order_col s) q_ord of
        Inl e \<Rightarrow> Inl e
      | Inr d_ord \<Rightarrow>
          Inr (order_key d_ord, dict_of (cells @ [(''similarity_score'', one_minus d_sel)])))))"

text \<open>
  Parameters are bound by position: the first to the score expression, the last to
  LIMIT, the one before it to ORDER BY, those between to the predicates in order.
\<close>

definition pg_run :: "store \<Rightarrow> statement \<Rightarrow> cond list \<Rightarrow> row list \<Rightarrow> param list \<Rightarrow> error + row list" where
  "pg_run st s conds rel ps =
     (if length ps < 3 \<or> length (filter needs_param conds) \<noteq> length ps - 3
      then Inl (BackendError ''parameter mismatch'')
      else
        (case (hd ps, ps ! (length ps - 2), last ps) of
           (PVec q_sel, PVec q_ord, PInt k) \<Rightarrow>
             if k < 0 then Inl (BackendError ''LIMIT must not be negative'')
             else
               (case select_rows (now st) conds (butlast (butlast (tl ps))) rel of
                  Inl e \<Rightarrow> Inl e
                | Inr kept \<Rightarrow>
                    (case map_rows (score_row s q_sel q_ord) kept of
                       Inl e \<Rightarrow> Inl e
                     | Inr scored \<Rightarrow> Inr (map snd (take (nat k) (sort_key fst scored)))))
         | _ \<Rightarrow> Inl (BackendError ''parameter mismatch'')))"

definition pg_execute :: "store \<Rightarrow> backend" where
  "pg_execute st sql ps =
     (case parse_statement sql of
        None \<Rightarrow> Inl (BackendError ''syntax error'')
      | Some s \<Rightarrow>
     (case map_of (relations st) (st_from s) of
        None \<Rightarrow> Inl (BackendError ''relation does not exist'')
      | Some rel \<Rightarrow>
     (case parse_conds (st_where s) of
        None \<Rightarrow> Inl (BackendError ''syntax error'')
      | Some conds \<Rightarrow> pg_run st s conds rel ps)))"

subsection \<open>One row of a relation\<close>

text \<open>
  Modelled from the spec: the verdict of the store on one row, that is the WHERE clause
  of a statement read and evaluated on the row as \<open>pg_execute\<close> does; the result that
  \<open>search\<close> makes of one row, that is the store's projection and score of the row
  shaped by \<open>pop_score\<close>; and the store after a row has been deleted from a relation.
\<close>

definition pg_row_passes :: "store \<Rightarrow> string \<Rightarrow> param list \<Rightarrow> row \<Rightarrow> error + bool" where
  "pg_row_passes st sql ps r =
     (case parse_statement sql of
        None \<Rightarrow> Inl (BackendError ''syntax error'')
      | Some s \<Rightarrow>
     (case parse_conds (st_where s) of
        None \<Rightarrow> Inl (BackendError ''syntax error'')
      | Some conds \<Rightarrow>
          if length ps < 3 \<or> length (filter needs_param conds) \<noteq> length ps - 3
          then Inl (BackendError ''parameter mismatch'')
          else row_passes (now st) r conds (butlast (butlast (tl ps)))))"

definition search_result_of :: "string \<Rightarrow> param list \<Rightarrow> row \<Rightarrow> error + (row \<times> pyfloat)" where
  "search_result_of sql ps r =
     (case parse_statement sql of
        None \<Rightarrow> Inl (BackendError ''syntax error'')
      | Some s \<Rightarrow>
          (case (hd ps, ps ! (length ps - 2)) of
             (PVec q_sel, PVec q_ord) \<Rightarrow>
               (case score_row s q_sel q_ord r of
                  Inl e \<Rightarrow> Inl e
                | Inr scored \<Rightarrow> pop_score (snd scored))
           | _ \<Rightarrow> Inl (BackendError ''parameter mismatch'')))"

definition without_row :: "row \<Rightarrow> string \<Rightarrow> store \<Rightarrow> store" where
  "without_row r name st =
     st\<lparr>relations := map (\<lambda>(n, rows). (n, if n = name then removeAll r rows else rows))
                        (relations st)\<rparr>"

section \<open>Schema initialisation (\<^verbatim>\<open>VectorDB._ensure_schema\<close>)\<close>

text \<open>
  Modelled from the spec: how the store answers the three \<^verbatim>\<open>IF NOT EXISTS\<close>
  statements. The catalog lists the extensions the server can install, those installed,
  the tables with their columns (name and type) and the indexes (name, table, column).
  An object that exists under the name is left as it is, whatever its definition. The
  connection is in autocommit mode, so the effect of a statement stays when a later one
  fails.
\<close>

record catalog =
  installable :: "string list"
  extensions :: "string list"
  cat_tables :: "(string \<times> (string \<times> string) list) list"
  indexes :: "(string \<times> string \<times> string) list"

definition create_extension :: "string \<Rightarrow> catalog \<Rightarrow> error + catalog" where
  "create_extension name cat =
     (if name \<in> set (extensions cat) then Inr cat
      else if name \<in> set (installable cat) then Inr (cat\<lparr>extensions := extensions cat @ [name]\<rparr>)
      else Inl (BackendError ''extension is not available''))"

definition create_table :: "string \<Rightarrow> (string \<times> string) list \<Rightarrow> catalog \<Rightarrow> error + catalog" where
  "create_table name cols cat =
     (if map_of (cat_tables cat) name \<noteq> None then Inr cat
      else if list_ex (\<lambda>c. prefix ''vector'' (snd c)) cols \<and> ''vector'' \<notin> set (extensions cat)
      then Inl (BackendError ''type vector does not exist'')
      else Inr (cat\<lparr>cat_tables := cat_tables cat @ [(name, cols)]\<rparr>))"

definition create_index :: "string \<Rightarrow> string \<Rightarrow> string \<Rightarrow> catalog \<Rightarrow> error + catalog" where
  "create_index name tbl col cat =
     (if map_of (indexes cat) name \<noteq> None then Inr cat
      else
        (case map_of (cat_tables cat) tbl of
           None \<Rightarrow> Inl (BackendError ''relation does not exist'')
         | Some cols \<Rightarrow>
             (case map_of cols col of
                None \<Rightarrow> Inl (BackendError ''column does not exist'')
              | Some ty \<Rightarrow>
                  if prefix ''vector'' ty \<and> ''vector'' \<in> set (extensions cat)
                  then Inr (cat\<lparr>indexes := indexes cat @ [(name, tbl, col)]\<rparr>)
                  else Inl (BackendError ''operator class does not accept the column''))))"

definition code_elements_columns :: "(string \<times> string) list" where
  "code_elements_columns =
     [(''id'', ''SERIAL PRIMARY KEY''),
      (''file_path'', ''TEXT NOT NULL''),
      (''element_name'', ''TEXT NOT NULL''),
      (''element_type'', ''TEXT NOT NULL''),
      (''signature'', ''TEXT''),
      (''docstring'', ''TEXT''),
      (''searchable_text'', ''TEXT''),
      (''embedding'', ''vector(1536)''),
      (''created_at'', ''TIMESTAMP DEFAULT CURRENT_TIMESTAMP'')]"

text \<open>The three statements in order; an exception ends the method.\<close>

definition ensure_schema :: "catalog \<Rightarrow> error option \<times> catalog" where
  "ensure_schema cat =
     (case create_extension ''vector'' cat of
        Inl e \<Rightarrow> (Some e, cat)
      | Inr c1 \<Rightarrow>
     (case create_table ''code_elements'' code_elements_columns c1 of
        Inl e \<Rightarrow> (Some e, c1)
      | Inr c2 \<Rightarrow>
     (case create_index ''idx_code_elements_embedding'' ''code_elements'' ''embedding'' c2 of
        Inl e \<Rightarrow> (Some e, c2)
      | Inr c3 \<Rightarrow> (None, c3))))"

text \<open>A server without the extension, one with an older table of the same name, and one that is set up.\<close>

definition fresh_catalog :: catalog where
  "fresh_catalog = \<lparr> installable = [''vector''], extensions = [], cat_tables = [], indexes = [] \<rparr>"

definition legacy_catalog :: catalog where
  "legacy_catalog = \<lparr> installable = [''vector''], extensions = [],
     cat_tables = [(''code_elements'', [(''id'', ''SERIAL PRIMARY KEY'')])], indexes = [] \<rparr>"

definition ready_catalog :: catalog where
  "ready_catalog = \<lparr> installable = [''vector''], extensions = [''vector''],
     cat_tables = [(''code_elements'', code_elements_columns)],
     indexes = [(''idx_code_elements_embedding'', ''code_elements'', ''embedding'')] \<rparr>"

section \<open>The indexing run (\<^verbatim>\<open>cmd_index\<close>)\<close>

record code_element =
  file_path :: string
  element_name :: string
  element_type :: string
  signature :: "string option"
  docstring :: "string option"

record indexed_record = code_element +
  searchable_text :: string
  embedding :: "real list"

text \<open>
  \<^verbatim>\<open>embeddings.py\<close> and \<^verbatim>\<open>indexer.py\<close> are not among the sources: the text builder
  \<open>cst\<close> (\<^verbatim>\<open>create_searchable_text\<close>), the embedding provider \<open>gen\<close>
  (\<^verbatim>\<open>generate_embedding\<close>, \<open>None\<close> when the provider fails), the file list and the
  extractor are parameters.
\<close>

type_synonym text_builder = "string \<Rightarrow> string option \<Rightarrow> string option \<Rightarrow> string"
type_synonym provider = "string \<Rightarrow> real list option"

text \<open>Python truthiness of the provider's answer: \<open>None\<close> and the empty list are false.\<close>

fun produced :: "real list option \<Rightarrow> bool" where
  "produced None = False"
| "produced (Some []) = False"
| "produced (Some (x # xs)) = True"

text \<open>
  \<^verbatim>\<open>VectorDB.insert\<close>: the column is \<^verbatim>\<open>vector(1536)\<close>, so the store rejects a vector
  of another dimension; otherwise the row is appended.
\<close>

definition insert_row :: "text_builder \<Rightarrow> indexed_record list \<Rightarrow> code_element \<Rightarrow> real list \<Rightarrow>
    error + indexed_record list" where
  "insert_row cst rows el emb =
     (if length emb \<noteq> 1536 then Inl (BackendError ''expected 1536 dimensions'')
      else Inr (rows @ [code_element.extend el
                  \<lparr> searchable_text = cst (element_name el) (signature el) (docstring el),
                    embedding = emb \<rparr>]))"

function digits :: "nat \<Rightarrow> string" where
  "digits n = (if n < 10 then [char_of (48 + n)] else digits (n div 10) @ [char_of (48 + n mod 10)])"
  by pat_completeness auto
termination
  by (relation "measure id") auto

declare digits.simps [simp del]

record index_run =
  db_rows :: "indexed_record list"
  printed :: "string list"
  total_elements :: nat

definition index_element :: "text_builder \<Rightarrow> provider \<Rightarrow> index_run \<Rightarrow> code_element \<Rightarrow>
    error option \<times> index_run" where
  "index_element cst gen st el =
     (let text = cst (element_name el) (signature el) (docstring el);
          emb = gen text
      in if produced emb then
           (case insert_row cst (db_rows st) el (case emb of Some v \<Rightarrow> v | None \<Rightarrow> []) of
              Inl e \<Rightarrow> (Some e, st)
            | Inr rows \<Rightarrow> (None, st\<lparr>db_rows := rows, total_elements := total_elements st + 1\<rparr>))
         else (None, st))"

fun index_elements :: "text_builder \<Rightarrow> provider \<Rightarrow> index_run \<Rightarrow> code_element list \<Rightarrow>
    error option \<times> index_run" where
  "index_elements cst gen st [] = (None, st)"
| "index_elements cst gen st (el # els) =
     (case index_element cst gen st el of
        (Some e, st') \<Rightarrow> (Some e, st')
      | (None, st') \<Rightarrow> index_elements cst gen st' els)"

fun index_files :: "text_builder \<Rightarrow> provider \<Rightarrow> (string \<Rightarrow> code_element list) \<Rightarrow> index_run \<Rightarrow>
    string list \<Rightarrow> error option \<times> index_run" where
  "index_files cst gen extract st [] = (None, st)"
| "index_files cst gen extract st (f # fs) =
     (case index_elements cst gen (st\<lparr>printed := printed st @ [''Processing '' @ f @ ''...'']\<rparr>)
             (extract f) of
        (Some e, st') \<Rightarrow> (Some e, st')
      | (None, st') \<Rightarrow> index_files cst gen extract st' fs)"

definition cmd_index :: "text_builder \<Rightarrow> provider \<Rightarrow> (string \<Rightarrow> code_element list) \<Rightarrow> string list \<Rightarrow>
    string \<Rightarrow> bool \<Rightarrow> indexed_record list \<Rightarrow> error option \<times> index_run" where
  "cmd_index cst gen extract python_files directory clear rows0 =
     (let st0 = \<lparr> db_rows = rows0,
                  printed = [''Indexing Python files in '' @ directory @ ''...''],
                  total_elements = 0 \<rparr>;
          st1 = (if clear
                 then st0\<lparr>db_rows := [], printed := printed st0 @ [''Cleared existing index'']\<rparr>
                 else st0)
      in case index_files cst gen extract st1 python_files of
           (Some e, st) \<Rightarrow> (Some e, st)
         | (None, st) \<Rightarrow>
             (None, st\<lparr>printed := printed st @
                [''Indexed '' @ digits (total_elements st) @ '' elements from '' @
                 digits (length python_files) @ '' files'']\<rparr>))"

text \<open>The units of a run in order, and those for which the provider gave no embedding.\<close>

definition run_units :: "(string \<Rightarrow> code_element list) \<Rightarrow> string list \<Rightarrow> code_element list" where
  "run_units extract python_files = concat (map extract python_files)"

definition unit_embedding :: "text_builder \<Rightarrow> provider \<Rightarrow> code_element \<Rightarrow> real list option" where
  "unit_embedding cst gen el = gen (cst (element_name el) (signature el) (docstring el))"

definition embedding_failures :: "text_builder \<Rightarrow> provider \<Rightarrow> code_element list \<Rightarrow> nat" where
  "embedding_failures cst gen els = length (filter (\<lambda>el. \<not> produced (unit_embedding cst gen el)) els)"

definition indexed_units :: "text_builder \<Rightarrow> provider \<Rightarrow> code_element list \<Rightarrow> code_element list" where
  "indexed_units cst gen els = filter (\<lambda>el. produced (unit_embedding cst gen el)) els"

text \<open>The row that the run writes for a unit, and answers of the provider that the schema accepts.\<close>

definition record_of :: "text_builder \<Rightarrow> provider \<Rightarrow> code_element \<Rightarrow> indexed_record" where
  "record_of cst gen el =
     code_element.extend el
       \<lparr> searchable_text = cst (element_name el) (signature el) (docstring el),
         embedding = (case unit_embedding cst gen el of Some v \<Rightarrow> v | None \<Rightarrow> []) \<rparr>"

definition fits_schema :: "real list option \<Rightarrow> bool" where
  "fits_schema e = (case e of Some v \<Rightarrow> v = [] \<or> length v = 1536 | None \<Rightarrow> True)"

text \<open>
  An example run: a text builder in the manner the spec describes (name, signature and
  description in that order, absent fields skipped), three units of one file, and a
  provider that fails on the second.
\<close>

definition join_fields :: text_builder where
  "join_fields name sig doc =
     py_join '' '' ([name] @ (case sig of Some s \<Rightarrow> [s] | None \<Rightarrow> []) @
                   (case doc of Some d \<Rightarrow> [d] | None \<Rightarrow> []))"

definition unit_parse :: code_element where
  "unit_parse = \<lparr> file_path = ''a.py'', element_name = ''parse'', element_type = ''function'',
                   signature = Some ''def parse(text)'', docstring = Some ''Parse the text.'' \<rparr>"

definition unit_load :: code_element where
  "unit_load = \<lparr> file_path = ''a.py'', element_name = ''load'', element_type = ''function'',
                  signature = Some ''def load(path)'', docstring = None \<rparr>"

definition unit_dump :: code_element where
  "unit_dump = \<lparr> file_path = ''a.py'', element_name = ''dump'', element_type = ''function'',
                  signature = Some ''def dump(obj)'', docstring = None \<rparr>"

definition flaky_provider :: provider where
  "flaky_provider t = (if t = ''load def load(path)'' then None else Some (replicate 1536 0))"

definition extract_three :: "string \<Rightarrow> code_element list" where
  "extract_three f = (if f = ''a.py'' then [unit_parse, unit_load, unit_dump] else [])"

definition extract_two :: "string \<Rightarrow> code_element list" where
  "extract_two f = (if f = ''a.py'' then [unit_parse, unit_dump] else [])"

section \<open>A configured table and a store for it\<close>

text \<open>
  The scenario of the spec: a logical table \<^verbatim>\<open>facts\<close> with a confidence filter whose
  default threshold is 0.6, and a second one that declares both filters without defaults
  and no display columns. The store holds two facts with two-dimensional embeddings.
\<close>

definition facts_filters :: filters_config where
  "facts_filters =
     \<lparr> time_column = None, default_hours = None,
       confidence_column = Some ''confidence'', default_min_confidence = Some 0.6 \<rparr>"

definition facts_config :: table_config where
  "facts_config =
     \<lparr> table = Some ''person_facts'', table_alias = Some ''f'',
       content_column = Some ''fact'', embedding_column = Some ''embedding'',
       display_columns = Some [''f.id'', ''f.fact'', ''f.confidence''], joins = None,
       filters = Some facts_filters \<rparr>"

text \<open>The compiled form of a request on \<^verbatim>\<open>facts\<close>.\<close>

definition facts_compiled :: "real list \<Rightarrow> int \<Rightarrow> int option \<Rightarrow> real option \<Rightarrow> compiled" where
  "facts_compiled q k h m =
     build ''person_facts'' ''embedding'' ''f'' [''f.id'', ''f.fact'', ''f.confidence''] []
       facts_filters q k h m"

definition notes_config :: table_config where
  "notes_config =
     \<lparr> table = Some ''notes'', table_alias = None,
       content_column = Some ''body'', embedding_column = Some ''embedding'',
       display_columns = None, joins = None,
       filters = Some \<lparr> time_column = Some ''created_at'', default_hours = None,
                        confidence_column = Some ''confidence'',
                        default_min_confidence = None \<rparr> \<rparr>"

definition example_config :: config where
  "example_config = \<lparr> tables = Some [(''facts'', facts_config), (''notes'', notes_config)] \<rparr>"

definition fact_tea :: row where
  "fact_tea = [(''f.id'', VInt 1), (''f.fact'', VStr ''likes tea''),
               (''f.confidence'', VFloat (Float 0.4)), (''f.embedding'', VVec [1, 0])]"

definition fact_dog :: row where
  "fact_dog = [(''f.id'', VInt 2), (''f.fact'', VStr ''owns a dog''),
               (''f.confidence'', VFloat (Float 0.9)), (''f.embedding'', VVec [0, 1])]"

definition fact_cat :: row where
  "fact_cat = [(''f.id'', VInt 3), (''f.fact'', VStr ''fears cats''),
               (''f.confidence'', VFloat (Float 0.8)), (''f.embedding'', VVec [-1, 0])]"

definition facts_store :: store where
  "facts_store = \<lparr> now = 1000, relations = [(''person_facts f'', [fact_dog, fact_tea])] \<rparr>"

definition opposite_store :: store where
  "opposite_store = \<lparr> now = 1000, relations = [(''person_facts f'', [fact_cat])] \<rparr>"

definition empty_store :: store where
  "empty_store = \<lparr> now = 1000, relations = [(''person_facts f'', [])] \<rparr>"

definition conn0 :: conn where
  "conn0 = \<lparr> executed = [] \<rparr>"

text \<open>What the store reads in the statement compiled for \<^verbatim>\<open>facts\<close>.\<close>

definition facts_statement :: statement where
  "facts_statement =
     \<lparr> st_select = [''f.id'', ''f.fact'', ''f.confidence''], st_score_col = ''f.embedding'',
       st_from = ''person_facts f'',
       st_where = [''f.embedding IS NOT NULL'', ''f.confidence >= %s''],
       st_order_col = ''f.embedding'' \<rparr>"

definition facts_conds :: "cond list" where
  "facts_conds = [NotNull ''f.embedding'', AtLeast ''f.confidence'']"

text \<open>
  The same table with a time filter as well (a window of 24 hours unless the caller says
  otherwise), and the fact of confidence 0.4, learned ten hours ago.
\<close>

definition dated_filters :: filters_config where
  "dated_filters =
     \<lparr> time_column = Some ''learned_at'', default_hours = Some 24,
       confidence_column = Some ''confidence'', default_min_confidence = Some 0.6 \<rparr>"

definition dated_config :: table_config where
  "dated_config =
     \<lparr> table = Some ''person_facts'', table_alias = Some ''f'',
       content_column = Some ''fact'', embedding_column = Some ''embedding'',
       display_columns = Some [''f.id'', ''f.fact'', ''f.confidence''], joins = None,
       filters = Some dated_filters \<rparr>"

definition dated_compiled :: "real list \<Rightarrow> int \<Rightarrow> int option \<Rightarrow> real option \<Rightarrow> compiled" where
  "dated_compiled q k h m =
     build ''person_facts'' ''embedding'' ''f'' [''f.id'', ''f.fact'', ''f.confidence''] []
       dated_filters q k h m"

definition fact_tea_dated :: row where
  "fact_tea_dated = fact_tea @ [(''f.learned_at'', VTime 990)]"

definition dated_store :: store where
  "dated_store = \<lparr> now = 1000, relations = [(''person_facts f'', [fact_tea_dated])] \<rparr>"

text \<open>
  The filters of the entry \<^verbatim>\<open>notes\<close>, which declares both filter columns and no
  default, and its compiled form; and notes for a store: one written 900 hours ago, one
  written 100 hours ago with confidence 0.2, one with no confidence and one with a
  negative confidence.
\<close>

definition notes_filters :: filters_config where
  "notes_filters =
     \<lparr> time_column = Some ''created_at'', default_hours = None,
       confidence_column = Some ''confidence'', default_min_confidence = None \<rparr>"

definition notes_compiled :: "real list \<Rightarrow> int \<Rightarrow> int option \<Rightarrow> real option \<Rightarrow> compiled" where
  "notes_compiled q k h m =
     build ''notes'' ''embedding'' ''n'' [''n.id'', ''n.body''] [] notes_filters q k h m"

definition note_recent :: row where
  "note_recent = [(''n.id'', VInt 1), (''n.body'', VStr ''call the bank''),
                  (''n.created_at'', VTime 900), (''n.confidence'', VFloat (Float 0.2)),
                  (''n.embedding'', VVec [1, 0])]"

definition note_old :: row where
  "note_old = [(''n.id'', VInt 2), (''n.body'', VStr ''renew the lease''),
               (''n.created_at'', VTime 100), (''n.confidence'', VFloat (Float 0.9)),
               (''n.embedding'', VVec [1, 0])]"

definition note_unrated :: row where
  "note_unrated = [(''n.id'', VInt 3), (''n.body'', VStr ''water the plants''),
                   (''n.created_at'', VTime 950), (''n.confidence'', VNull),
                   (''n.embedding'', VVec [1, 0])]"

definition note_doubted :: row where
  "note_doubted = [(''n.id'', VInt 4), (''n.body'', VStr ''sell the car''),
                   (''n.created_at'', VTime 950), (''n.confidence'', VFloat (Float (- 0.1))),
                   (''n.embedding'', VVec [1, 0])]"

definition notes_store :: store where
  "notes_store = \<lparr> now = 1000, relations = [(''notes n'', [note_old, note_recent])] \<rparr>"

definition unrated_store :: store where
  "unrated_store =
     \<lparr> now = 1000, relations = [(''notes n'', [note_unrated, note_doubted, note_recent])] \<rparr>"

text \<open>
  The configurations whose statements the store model reads: no string of the entry
  contains a line feed, and the names spliced into the score expression and the
  predicates (table name, alias, embedding column, filter columns) contain neither a
  space nor an opening parenthesis.
\<close>

definition single_line :: "string \<Rightarrow> bool" where
  "single_line s = (CHR 0x0A \<notin> set s)"

definition plain_name :: "string \<Rightarrow> bool" where
  "plain_name s = (CHR 0x0A \<notin> set s \<and> CHR '' '' \<notin> set s \<and> CHR ''('' \<notin> set s)"

definition opt_str :: "string option \<Rightarrow> string" where
  "opt_str x = (case x of Some s \<Rightarrow> s | None \<Rightarrow> [])"

definition readable :: "table_config \<Rightarrow> bool" where
  "readable tc =
     (plain_name (opt_str (table tc)) \<and> plain_name (opt_str (table_alias tc)) \<and>
      plain_name (opt_str (embedding_column tc)) \<and> single_line (opt_str (content_column tc)) \<and>
      list_all single_line (case display_columns tc of Some d \<Rightarrow> d | None \<Rightarrow> []) \<and>
      list_all single_line (case joins tc of Some j \<Rightarrow> j | None \<Rightarrow> []) \<and>
      (case filters tc of
         None \<Rightarrow> True
       | Some fs \<Rightarrow> plain_name (opt_str (time_column fs)) \<and>
                   plain_name (opt_str (confidence_column fs))))"

text \<open>No space of the string is followed by the letter A, and the last character is no space.\<close>

fun and_free :: "string \<Rightarrow> bool" where
  "and_free [] = True"
| "and_free [x] = (x \<noteq> CHR '' '')"
| "and_free (x # y # zs) = (\<not> (x = CHR '' '' \<and> y = CHR ''A'') \<and> and_free (y # zs))"

text \<open>
  Best first: a number is followed by numbers that are not greater, and by NaN scores,
  which the store's ascending order of distances puts last.
\<close>

fun score_ge :: "pyfloat \<Rightarrow> pyfloat \<Rightarrow> bool" where
  "score_ge (Float x) (Float y) = (y \<le> x)"
| "score_ge (Float x) NaN = True"
| "score_ge NaN NaN = True"
| "score_ge NaN (Float y) = False"

text \<open>A score within the closed range of the cosine similarity, or NaN.\<close>

fun score_in_range :: "pyfloat \<Rightarrow> bool" where
  "score_in_range (Float x) = (- 1 \<le> x \<and> x \<le> 1)"
| "score_in_range NaN = True"

text \<open>
  The predicates that the store reads in the statement compiled for an entry: the
  embedding is present, then the time window and the confidence threshold where the
  entry declares the column.
\<close>

definition entry_conds :: "string \<Rightarrow> string \<Rightarrow> filters_config \<Rightarrow> cond list" where
  "entry_conds al ec fs =
     NotNull (al @ ''.'' @ ec) #
     (case truthy_col (time_column fs) of None \<Rightarrow> [] | Some tcol \<Rightarrow> [SinceHours (al @ ''.'' @ tcol)]) @
     (case truthy_col (confidence_column fs) of None \<Rightarrow> [] | Some ccol \<Rightarrow> [AtLeast (al @ ''.'' @ ccol)])"

text \<open>
  What a row holds in the column of a filter: a time within the last \<open>hrs\<close> hours, a
  number not below \<open>t\<close> (NaN is above every number, as in the store). A row satisfies
  the time filter, or the confidence filter, of an entry when the entry does not declare
  the column, or the row's cell is within the hours, or not below the threshold, of the
  request.
\<close>

fun within_hours :: "real \<Rightarrow> int \<Rightarrow> val option \<Rightarrow> bool" where
  "within_hours nw hrs (Some (VTime tm)) = (nw - of_int hrs \<le> tm)"
| "within_hours nw hrs _ = False"

fun not_below :: "real \<Rightarrow> val option \<Rightarrow> bool" where
  "not_below t (Some (VFloat f)) = ge_float f t"
| "not_below t (Some (VInt i)) = (t \<le> of_int i)"
| "not_below t _ = False"

definition time_filter_ok :: "real \<Rightarrow> string \<Rightarrow> filters_config \<Rightarrow> int option \<Rightarrow> row \<Rightarrow> bool" where
  "time_filter_ok nw al fs hours r =
     (case truthy_col (time_column fs) of
        None \<Rightarrow> True
      | Some time_col \<Rightarrow>
          within_hours nw
            (case hours of Some h \<Rightarrow> h
             | None \<Rightarrow> (case default_hours fs of Some d \<Rightarrow> d | None \<Rightarrow> 168))
            (map_of r (al @ ''.'' @ time_col)))"

definition conf_filter_ok :: "string \<Rightarrow> filters_config \<Rightarrow> real option \<Rightarrow> row \<Rightarrow> bool" where
  "conf_filter_ok al fs min_confidence r =
     (case truthy_col (confidence_column fs) of
        None \<Rightarrow> True
      | Some conf_col \<Rightarrow>
          not_below
            (case min_confidence of Some m \<Rightarrow> m
             | None \<Rightarrow> (case default_min_confidence fs of Some d \<Rightarrow> d | None \<Rightarrow> 0.0))
            (map_of r (al @ ''.'' @ conf_col)))"

section \<open>The statement text does not depend on request-time values\<close>

lemma time_part_text: "fst (time_part al fs h1) = fst (time_part al fs h2)"
  by (simp add: time_part_def Let_def split: option.split)

lemma conf_part_text: "fst (conf_part al fs m1) = fst (conf_part al fs m2)"
  by (simp add: conf_part_def Let_def split: option.split)

lemma build_text:
  "query (build tbl ec al dc jns fs q1 l1 h1 m1) = query (build tbl ec al dc jns fs q2 l2 h2 m2)"
  using time_part_text [of al fs h1 h2] conf_part_text [of al fs m1 m2]
  by (simp add: build_def Let_def)

lemma compile_query_text:
  "map_sum id query (compile_query tc q1 l1 h1 m1) = map_sum id query (compile_query tc q2 l2 h2 m2)"
  using build_text
  by (simp add: compile_query_def Let_def split: option.split list.split)

section \<open>An unconfigured table name\<close>

lemma sublist_py_join: "x \<in> set xs \<Longrightarrow> sublist x (py_join sep xs)"
proof (induction sep xs rule: py_join.induct)
  case (1 sep)
  then show ?case by simp
next
  case (2 sep y)
  then show ?case by simp
next
  case (3 sep y z zs)
  show ?case
  proof (cases "x = y")
    case True
    have "py_join sep (y # z # zs) = [] @ x @ (sep @ py_join sep (z # zs))"
      using True by simp
    then show ?thesis unfolding sublist_def by blast
  next
    case False
    with 3 have "sublist x (py_join sep (z # zs))" by simp
    then obtain ps ss where "py_join sep (z # zs) = ps @ x @ ss"
      unfolding sublist_def by blast
    then have "py_join sep (y # z # zs) = (y @ sep @ ps) @ x @ ss" by simp
    then show ?thesis unfolding sublist_def by blast
  qed
qed

lemma sublist_unknown_table_message:
  assumes "k \<in> set names"
  shows "sublist (py_repr_str k) (unknown_table_message t names)"
proof -
  have "sublist (py_repr_str k) (py_join '', '' (map py_repr_str names))"
    using assms by (intro sublist_py_join) simp
  then obtain ps ss where "py_join '', '' (map py_repr_str names) = ps @ py_repr_str k @ ss"
    unfolding sublist_def by blast
  then have "unknown_table_message t names =
      (''Table '' @ [CHR 0x27] @ t @ [CHR 0x27] @ '' not configured. Available: '' @ ''['' @ ps) @
      py_repr_str k @ (ss @ '']'')"
    by (simp add: unknown_table_message_def py_repr_list_def)
  then show ?thesis unfolding sublist_def by blast
qed

text \<open>
  C4. For a table name that is not a key of the loaded configuration, whatever the query
  vector, limit and filters, \<open>search\<close> raises the \<open>ValueError\<close> of the unconfigured
  table, executes nothing (the connection is unchanged), and the message contains the
  \<^verbatim>\<open>repr\<close> of every configured name.
\<close>

theorem search_unknown_table:
  assumes "table_name \<notin> fst ` set (get_available_tables cfg)"
  shows "search cfg exec c table_name q l h m =
           (Inl (ValueError (unknown_table_message table_name (map fst (get_available_tables cfg)))), c)
         \<and> (\<forall>k \<in> fst ` set (get_available_tables cfg).
               sublist (py_repr_str k)
                 (unknown_table_message table_name (map fst (get_available_tables cfg))))"
proof -
  from assms have "map_of (get_available_tables cfg) table_name = None"
    by (simp add: map_of_eq_None_iff)
  then have "search cfg exec c table_name q l h m =
      (Inl (ValueError (unknown_table_message table_name (map fst (get_available_tables cfg)))), c)"
    by (simp add: search_def)
  moreover have "\<forall>k \<in> fst ` set (get_available_tables cfg).
      sublist (py_repr_str k) (unknown_table_message table_name (map fst (get_available_tables cfg)))"
    using sublist_unknown_table_message by simp
  ultimately show ?thesis by (rule conjI)
qed

lemma ex_msg: "unknown_table_message ''orders'' [''facts'', ''notes''] =
   ''Table '' @ [CHR 0x27] @ ''orders'' @ [CHR 0x27] @ '' not configured. Available: ['' @ [CHR 0x27] @ ''facts'' @ [CHR 0x27] @ '', '' @ [CHR 0x27] @ ''notes'' @ [CHR 0x27] @ '']''"
  by (simp add: unknown_table_message_def py_repr_list_def py_repr_str_def py_repr_char_def py_printable_def Let_def)

theorem search_unknown_table_witness:
  "''orders'' \<notin> fst ` set (get_available_tables example_config) \<and>
   search example_config (pg_execute facts_store) conn0 ''orders'' [1, 0] 10 None None =
     (Inl (ValueError (''Table '' @ [CHR 0x27] @ ''orders'' @ [CHR 0x27] @
        '' not configured. Available: ['' @ [CHR 0x27] @ ''facts'' @ [CHR 0x27] @ '', '' @
        [CHR 0x27] @ ''notes'' @ [CHR 0x27] @ '']'')), conn0) \<and>
   sublist (py_repr_str ''facts'') (unknown_table_message ''orders'' [''facts'', ''notes'']) \<and>
   sublist (py_repr_str ''notes'') (unknown_table_message ''orders'' [''facts'', ''notes''])"
proof -
  have h: "''orders'' \<notin> fst ` set (get_available_tables example_config)"
    by (simp add: get_available_tables_def example_config_def)
  have names: "map fst (get_available_tables example_config) = [''facts'', ''notes'']"
    by (simp add: get_available_tables_def example_config_def)
  have keys: "fst ` set (get_available_tables example_config) = {''facts'', ''notes''}"
    by (simp add: get_available_tables_def example_config_def)
  note t = search_unknown_table [OF h, of "pg_execute facts_store" conn0 "[1, 0]" 10 None None,
      unfolded names keys]
  from t have a: "search example_config (pg_execute facts_store) conn0 ''orders'' [1, 0] 10 None None =
     (Inl (ValueError (unknown_table_message ''orders'' [''facts'', ''notes''])), conn0)"
    by (rule conjunct1)
  from t have b: "\<forall>k \<in> {''facts'', ''notes''}.
      sublist (py_repr_str k) (unknown_table_message ''orders'' [''facts'', ''notes''])"
    by (rule conjunct2)
  from b have b1: "sublist (py_repr_str ''facts'') (unknown_table_message ''orders'' [''facts'', ''notes''])"
    by (rule bspec) (rule insertI1)
  from b have b2: "sublist (py_repr_str ''notes'') (unknown_table_message ''orders'' [''facts'', ''notes''])"
    by (rule bspec) (rule insertI2, rule insertI1)
  from a have a': "search example_config (pg_execute facts_store) conn0 ''orders'' [1, 0] 10 None None =
     (Inl (ValueError (''Table '' @ [CHR 0x27] @ ''orders'' @ [CHR 0x27] @
        '' not configured. Available: ['' @ [CHR 0x27] @ ''facts'' @ [CHR 0x27] @ '', '' @
        [CHR 0x27] @ ''notes'' @ [CHR 0x27] @ '']'')), conn0)"
    by (simp only: ex_msg)
  from h a' b1 b2 show ?thesis by (intro conjI)
qed

section \<open>The store reads what the compiler writes\<close>

lemma split_on_append:
  "c \<notin> set a \<Longrightarrow> split_on c (a @ c # rest) = a # split_on c rest"
  by (induction a) auto

lemma split_on_single: "c \<notin> set a \<Longrightarrow> split_on c a = [a]"
  by (induction a) auto

lemma strip_prefix_append [simp]: "strip_prefix p (p @ s) = Some s"
  by (simp add: strip_prefix_def)

lemma strip_suffix_append [simp]: "strip_suffix p (s @ p) = Some s"
  by (simp add: strip_suffix_def suffix_def)

lemma after_last_append:
  assumes "c \<notin> set e"
  shows "after_last c (xs @ c # e) = e"
proof -
  have 1: "rev (xs @ c # e) = rev e @ c # rev xs" by simp
  have 2: "takeWhile (\<lambda>x. x \<noteq> c) (rev e @ c # rev xs) = takeWhile (\<lambda>x. x \<noteq> c) (rev e)"
    by (rule takeWhile_tail) simp
  have 3: "takeWhile (\<lambda>x. x \<noteq> c) (rev e) = rev e"
    using assms by (auto simp: takeWhile_eq_all_conv)
  show ?thesis unfolding after_last_def 1 2 3 by (rule rev_rev_ident)
qed

lemma parse_select_build:
  assumes "CHR ''('' \<notin> set e"
  shows "parse_select (cols @ '', 1 - ('' @ e @ '' <=> %s::vector) as similarity_score'') =
         Some (split_str '', '' cols, e)"
proof -
  have a: "cols @ '', 1 - ('' @ e @ '' <=> %s::vector) as similarity_score'' =
        (cols @ '', 1 - ('' @ e) @ '' <=> %s::vector) as similarity_score''"
    by simp
  have b: "cols @ '', 1 - ('' @ e = (cols @ '', 1 - '') @ CHR ''('' # e" by simp
  have c: "after_last (CHR ''('') (cols @ '', 1 - ('' @ e) = e"
    unfolding b using assms by (rule after_last_append)
  have d: "strip_suffix ('', 1 - ('' @ e) (cols @ '', 1 - ('' @ e) = Some cols"
    by (rule strip_suffix_append)
  show ?thesis
    unfolding parse_select_def a strip_suffix_append
    by (simp only: option.case Let_def c d)
qed


lemma single_line_Nil [simp]: "single_line []"
  by (simp add: single_line_def)

lemma single_line_Cons [simp]: "single_line (c # s) = (c \<noteq> CHR 0x0A \<and> single_line s)"
  by (auto simp: single_line_def)

lemma single_line_append [simp]: "single_line (a @ b) = (single_line a \<and> single_line b)"
  by (auto simp: single_line_def)

lemma single_line_py_join:
  "single_line sep \<Longrightarrow> list_all single_line xs \<Longrightarrow> single_line (py_join sep xs)"
  by (induction sep xs rule: py_join.induct) simp_all

lemma single_line_time_part:
  "single_line al \<Longrightarrow> single_line (opt_str (time_column fs)) \<Longrightarrow>
   list_all single_line (fst (time_part al fs h))"
  by (cases "time_column fs"; cases "the (time_column fs)")
     (simp_all add: time_part_def opt_str_def Let_def)

lemma single_line_conf_part:
  "single_line al \<Longrightarrow> single_line (opt_str (confidence_column fs)) \<Longrightarrow>
   list_all single_line (fst (conf_part al fs m))"
  by (cases "confidence_column fs"; cases "the (confidence_column fs)")
     (simp_all add: conf_part_def opt_str_def Let_def)

lemma parse_statement_lines:
  assumes "single_line sel" "single_line frm" "single_line whr" "single_line ord"
      and ps: "parse_select sel = Some (cols, e)"
  shows "parse_statement
           (newline @ ''            SELECT '' @ sel @
            newline @ ''            FROM '' @ frm @
            newline @ ''            WHERE '' @ whr @
            newline @ ''            ORDER BY '' @ ord @ '' <=> %s::vector'' @
            newline @ ''            LIMIT %s'' @
            newline @ ''        '') =
         Some \<lparr> st_select = cols, st_score_col = e, st_from = frm,
                st_where = split_str '' AND '' whr, st_order_col = ord \<rparr>"
proof -
  define L1 where "L1 = ''            SELECT '' @ sel"
  define L2 where "L2 = ''            FROM '' @ frm"
  define L3 where "L3 = ''            WHERE '' @ whr"
  define L4 where "L4 = ''            ORDER BY '' @ (ord @ '' <=> %s::vector'')"
  define L5 where "L5 = ''            LIMIT %s''"
  define L6 where "L6 = ''        ''"
  define nl where "nl = CHR 0x0A"
  have q: "newline @ ''            SELECT '' @ sel @
            newline @ ''            FROM '' @ frm @
            newline @ ''            WHERE '' @ whr @
            newline @ ''            ORDER BY '' @ ord @ '' <=> %s::vector'' @
            newline @ ''            LIMIT %s'' @
            newline @ ''        '' =
        nl # (L1 @ nl # (L2 @ nl # (L3 @ nl # (L4 @ nl # (L5 @ nl # L6)))))"
    by (simp add: newline_def nl_def L1_def L2_def L3_def L4_def L5_def L6_def)
  have n: "nl \<notin> set L1" "nl \<notin> set L2" "nl \<notin> set L3" "nl \<notin> set L4" "nl \<notin> set L5" "nl \<notin> set L6"
    using assms(1-4)
    by (simp_all add: single_line_def nl_def L1_def L2_def L3_def L4_def L5_def L6_def)
  have sp: "split_on nl (nl # (L1 @ nl # (L2 @ nl # (L3 @ nl # (L4 @ nl # (L5 @ nl # L6)))))) =
        [[], L1, L2, L3, L4, L5, L6]"
    using n by (simp add: split_on_append split_on_single)
  have p1: "strip_prefix ''            SELECT '' L1 = Some sel"
    unfolding L1_def by (rule strip_prefix_append)
  have p2: "strip_prefix ''            FROM '' L2 = Some frm"
    unfolding L2_def by (rule strip_prefix_append)
  have p3: "strip_prefix ''            WHERE '' L3 = Some whr"
    unfolding L3_def by (rule strip_prefix_append)
  have p4: "strip_prefix ''            ORDER BY '' L4 = Some (ord @ '' <=> %s::vector'')"
    unfolding L4_def by (rule strip_prefix_append)
  have p5: "strip_suffix '' <=> %s::vector'' (ord @ '' <=> %s::vector'') = Some ord"
    by (rule strip_suffix_append)
  have l5: "L5 = ''            LIMIT %s''" and l6: "L6 = ''        ''"
    by (simp_all add: L5_def L6_def)
  show ?thesis
    unfolding q parse_statement_def nl_def [symmetric] sp
    by (simp add: Let_def p1 p2 p3 p4 p5 ps l5 l6 del: append.simps)
qed


lemma plain_single: "plain_name s \<Longrightarrow> single_line s"
  by (simp add: plain_name_def single_line_def)

lemma plain_paren: "plain_name s \<Longrightarrow> CHR ''('' \<notin> set s"
  by (simp add: plain_name_def)

lemma parse_statement_build:
  assumes "single_line tbl" "plain_name al" "plain_name ec" "list_all single_line dc"
      "list_all single_line jns" "plain_name (opt_str (time_column fs))"
      "plain_name (opt_str (confidence_column fs))"
  shows "parse_statement (query (build tbl ec al dc jns fs q k h m)) =
         Some \<lparr> st_select = split_str '', '' (py_join '', '' dc),
                st_score_col = al @ ''.'' @ ec,
                st_from = from_clause (build tbl ec al dc jns fs q k h m),
                st_where = split_str '' AND ''
                    (py_join '' AND '' (where_conditions (build tbl ec al dc jns fs q k h m))),
                st_order_col = al @ ''.'' @ ec \<rparr>"
proof -
  let ?b = "build tbl ec al dc jns fs q k h m"
  note assms = assms(1) plain_single [OF assms(2)] plain_single [OF assms(3)] assms(4,5)
    plain_single [OF assms(6)] plain_single [OF assms(7)]
    plain_paren [OF assms(2)] plain_paren [OF assms(3)]
  define e where "e = al @ ''.'' @ ec"
  define whr where "whr = py_join '' AND '' (where_conditions ?b)"
  have sel: "select_clause ?b =
      py_join '', '' dc @ '', 1 - ('' @ e @ '' <=> %s::vector) as similarity_score''"
    by (simp add: build_def Let_def e_def)
  have e1: "single_line e" using assms by (simp add: e_def)
  have e2: "CHR ''('' \<notin> set e" using assms by (simp add: e_def)
  have s1: "single_line (select_clause ?b)"
    unfolding sel using e1 assms(4) by (simp add: single_line_py_join)
  have s2: "single_line (from_clause ?b)"
    using assms by (simp add: build_def Let_def single_line_py_join)
  have "list_all single_line (where_conditions ?b)"
    using assms e1 single_line_time_part [of al fs h] single_line_conf_part [of al fs m]
    by (simp add: build_def Let_def e_def)
  then have s3: "single_line whr"
    unfolding whr_def by (intro single_line_py_join) simp_all
  have ps: "parse_select (select_clause ?b) = Some (split_str '', '' (py_join '', '' dc), e)"
    unfolding sel using e2 by (rule parse_select_build)
  have q: "query ?b =
            newline @ ''            SELECT '' @ select_clause ?b @
            newline @ ''            FROM '' @ from_clause ?b @
            newline @ ''            WHERE '' @ whr @
            newline @ ''            ORDER BY '' @ e @ '' <=> %s::vector'' @
            newline @ ''            LIMIT %s'' @
            newline @ ''        ''"
    by (simp add: build_def Let_def e_def whr_def)
  show ?thesis
    unfolding q using parse_statement_lines [OF s1 s2 s3 e1 ps]
    by (simp only: e_def whr_def)
qed

lemma build_params:
  "params (build tbl ec al dc jns fs q k h m) =
     PVec q # snd (time_part al fs h) @ snd (conf_part al fs m) @ [PVec q, PInt k]"
  by (simp add: build_def Let_def)

lemma params_ends:
  assumes "ps = PVec q # mid @ [PVec q, PInt k]"
  shows "hd ps = PVec q" "ps ! (length ps - 2) = PVec q" "last ps = PInt k" "3 \<le> length ps"
    "butlast (butlast (tl ps)) = mid"
proof -
  show "hd ps = PVec q" "last ps = PInt k" "3 \<le> length ps" using assms by simp_all
  have "ps = (PVec q # mid) @ [PVec q, PInt k]" using assms by simp
  then have "ps ! (length ps - 2) = ((PVec q # mid) @ [PVec q, PInt k]) ! (length (PVec q # mid) + 0)"
    by simp
  also have "\<dots> = PVec q" by (simp only: nth_append_length_plus) simp
  finally show "ps ! (length ps - 2) = PVec q" .
  show "butlast (butlast (tl ps)) = mid" using assms by (simp add: butlast_append)
qed


section \<open>What the store answers\<close>

lemma map_rows_Inr: "map_rows f xs = Inr ys \<Longrightarrow> list_all2 (\<lambda>x y. f x = Inr y) xs ys"
  by (induction xs arbitrary: ys) (auto split: sum.splits)

lemma shape_rows_Inr: "shape_rows rs = Inr ps \<Longrightarrow> list_all2 (\<lambda>r p. pop_score r = Inr p) rs ps"
  by (induction rs arbitrary: ps) (auto split: sum.splits)

lemma pg_run_Inr:
  assumes "pg_run st s conds rel ps = Inr rows"
  shows "\<exists>q_sel q_ord k kept scored.
           hd ps = PVec q_sel \<and> ps ! (length ps - 2) = PVec q_ord \<and> last ps = PInt k \<and> 0 \<le> k \<and>
           select_rows (now st) conds (butlast (butlast (tl ps))) rel = Inr kept \<and>
           map_rows (score_row s q_sel q_ord) kept = Inr scored \<and>
           rows = map snd (take (nat k) (sort_key fst scored))"
  using assms
  by (auto simp: pg_run_def split: if_splits param.splits sum.splits)

lemma map_of_dict_of_last: "map_of (dict_of (cells @ [(k, v)])) k = Some v"
  by (simp add: dict_of_def update_conv')

lemma score_row_same:
  assumes "score_row s q q r = Inr p" "st_score_col s = st_order_col s"
  shows "\<exists>d. pg_distance r (st_order_col s) q = Inr d \<and> fst p = order_key d \<and>
             map_of (snd p) ''similarity_score'' = Some (one_minus d)"
  using assms
  by (auto simp: score_row_def map_of_dict_of_last split: sum.splits)

lemma pop_score_Inr:
  assumes "pop_score r = Inr p" "map_of r ''similarity_score'' = Some v"
  shows "py_float v = Inr (snd p)"
  using assms by (auto simp: pop_score_def split: sum.splits)

lemma key_score:
  assumes "order_key d1 \<le> order_key d2" "py_float (one_minus d1) = Inr s1"
      "py_float (one_minus d2) = Inr s2"
  shows "score_ge s1 s2"
  using assms
  by (cases d1 rule: order_key.cases; cases d2 rule: order_key.cases) auto

lemma sorted_scores:
  assumes "list_all2 (\<lambda>p s. \<exists>d. fst p = order_key d \<and> py_float (one_minus d) = Inr s) L ss"
      and "sorted (map fst L)"
  shows "sorted_wrt score_ge ss"
  using assms
proof (induction L ss rule: list_all2_induct)
  case Nil
  then show ?case by simp
next
  case (Cons p L s ss)
  from Cons.hyps(1) obtain d where d: "fst p = order_key d" "py_float (one_minus d) = Inr s"
    by blast
  have "score_ge s s'" if "s' \<in> set ss" for s'
  proof -
    from that obtain i where i: "i < length ss" "s' = ss ! i"
      by (auto simp: in_set_conv_nth)
    from Cons.hyps(2) have len: "length L = length ss"
      by (rule list_all2_lengthD)
    from Cons.hyps(2) i have "\<exists>d. fst (L ! i) = order_key d \<and> py_float (one_minus d) = Inr s'"
      by (simp add: list_all2_conv_all_nth)
    then obtain d' where d': "fst (L ! i) = order_key d'" "py_float (one_minus d') = Inr s'"
      by blast
    define p' where "p' = L ! i"
    have p': "p' \<in> set L" using i len by (simp add: p'_def)
    note d' = d' [folded p'_def]
    from Cons.prems p' have "fst p \<le> fst p'" by auto
    with d d' show ?thesis by (auto intro: key_score)
  qed
  moreover from Cons have "sorted_wrt score_ge ss" by simp
  ultimately show ?case by simp
qed

lemma pg_run_same_scores:
  assumes run: "pg_run st s conds rel ps = Inr rows"
      and same: "st_score_col s = st_order_col s" "hd ps = PVec q" "ps ! (length ps - 2) = PVec q"
      and k: "last ps = PInt k"
  shows "\<exists>L. rows = map snd L \<and> sorted (map fst L) \<and> length L \<le> nat k \<and> 0 \<le> k \<and>
             list_all (\<lambda>p. \<exists>r d. pg_distance r (st_order_col s) q = Inr d \<and> fst p = order_key d \<and>
                map_of (snd p) ''similarity_score'' = Some (one_minus d)) L"
proof -
  from pg_run_Inr [OF run] same k obtain kept scored where
      k0: "0 \<le> k" and
      sc: "map_rows (score_row s q q) kept = Inr scored" and
      rows: "rows = map snd (take (nat k) (sort_key fst scored))"
    by auto
  let ?L = "take (nat k) (sort_key fst scored)"
  have "map fst ?L = take (nat k) (map fst (sort_key fst scored))"
    by (simp add: take_map)
  then have 1: "sorted (map fst ?L)"
    by simp
  have "\<exists>r d. pg_distance r (st_order_col s) q = Inr d \<and> fst p = order_key d \<and>
          map_of (snd p) ''similarity_score'' = Some (one_minus d)" if "p \<in> set scored" for p
  proof -
    from that obtain i where i: "i < length scored" "p = scored ! i"
      by (auto simp: in_set_conv_nth)
    with map_rows_Inr [OF sc] have "score_row s q q (kept ! i) = Inr p"
      by (simp add: list_all2_conv_all_nth)
    from score_row_same [OF this same(1)] show ?thesis by blast
  qed
  moreover have "set ?L \<subseteq> set scored"
    using set_take_subset [of "nat k" "sort_key fst scored"] by simp
  ultimately have 2: "list_all (\<lambda>p. \<exists>r d. pg_distance r (st_order_col s) q = Inr d \<and>
      fst p = order_key d \<and> map_of (snd p) ''similarity_score'' = Some (one_minus d)) ?L"
    unfolding list_all_iff by blast
  from rows 1 2 k0 show ?thesis by (intro exI [of _ ?L]) simp
qed


section \<open>The range of the cosine similarity\<close>

lemma dot_Nil [simp]: "dot [] v = 0" "dot u [] = 0"
  by (simp_all add: dot_def)

lemma dot_Cons [simp]: "dot (x # u) (y # v) = x * y + dot u v"
  by (simp add: dot_def)

lemma dot_self_nonneg: "0 \<le> dot u u"
  by (induction u) simp_all

lemma cauchy_schwarz_step:
  fixes A B C x y :: real
  assumes A0: "0 \<le> A" and C0: "0 \<le> C" and IH: "B\<^sup>2 \<le> A * C"
  shows "(x * y + B)\<^sup>2 \<le> (x * x + A) * (y * y + C)"
proof -
  have "sqrt (B\<^sup>2) \<le> sqrt (A * C)" using IH by (rule real_sqrt_le_mono)
  then have B: "\<bar>B\<bar> \<le> sqrt A * sqrt C" by (simp add: real_sqrt_mult)
  define a where "a = sqrt A * \<bar>y\<bar>"
  define c where "c = sqrt C * \<bar>x\<bar>"
  have am: "2 * a * c \<le> a\<^sup>2 + c\<^sup>2" by (rule sum_squares_bound)
  have "a\<^sup>2 = A * y\<^sup>2" using A0 by (simp add: a_def power_mult_distrib)
  then have a2: "a\<^sup>2 = A * (y * y)" by (simp only: power2_eq_square)
  have "c\<^sup>2 = C * x\<^sup>2" using C0 by (simp add: c_def power_mult_distrib)
  then have c2: "c\<^sup>2 = C * (x * x)" by (simp only: power2_eq_square)
  have "B * (x * y) \<le> \<bar>B * (x * y)\<bar>" by (rule abs_ge_self)
  also have "\<dots> = \<bar>B\<bar> * (\<bar>x\<bar> * \<bar>y\<bar>)" by (simp add: abs_mult)
  also have "\<dots> \<le> (sqrt A * sqrt C) * (\<bar>x\<bar> * \<bar>y\<bar>)"
    using B by (rule mult_right_mono) simp
  also have "\<dots> = a * c" by (simp add: a_def c_def)
  finally have "2 * (B * (x * y)) \<le> 2 * a * c" by simp
  with am a2 c2 have cross: "2 * (B * (x * y)) \<le> A * (y * y) + C * (x * x)" by simp
  have l: "(x * y + B)\<^sup>2 = (x * x) * (y * y) + 2 * (B * (x * y)) + B\<^sup>2"
    by (simp add: power2_eq_square algebra_simps)
  have r: "(x * x + A) * (y * y + C) = (x * x) * (y * y) + (A * (y * y) + C * (x * x)) + A * C"
    by (simp add: algebra_simps)
  show ?thesis unfolding l r using cross IH by linarith
qed

lemma cauchy_schwarz_list: "length u = length v \<Longrightarrow> (dot u v)\<^sup>2 \<le> dot u u * dot v v"
proof (induction u v rule: list_induct2)
  case Nil
  then show ?case by simp
next
  case (Cons x u y v)
  from cauchy_schwarz_step [OF dot_self_nonneg dot_self_nonneg Cons.IH, of x y]
  show ?case by simp
qed

lemma cosine_range:
  assumes len: "length u = length v" and nz: "vec_norm u \<noteq> 0" "vec_norm v \<noteq> 0"
  shows "- 1 \<le> dot u v / (vec_norm u * vec_norm v) \<and> dot u v / (vec_norm u * vec_norm v) \<le> 1"
proof -
  define n where "n = vec_norm u * vec_norm v"
  have pos: "0 < n"
    using nz dot_self_nonneg [of u] dot_self_nonneg [of v]
    by (simp add: n_def vec_norm_def zero_less_mult_iff less_le)
  have "sqrt ((dot u v)\<^sup>2) \<le> sqrt (dot u u * dot v v)"
    using cauchy_schwarz_list [OF len] by (rule real_sqrt_le_mono)
  then have "\<bar>dot u v\<bar> \<le> n"
    by (simp add: real_sqrt_mult vec_norm_def n_def)
  then have "- n \<le> dot u v" "dot u v \<le> n" by linarith+
  with pos have "- 1 \<le> dot u v / n \<and> dot u v / n \<le> 1"
    by (simp add: pos_le_divide_eq pos_divide_le_eq)
  then show ?thesis by (simp only: n_def)
qed

lemma pg_distance_score_range:
  assumes "pg_distance r col q = Inr d" "py_float (one_minus d) = Inr s"
  shows "score_in_range s"
proof -
  from assms(1) consider "d = VNull" | v where "d = VFloat (cosine_distance v q)" "length v = length q"
    by (auto simp: pg_distance_def split: option.splits val.splits if_splits)
  then show ?thesis
  proof cases
    case 1
    with assms(2) show ?thesis by simp
  next
    case 2
    show ?thesis
    proof (cases "vec_norm v = 0 \<or> vec_norm q = 0")
      case True
      with 2 assms(2) show ?thesis by (auto simp: cosine_distance_def)
    next
      case False
      with cosine_range [OF 2(2)]
      have "- 1 \<le> dot v q / (vec_norm v * vec_norm q) \<and> dot v q / (vec_norm v * vec_norm q) \<le> 1"
        by simp
      with False 2 assms(2) show ?thesis by (auto simp: cosine_distance_def)
    qed
  qed
qed


section \<open>The predicates the store reads\<close>

lemma and_free_tl: "and_free (x # a) \<Longrightarrow> and_free a"
  by (cases a) simp_all

lemma and_free_no_prefix: "and_free (x # a) \<Longrightarrow> \<not> prefix '' AND '' ((x # a) @ rest)"
  by (cases a) auto

lemma split_str_and_free:
  "and_free a \<Longrightarrow> split_str '' AND '' (a @ '' AND '' @ rest) = a # split_str '' AND '' rest"
proof (induction a)
  case Nil
  then show ?case by simp
next
  case (Cons x a)
  from and_free_no_prefix [OF Cons.prems, of "'' AND '' @ rest"]
  have "\<not> prefix '' AND '' (x # a @ '' AND '' @ rest)" by simp
  moreover from Cons have "split_str '' AND '' (a @ '' AND '' @ rest) = a # split_str '' AND '' rest"
    by (simp add: and_free_tl)
  ultimately show ?case by (simp del: prefix_code)
qed

lemma split_str_and_free_last: "and_free a \<Longrightarrow> split_str '' AND '' a = [a]"
proof (induction a)
  case Nil
  then show ?case by simp
next
  case (Cons x a)
  from and_free_no_prefix [OF Cons.prems, of "[]"]
  have "\<not> prefix '' AND '' (x # a)" by simp
  moreover from Cons have "split_str '' AND '' a = [a]"
    by (simp add: and_free_tl)
  ultimately show ?case by (simp del: prefix_code)
qed

lemma split_str_py_join:
  "cs \<noteq> [] \<Longrightarrow> list_all and_free cs \<Longrightarrow> split_str '' AND '' (py_join '' AND '' cs) = cs"
proof (induction "'' AND ''" cs rule: py_join.induct)
  case 1
  then show ?case by simp
next
  case (2 x)
  then show ?case by (simp add: split_str_and_free_last)
next
  case (3 x y ys)
  from 3 have x: "and_free x" and rest: "split_str '' AND '' (py_join '' AND '' (y # ys)) = y # ys"
    by simp_all
  have "split_str '' AND '' (py_join '' AND '' (x # y # ys)) =
        split_str '' AND '' (x @ '' AND '' @ py_join '' AND '' (y # ys))"
    by (simp only: py_join.simps)
  also have "\<dots> = x # split_str '' AND '' (py_join '' AND '' (y # ys))"
    using x by (rule split_str_and_free)
  finally show ?case by (simp only: rest)
qed

lemma and_free_append:
  "CHR '' '' \<notin> set p \<Longrightarrow> and_free (p @ b) = and_free b"
proof (induction p)
  case Nil
  then show ?case by simp
next
  case (Cons x p)
  then show ?case by (cases "p @ b") auto
qed

lemma not_suffix_last: "xs \<noteq> [] \<Longrightarrow> last xs \<noteq> last ys \<Longrightarrow> \<not> suffix xs ys"
  by (auto simp: suffix_def)

lemma parse_cond_not_null: "parse_cond (p @ '' IS NOT NULL'') = Some (NotNull p)"
  unfolding parse_cond_def by (simp only: strip_suffix_append option.case)

lemma parse_cond_since:
  "parse_cond (p @ '' >= NOW() - INTERVAL '' @ [CHR 0x27] @ ''%s hours'' @ [CHR 0x27]) =
   Some (SinceHours p)"
proof -
  let ?lit = "'' >= NOW() - INTERVAL '' @ [CHR 0x27] @ ''%s hours'' @ [CHR 0x27]"
  have "\<not> suffix '' IS NOT NULL'' (p @ ?lit)"
    by (rule not_suffix_last) simp_all
  then have 1: "strip_suffix '' IS NOT NULL'' (p @ ?lit) = None"
    by (simp add: strip_suffix_def)
  have 2: "strip_suffix ?lit (p @ ?lit) = Some p" by (rule strip_suffix_append)
  show ?thesis unfolding parse_cond_def by (simp only: 1 2 option.case)
qed

lemma parse_cond_at_least: "parse_cond (p @ '' >= %s'') = Some (AtLeast p)"
proof -
  have "\<not> suffix '' IS NOT NULL'' (p @ '' >= %s'')"
    by (rule not_suffix_last) simp_all
  then have 1: "strip_suffix '' IS NOT NULL'' (p @ '' >= %s'') = None"
    by (simp add: strip_suffix_def)
  have "\<not> suffix ('' >= NOW() - INTERVAL '' @ [CHR 0x27] @ ''%s hours'' @ [CHR 0x27]) (p @ '' >= %s'')"
    by (rule not_suffix_last) simp_all
  then have 2: "strip_suffix ('' >= NOW() - INTERVAL '' @ [CHR 0x27] @ ''%s hours'' @ [CHR 0x27])
      (p @ '' >= %s'') = None"
    by (simp add: strip_suffix_def)
  have 3: "strip_suffix '' >= %s'' (p @ '' >= %s'') = Some p" by (rule strip_suffix_append)
  show ?thesis unfolding parse_cond_def by (simp only: 1 2 3 option.case)
qed


lemma time_part_cases:
  obtains (none) "time_part al fs h = ([], [])"
  | (some) tcol v where "time_column fs = Some tcol"
      "time_part al fs h =
         ([(al @ ''.'' @ tcol) @ '' >= NOW() - INTERVAL '' @ [CHR 0x27] @ ''%s hours'' @ [CHR 0x27]],
          [PInt v])"
proof (cases "truthy_col (time_column fs)")
  case None
  then have "time_part al fs h = ([], [])" by (simp add: time_part_def)
  then show ?thesis by (rule none)
next
  case (Some tcol)
  then have tc: "time_column fs = Some tcol"
    by (cases "time_column fs" rule: truthy_col.cases) simp_all
  from Some have "time_part al fs h =
         ([(al @ ''.'' @ tcol) @ '' >= NOW() - INTERVAL '' @ [CHR 0x27] @ ''%s hours'' @ [CHR 0x27]],
          [PInt (case h of Some x \<Rightarrow> x | None \<Rightarrow> (case default_hours fs of Some d \<Rightarrow> d | None \<Rightarrow> 168))])"
    by (simp add: time_part_def Let_def)
  with tc show ?thesis by (rule some)
qed

lemma conf_part_cases:
  obtains (none) "conf_part al fs m = ([], [])"
  | (some) ccol v where "confidence_column fs = Some ccol"
      "conf_part al fs m = ([(al @ ''.'' @ ccol) @ '' >= %s''], [PFloat v])"
proof (cases "truthy_col (confidence_column fs)")
  case None
  then have "conf_part al fs m = ([], [])" by (simp add: conf_part_def)
  then show ?thesis by (rule none)
next
  case (Some ccol)
  then have tc: "confidence_column fs = Some ccol"
    by (cases "confidence_column fs" rule: truthy_col.cases) simp_all
  from Some have "conf_part al fs m = ([(al @ ''.'' @ ccol) @ '' >= %s''],
          [PFloat (case m of Some x \<Rightarrow> x
                   | None \<Rightarrow> (case default_min_confidence fs of Some d \<Rightarrow> d | None \<Rightarrow> 0.0))])"
    by (simp add: conf_part_def Let_def)
  with tc show ?thesis by (rule some)
qed

lemma where_conditions_build:
  "where_conditions (build tbl ec al dc jns fs q k h m) =
     ((al @ ''.'' @ ec) @ '' IS NOT NULL'') # fst (time_part al fs h) @ fst (conf_part al fs m)"
  by (simp add: build_def Let_def)

lemma and_free_cond:
  assumes "plain_name al" "plain_name col"
  shows "and_free ((al @ ''.'' @ col) @ '' IS NOT NULL'')"
    "and_free ((al @ ''.'' @ col) @ '' >= NOW() - INTERVAL '' @ [CHR 0x27] @ ''%s hours'' @ [CHR 0x27])"
    "and_free ((al @ ''.'' @ col) @ '' >= %s'')"
proof -
  have "CHR '' '' \<notin> set (al @ ''.'' @ col)"
    using assms by (simp add: plain_name_def)
  note r = and_free_append [OF this]
  show "and_free ((al @ ''.'' @ col) @ '' IS NOT NULL'')"
    "and_free ((al @ ''.'' @ col) @ '' >= NOW() - INTERVAL '' @ [CHR 0x27] @ ''%s hours'' @ [CHR 0x27])"
    "and_free ((al @ ''.'' @ col) @ '' >= %s'')"
    unfolding r by simp_all
qed

lemma parse_conds_build:
  assumes pl: "plain_name al" "plain_name ec" "plain_name (opt_str (time_column fs))"
      "plain_name (opt_str (confidence_column fs))"
  shows "\<exists>conds. parse_conds (split_str '' AND ''
             (py_join '' AND '' (where_conditions (build tbl ec al dc jns fs q k h m)))) = Some conds \<and>
           length (filter needs_param conds) =
             length (snd (time_part al fs h)) + length (snd (conf_part al fs m))"
proof -
  let ?c1 = "(al @ ''.'' @ ec) @ '' IS NOT NULL''"
  note c1 = and_free_cond(1) [OF pl(1,2)]
  show ?thesis
  proof (cases rule: time_part_cases [of al fs h])
    case none
    note tp = none
    show ?thesis
    proof (cases rule: conf_part_cases [of al fs m])
      case none
      have w: "where_conditions (build tbl ec al dc jns fs q k h m) = [?c1]"
        unfolding where_conditions_build tp none by simp
      have "split_str '' AND '' (py_join '' AND '' [?c1]) = [?c1]"
        using c1 by (intro split_str_py_join) simp_all
      then show ?thesis
        unfolding w tp none
        by (simp only: parse_conds.simps parse_cond_not_null option.case) simp
    next
      case (some ccol v)
      let ?c3 = "(al @ ''.'' @ ccol) @ '' >= %s''"
      from some(1) pl(4) have "plain_name ccol" by (simp add: opt_str_def)
      note c3 = and_free_cond(3) [OF pl(1) this]
      have w: "where_conditions (build tbl ec al dc jns fs q k h m) = [?c1, ?c3]"
        unfolding where_conditions_build tp some(2) by simp
      have "split_str '' AND '' (py_join '' AND '' [?c1, ?c3]) = [?c1, ?c3]"
        using c1 c3 by (intro split_str_py_join) simp_all
      then show ?thesis
        unfolding w tp some(2)
        by (simp only: parse_conds.simps parse_cond_not_null parse_cond_at_least option.case) simp
    qed
  next
    case (some tcol tv)
    note tp = some(2)
    let ?c2 = "(al @ ''.'' @ tcol) @ '' >= NOW() - INTERVAL '' @ [CHR 0x27] @ ''%s hours'' @ [CHR 0x27]"
    from some(1) pl(3) have "plain_name tcol" by (simp add: opt_str_def)
    note c2 = and_free_cond(2) [OF pl(1) this]
    show ?thesis
    proof (cases rule: conf_part_cases [of al fs m])
      case none
      have w: "where_conditions (build tbl ec al dc jns fs q k h m) = [?c1, ?c2]"
        unfolding where_conditions_build tp none by simp
      have "split_str '' AND '' (py_join '' AND '' [?c1, ?c2]) = [?c1, ?c2]"
        using c1 c2 by (intro split_str_py_join) simp_all
      then show ?thesis
        unfolding w tp none
        by (simp only: parse_conds.simps parse_cond_not_null parse_cond_since option.case) simp
    next
      case (some ccol v)
      let ?c3 = "(al @ ''.'' @ ccol) @ '' >= %s''"
      from some(1) pl(4) have "plain_name ccol" by (simp add: opt_str_def)
      note c3 = and_free_cond(3) [OF pl(1) this]
      have w: "where_conditions (build tbl ec al dc jns fs q k h m) = [?c1, ?c2, ?c3]"
        unfolding where_conditions_build tp some(2) by simp
      have "split_str '' AND '' (py_join '' AND '' [?c1, ?c2, ?c3]) = [?c1, ?c2, ?c3]"
        using c1 c2 c3 by (intro split_str_py_join) simp_all
      then show ?thesis
        unfolding w tp some(2)
        by (simp only: parse_conds.simps parse_cond_not_null parse_cond_since
              parse_cond_at_least option.case) simp
    qed
  qed
qed


section \<open>From the configuration entry to the store\<close>

lemma compile_query_eq:
  assumes "table tc = Some tbl" "tbl \<noteq> []" "embedding_column tc = Some ec"
      "content_column tc = Some cc"
  shows "compile_query tc q k h m =
     Inr (build tbl ec
            (case table_alias tc of Some a \<Rightarrow> a | None \<Rightarrow> [hd tbl])
            (case display_columns tc of Some d \<Rightarrow> d
             | None \<Rightarrow> [(case table_alias tc of Some a \<Rightarrow> a | None \<Rightarrow> [hd tbl]) @ ''.id'',
                        (case table_alias tc of Some a \<Rightarrow> a | None \<Rightarrow> [hd tbl]) @ ''.'' @ cc])
            (case joins tc of Some j \<Rightarrow> j | None \<Rightarrow> [])
            (case filters tc of Some f \<Rightarrow> f
             | None \<Rightarrow> \<lparr> time_column = None, default_hours = None,
                         confidence_column = None, default_min_confidence = None \<rparr>)
            q k h m)"
proof -
  from assms(2) obtain t0 ts where t: "tbl = t0 # ts" by (cases tbl) auto
  show ?thesis using assms(1,3,4) unfolding t
    by (simp add: compile_query_def Let_def cong: option.case_cong)
qed

lemma compile_query_wf:
  assumes "compile_query tc q k h m = Inr cq"
  shows "\<exists>tbl ec cc. table tc = Some tbl \<and> tbl \<noteq> [] \<and> embedding_column tc = Some ec \<and>
           content_column tc = Some cc"
  using assms by (simp add: compile_query_def Let_def split: option.splits list.splits)

lemma compile_query_Inr:
  assumes "compile_query tc q k h m = Inr cq"
  obtains tbl ec al dc jns fs cc where
    "cq = build tbl ec al dc jns fs q k h m"
    "table tc = Some tbl" "tbl \<noteq> []" "embedding_column tc = Some ec" "content_column tc = Some cc"
    "al = (case table_alias tc of Some a \<Rightarrow> a | None \<Rightarrow> [hd tbl])"
    "dc = (case display_columns tc of Some d \<Rightarrow> d | None \<Rightarrow> [al @ ''.id'', al @ ''.'' @ cc])"
    "jns = (case joins tc of Some j \<Rightarrow> j | None \<Rightarrow> [])"
    "fs = (case filters tc of Some f \<Rightarrow> f
           | None \<Rightarrow> \<lparr> time_column = None, default_hours = None,
                       confidence_column = None, default_min_confidence = None \<rparr>)"
proof -
  from compile_query_wf [OF assms] obtain tbl ec cc where
    wf: "table tc = Some tbl" "tbl \<noteq> []" "embedding_column tc = Some ec" "content_column tc = Some cc"
    by blast
  from compile_query_eq [OF wf, of q k h m] assms
  have "cq = build tbl ec
            (case table_alias tc of Some a \<Rightarrow> a | None \<Rightarrow> [hd tbl])
            (case display_columns tc of Some d \<Rightarrow> d
             | None \<Rightarrow> [(case table_alias tc of Some a \<Rightarrow> a | None \<Rightarrow> [hd tbl]) @ ''.id'',
                        (case table_alias tc of Some a \<Rightarrow> a | None \<Rightarrow> [hd tbl]) @ ''.'' @ cc])
            (case joins tc of Some j \<Rightarrow> j | None \<Rightarrow> [])
            (case filters tc of Some f \<Rightarrow> f
             | None \<Rightarrow> \<lparr> time_column = None, default_hours = None,
                         confidence_column = None, default_min_confidence = None \<rparr>)
            q k h m"
    by simp
  from that [OF this wf refl refl refl refl] show thesis .
qed

lemma plain_name_hd: "plain_name s \<Longrightarrow> s \<noteq> [] \<Longrightarrow> plain_name [hd s]"
  by (cases s) (simp_all add: plain_name_def)

lemma compile_query_store_view:
  assumes rd: "readable tc" and cq: "compile_query tc q k h m = Inr cq"
  shows "\<exists>s conds mid.
           parse_statement (query cq) = Some s \<and> st_score_col s = st_order_col s \<and>
           st_from s = from_clause cq \<and> parse_conds (st_where s) = Some conds \<and>
           params cq = PVec q # mid @ [PVec q, PInt k] \<and>
           length (filter needs_param conds) = length mid"
proof -
  from cq obtain tbl ec al dc jns fs cc where b: "cq = build tbl ec al dc jns fs q k h m"
    and tc: "table tc = Some tbl" "tbl \<noteq> []" "embedding_column tc = Some ec"
      "content_column tc = Some cc"
      "al = (case table_alias tc of Some a \<Rightarrow> a | None \<Rightarrow> [hd tbl])"
      "dc = (case display_columns tc of Some d \<Rightarrow> d | None \<Rightarrow> [al @ ''.id'', al @ ''.'' @ cc])"
      "jns = (case joins tc of Some j \<Rightarrow> j | None \<Rightarrow> [])"
      "fs = (case filters tc of Some f \<Rightarrow> f
           | None \<Rightarrow> \<lparr> time_column = None, default_hours = None,
                       confidence_column = None, default_min_confidence = None \<rparr>)"
    by (rule compile_query_Inr)
  from rd tc have p_tbl: "plain_name tbl" and p_ec: "plain_name ec" and s_cc: "single_line cc"
    by (simp_all add: readable_def opt_str_def)
  have p_al: "plain_name al"
  proof (cases "table_alias tc")
    case None
    with tc(5) p_tbl tc(2) show ?thesis by (simp add: plain_name_hd)
  next
    case (Some a)
    with rd tc(5) show ?thesis by (simp add: readable_def opt_str_def)
  qed
  have s_dc: "list_all single_line dc"
  proof (cases "display_columns tc")
    case None
    with tc(6) s_cc plain_single [OF p_al] show ?thesis by simp
  next
    case (Some d)
    with rd tc(6) show ?thesis by (simp add: readable_def)
  qed
  have s_jns: "list_all single_line jns"
    using rd tc(7) by (cases "joins tc") (simp_all add: readable_def)
  have p_fs: "plain_name (opt_str (time_column fs))" "plain_name (opt_str (confidence_column fs))"
    using rd tc(8) by (cases "filters tc"; simp add: readable_def opt_str_def plain_name_def)+
  note ps = parse_statement_build [OF plain_single [OF p_tbl] p_al p_ec s_dc s_jns p_fs,
      of q k h m]
  from parse_conds_build [OF p_al p_ec p_fs, of tbl dc jns q k h m]
  obtain conds where conds: "parse_conds (split_str '' AND ''
             (py_join '' AND '' (where_conditions (build tbl ec al dc jns fs q k h m)))) = Some conds"
      "length (filter needs_param conds) =
         length (snd (time_part al fs h)) + length (snd (conf_part al fs m))"
    by blast
  let ?s = "\<lparr> st_select = split_str '', '' (py_join '', '' dc),
                st_score_col = al @ ''.'' @ ec,
                st_from = from_clause (build tbl ec al dc jns fs q k h m),
                st_where = split_str '' AND ''
                    (py_join '' AND '' (where_conditions (build tbl ec al dc jns fs q k h m))),
                st_order_col = al @ ''.'' @ ec \<rparr>"
  let ?mid = "snd (time_part al fs h) @ snd (conf_part al fs m)"
  have 1: "parse_statement (query cq) = Some ?s" unfolding b by (rule ps)
  have 2: "st_score_col ?s = st_order_col ?s" by simp
  have 3: "st_from ?s = from_clause cq" unfolding b by simp
  have 4: "parse_conds (st_where ?s) = Some conds" using conds(1) by simp
  have 5: "params cq = PVec q # ?mid @ [PVec q, PInt k]"
    unfolding b by (simp add: build_params)
  have 6: "length (filter needs_param conds) = length ?mid" using conds(2) by simp
  from 1 2 3 4 5 6 show ?thesis by blast
qed

lemma compile_query_params:
  assumes "compile_query tc q k h m = Inr cq"
  shows "\<exists>mid. params cq = PVec q # mid @ [PVec q, PInt k]"
  using assms build_params by (elim compile_query_Inr) auto

lemma pg_run_compiled:
  assumes "length (filter needs_param conds) = length mid"
  shows "pg_run st s conds rel (PVec q # mid @ [PVec q, PInt k]) =
     (if k < 0 then Inl (BackendError ''LIMIT must not be negative'')
      else
        (case select_rows (now st) conds mid rel of
           Inl e \<Rightarrow> Inl e
         | Inr kept \<Rightarrow>
             (case map_rows (score_row s q q) kept of
                Inl e \<Rightarrow> Inl e
              | Inr scored \<Rightarrow> Inr (map snd (take (nat k) (sort_key fst scored))))))"
  using params_ends [OF refl, of q mid k] assms
  by (simp add: pg_run_def del: hd_append2 butlast.simps)

lemma search_configured:
  assumes "map_of (get_available_tables cfg) table_name = Some tc"
      and "compile_query tc q k h m = Inr cq"
  shows "search cfg exec c table_name q k h m =
           ((case exec (query cq) (params cq) of Inl e \<Rightarrow> Inl e | Inr rows \<Rightarrow> shape_rows rows),
            c\<lparr>executed := executed c @ [(query cq, params cq)]\<rparr>)"
  using assms by (simp add: search_def Let_def split: sum.split)

lemma search_Inr:
  assumes "map_of (get_available_tables cfg) table_name = Some tc"
      and "search cfg exec c table_name q k h m = (Inr res, c')"
  obtains cq rows where "compile_query tc q k h m = Inr cq"
    "exec (query cq) (params cq) = Inr rows" "shape_rows rows = Inr res"
  using assms by (auto simp: search_def Let_def split: sum.splits)

section \<open>Rows, predicates and results\<close>

lemma select_rows_none:
  "list_all (\<lambda>r. row_passes nw r cs ps = Inr False) rel \<Longrightarrow> select_rows nw cs ps rel = Inr []"
  by (induction rel) simp_all

lemma select_rows_removeAll:
  "select_rows nw cs ps rel = Inr kept \<Longrightarrow> row_passes nw r cs ps \<noteq> Inr True \<Longrightarrow>
   select_rows nw cs ps (removeAll r rel) = Inr kept"
  by (induction rel arbitrary: kept) (auto split: sum.splits if_splits)

lemma select_rows_kept:
  "select_rows nw cs ps rel = Inr kept \<Longrightarrow> r \<in> set rel \<Longrightarrow> row_passes nw r cs ps = Inr True \<Longrightarrow>
   r \<in> set kept"
  by (induction rel arbitrary: kept) (auto split: sum.splits if_splits)

lemma select_rows_length:
  "select_rows nw cs ps rel = Inr kept \<Longrightarrow> length kept \<le> length rel"
  by (induction rel arbitrary: kept) (auto split: sum.splits if_splits)

lemma map_rows_mem:
  "map_rows f xs = Inr ys \<Longrightarrow> x \<in> set xs \<Longrightarrow> \<exists>y. f x = Inr y \<and> y \<in> set ys"
  by (induction xs arbitrary: ys) (auto split: sum.splits)

lemma map_rows_length: "map_rows f xs = Inr ys \<Longrightarrow> length ys = length xs"
  by (induction xs arbitrary: ys) (auto split: sum.splits)

lemma shape_rows_mem:
  "shape_rows rs = Inr ps \<Longrightarrow> r \<in> set rs \<Longrightarrow> \<exists>p. pop_score r = Inr p \<and> p \<in> set ps"
  by (induction rs arbitrary: ps) (auto split: sum.splits)

lemma without_row_now: "now (without_row r name st) = now st"
  by (simp add: without_row_def)

lemma map_of_without_aux:
  "map_of (map (\<lambda>(n, rows). (n, if n = name then removeAll r rows else rows)) rels) name =
   map_option (removeAll r) (map_of rels name)"
  by (induction rels) auto

lemma without_row_relation:
  "map_of (relations st) name = Some rel \<Longrightarrow>
   map_of (relations (without_row r name st)) name = Some (removeAll r rel)"
  by (simp add: without_row_def map_of_without_aux)

lemma truthy_col_Some: "truthy_col x = Some c \<Longrightarrow> x = Some c \<and> c \<noteq> []"
  by (cases x rule: truthy_col.cases) auto

lemma time_part_none: "truthy_col (time_column fs) = None \<Longrightarrow> time_part al fs h = ([], [])"
  by (simp add: time_part_def)

lemma time_part_some:
  "truthy_col (time_column fs) = Some tcol \<Longrightarrow>
   time_part al fs h =
     ([(al @ ''.'' @ tcol) @ '' >= NOW() - INTERVAL '' @ [CHR 0x27] @ ''%s hours'' @ [CHR 0x27]],
      [PInt (case h of Some x \<Rightarrow> x
             | None \<Rightarrow> (case default_hours fs of Some d \<Rightarrow> d | None \<Rightarrow> 168))])"
  by (simp add: time_part_def Let_def)

lemma conf_part_none: "truthy_col (confidence_column fs) = None \<Longrightarrow> conf_part al fs m = ([], [])"
  by (simp add: conf_part_def)

lemma conf_part_some:
  "truthy_col (confidence_column fs) = Some ccol \<Longrightarrow>
   conf_part al fs m =
     ([(al @ ''.'' @ ccol) @ '' >= %s''],
      [PFloat (case m of Some x \<Rightarrow> x
               | None \<Rightarrow> (case default_min_confidence fs of Some d \<Rightarrow> d | None \<Rightarrow> 0))])"
  by (simp add: conf_part_def Let_def split: option.split)

lemma parse_conds_build_explicit:
  assumes pl: "plain_name al" "plain_name ec" "plain_name (opt_str (time_column fs))"
      "plain_name (opt_str (confidence_column fs))"
  shows "parse_conds (split_str '' AND ''
             (py_join '' AND '' (where_conditions (build tbl ec al dc jns fs q k h m)))) =
         Some (entry_conds al ec fs)"
proof -
  let ?c1 = "(al @ ''.'' @ ec) @ '' IS NOT NULL''"
  note c1 = and_free_cond(1) [OF pl(1,2)]
  show ?thesis
  proof (cases "truthy_col (time_column fs)")
    case None
    note tn = None
    note tp = time_part_none [OF None, of al h]
    show ?thesis
    proof (cases "truthy_col (confidence_column fs)")
      case None
      note cp = conf_part_none [OF None, of al m]
      have w: "where_conditions (build tbl ec al dc jns fs q k h m) = [?c1]"
        unfolding where_conditions_build tp cp by simp
      have "split_str '' AND '' (py_join '' AND '' [?c1]) = [?c1]"
        using c1 by (intro split_str_py_join) simp_all
      then show ?thesis
        unfolding w entry_conds_def tn None
        by (simp only: parse_conds.simps parse_cond_not_null option.case) simp
    next
      case (Some ccol)
      note cp = conf_part_some [OF Some, of al m]
      let ?c3 = "(al @ ''.'' @ ccol) @ '' >= %s''"
      from truthy_col_Some [OF Some] pl(4) have "plain_name ccol" by (simp add: opt_str_def)
      note c3 = and_free_cond(3) [OF pl(1) this]
      have w: "where_conditions (build tbl ec al dc jns fs q k h m) = [?c1, ?c3]"
        unfolding where_conditions_build tp cp by simp
      have "split_str '' AND '' (py_join '' AND '' [?c1, ?c3]) = [?c1, ?c3]"
        using c1 c3 by (intro split_str_py_join) simp_all
      then show ?thesis
        unfolding w entry_conds_def tn Some
        by (simp only: parse_conds.simps parse_cond_not_null parse_cond_at_least option.case) simp
    qed
  next
    case (Some tcol)
    note tn = Some
    note tp = time_part_some [OF Some, of al h]
    let ?c2 = "(al @ ''.'' @ tcol) @ '' >= NOW() - INTERVAL '' @ [CHR 0x27] @ ''%s hours'' @ [CHR 0x27]"
    from truthy_col_Some [OF Some] pl(3) have "plain_name tcol" by (simp add: opt_str_def)
    note c2 = and_free_cond(2) [OF pl(1) this]
    show ?thesis
    proof (cases "truthy_col (confidence_column fs)")
      case None
      note cp = conf_part_none [OF None, of al m]
      have w: "where_conditions (build tbl ec al dc jns fs q k h m) = [?c1, ?c2]"
        unfolding where_conditions_build tp cp by simp
      have "split_str '' AND '' (py_join '' AND '' [?c1, ?c2]) = [?c1, ?c2]"
        using c1 c2 by (intro split_str_py_join) simp_all
      then show ?thesis
        unfolding w entry_conds_def tn None
        by (simp only: parse_conds.simps parse_cond_not_null parse_cond_since option.case) simp
    next
      case (Some ccol)
      note cp = conf_part_some [OF Some, of al m]
      let ?c3 = "(al @ ''.'' @ ccol) @ '' >= %s''"
      from truthy_col_Some [OF Some] pl(4) have "plain_name ccol" by (simp add: opt_str_def)
      note c3 = and_free_cond(3) [OF pl(1) this]
      have w: "where_conditions (build tbl ec al dc jns fs q k h m) = [?c1, ?c2, ?c3]"
        unfolding where_conditions_build tp cp by simp
      have "split_str '' AND '' (py_join '' AND '' [?c1, ?c2, ?c3]) = [?c1, ?c2, ?c3]"
        using c1 c2 c3 by (intro split_str_py_join) simp_all
      then show ?thesis
        unfolding w entry_conds_def tn Some
        by (simp only: parse_conds.simps parse_cond_not_null parse_cond_since
              parse_cond_at_least option.case) simp
    qed
  qed
qed

lemma entry_conds_params:
  "length (filter needs_param (entry_conds al ec fs)) =
   length (snd (time_part al fs h) @ snd (conf_part al fs m))"
  by (cases "truthy_col (time_column fs)"; cases "truthy_col (confidence_column fs)")
     (simp_all add: entry_conds_def time_part_none time_part_some conf_part_none conf_part_some)

lemma compiled_on_store:
  assumes rd: "readable tc" and cq: "compile_query tc q k h m = Inr cq"
      and tbl: "table tc = Some tbl" and ec: "embedding_column tc = Some ec"
      and cc: "content_column tc = Some cc"
      and al: "al = (case table_alias tc of Some a \<Rightarrow> a | None \<Rightarrow> [hd tbl])"
      and dc: "dc = (case display_columns tc of Some d \<Rightarrow> d
                     | None \<Rightarrow> [al @ ''.id'', al @ ''.'' @ cc])"
      and fs: "fs = (case filters tc of Some f \<Rightarrow> f
           | None \<Rightarrow> \<lparr> time_column = None, default_hours = None,
                       confidence_column = None, default_min_confidence = None \<rparr>)"
  obtains s where
    "parse_statement (query cq) = Some s"
    "st_from s = from_clause cq"
    "parse_conds (st_where s) = Some (entry_conds al ec fs)"
    "params cq = PVec q # (snd (time_part al fs h) @ snd (conf_part al fs m)) @ [PVec q, PInt k]"
    "st_select s = split_str '', '' (py_join '', '' dc)"
    "st_score_col s = al @ ''.'' @ ec" "st_order_col s = al @ ''.'' @ ec"
proof -
  from cq obtain tbl' ec' al' dc' jns fs' cc' where b: "cq = build tbl' ec' al' dc' jns fs' q k h m"
    and tc: "table tc = Some tbl'" "tbl' \<noteq> []" "embedding_column tc = Some ec'"
      "content_column tc = Some cc'"
      "al' = (case table_alias tc of Some a \<Rightarrow> a | None \<Rightarrow> [hd tbl'])"
      "dc' = (case display_columns tc of Some d \<Rightarrow> d | None \<Rightarrow> [al' @ ''.id'', al' @ ''.'' @ cc'])"
      "jns = (case joins tc of Some j \<Rightarrow> j | None \<Rightarrow> [])"
      "fs' = (case filters tc of Some f \<Rightarrow> f
           | None \<Rightarrow> \<lparr> time_column = None, default_hours = None,
                       confidence_column = None, default_min_confidence = None \<rparr>)"
    by (rule compile_query_Inr)
  from tc(1,3,4) tbl ec cc have eq0: "tbl' = tbl" "ec' = ec" "cc' = cc" by simp_all
  from tc(5,8) al fs have eq1: "al' = al" "fs' = fs" unfolding eq0 by simp_all
  from tc(6) dc have eq2: "dc' = dc" unfolding eq0 eq1 by simp
  note eq = eq0 eq1 eq2
  note b = b [unfolded eq] and tc = tc [unfolded eq]
  from rd tc have p_tbl: "plain_name tbl" and p_ec: "plain_name ec" and s_cc: "single_line cc"
    by (simp_all add: readable_def opt_str_def)
  have p_al: "plain_name al"
  proof (cases "table_alias tc")
    case None
    with tc(5) p_tbl tc(2) show ?thesis by (simp add: plain_name_hd)
  next
    case (Some a)
    with rd tc(5) show ?thesis by (simp add: readable_def opt_str_def)
  qed
  have s_dc: "list_all single_line dc"
  proof (cases "display_columns tc")
    case None
    with tc(6) s_cc plain_single [OF p_al] show ?thesis by simp
  next
    case (Some d)
    with rd tc(6) show ?thesis by (simp add: readable_def)
  qed
  have s_jns: "list_all single_line jns"
    using rd tc(7) by (cases "joins tc") (simp_all add: readable_def)
  have p_fs: "plain_name (opt_str (time_column fs))" "plain_name (opt_str (confidence_column fs))"
    using rd tc(8) by (cases "filters tc"; simp add: readable_def opt_str_def plain_name_def)+
  note ps = parse_statement_build [OF plain_single [OF p_tbl] p_al p_ec s_dc s_jns p_fs,
      of q k h m]
  note pc = parse_conds_build_explicit [OF p_al p_ec p_fs, of tbl dc jns q k h m]
  let ?s = "\<lparr> st_select = split_str '', '' (py_join '', '' dc),
                st_score_col = al @ ''.'' @ ec,
                st_from = from_clause (build tbl ec al dc jns fs q k h m),
                st_where = split_str '' AND ''
                    (py_join '' AND '' (where_conditions (build tbl ec al dc jns fs q k h m))),
                st_order_col = al @ ''.'' @ ec \<rparr>"
  have 1: "parse_statement (query cq) = Some ?s" unfolding b by (rule ps)
  have 3: "st_from ?s = from_clause cq" unfolding b by simp
  have 4: "parse_conds (st_where ?s) = Some (entry_conds al ec fs)" using pc by simp
  have 5: "params cq = PVec q # (snd (time_part al fs h) @ snd (conf_part al fs m)) @ [PVec q, PInt k]"
    unfolding b by (simp add: build_params)
  have 6: "st_select ?s = split_str '', '' (py_join '', '' dc)"
      "st_score_col ?s = al @ ''.'' @ ec" "st_order_col ?s = al @ ''.'' @ ec"
    by simp_all
  from 1 3 4 5 6 show thesis by (rule that)
qed

lemma pg_row_passes_view:
  assumes "parse_statement sql = Some s" "parse_conds (st_where s) = Some conds"
      "ps = PVec q # mid @ [PVec q, PInt k]" "length (filter needs_param conds) = length mid"
  shows "pg_row_passes st sql ps r = row_passes (now st) r conds mid"
  using params_ends(4,5) [OF assms(3)] assms(1,2,4)
  by (simp add: pg_row_passes_def assms(3))

lemma search_result_of_view:
  assumes "parse_statement sql = Some s" "ps = PVec q # mid @ [PVec q, PInt k]"
  shows "search_result_of sql ps r =
     (case score_row s q q r of Inl e \<Rightarrow> Inl e | Inr scored \<Rightarrow> pop_score (snd scored))"
  using params_ends(1,2) [OF assms(2)] assms(1)
  by (simp add: search_result_of_def)

lemma pg_execute_view:
  assumes "parse_statement sql = Some s" "parse_conds (st_where s) = Some conds"
      "ps = PVec q # mid @ [PVec q, PInt k]" "length (filter needs_param conds) = length mid"
      "map_of (relations st) (st_from s) = Some rel"
  shows "pg_execute st sql ps =
     (if k < 0 then Inl (BackendError ''LIMIT must not be negative'')
      else
        (case select_rows (now st) conds mid rel of
           Inl e \<Rightarrow> Inl e
         | Inr kept \<Rightarrow>
             (case map_rows (score_row s q q) kept of
                Inl e \<Rightarrow> Inl e
              | Inr scored \<Rightarrow> Inr (map snd (take (nat k) (sort_key fst scored))))))"
  unfolding pg_execute_def assms(3)
  by (simp only: assms(1,2,5) option.case pg_run_compiled [OF assms(4)])

lemma search_nothing_passes:
  assumes tc: "map_of (get_available_tables cfg) table_name = Some tc"
      and rd: "readable tc"
      and cq: "compile_query tc q k h m = Inr cq"
      and rel: "map_of (relations st) (from_clause cq) = Some rel"
      and k0: "0 \<le> k"
      and none: "list_all (\<lambda>r. pg_row_passes st (query cq) (params cq) r = Inr False) rel"
  shows "fst (search cfg (pg_execute st) c table_name q k h m) = Inr []"
proof -
  from compile_query_store_view [OF rd cq] obtain s conds mid where
      ps: "parse_statement (query cq) = Some s" and frm: "st_from s = from_clause cq"
      and pc: "parse_conds (st_where s) = Some conds"
      and pr: "params cq = PVec q # mid @ [PVec q, PInt k]"
      and n: "length (filter needs_param conds) = length mid"
    by blast
  have "list_all (\<lambda>r. row_passes (now st) r conds mid = Inr False) rel"
    using none unfolding pg_row_passes_view [OF ps pc pr n] .
  then have sel: "select_rows (now st) conds mid rel = Inr []"
    by (rule select_rows_none)
  from rel frm have rel': "map_of (relations st) (st_from s) = Some rel" by simp
  have "pg_execute st (query cq) (params cq) = Inr []"
    using k0 by (simp add: pg_execute_view [OF ps pc pr n rel'] sel)
  then show ?thesis
    by (simp add: search_configured [OF tc cq])
qed

lemma search_without_row:
  assumes tc: "map_of (get_available_tables cfg) table_name = Some tc"
      and rd: "readable tc"
      and cq: "compile_query tc q k h m = Inr cq"
      and rel: "map_of (relations st) (from_clause cq) = Some rel"
      and res: "search cfg (pg_execute st) c table_name q k h m = (Inr res, c')"
      and nv: "pg_row_passes st (query cq) (params cq) r \<noteq> Inr True"
  shows "fst (search cfg (pg_execute (without_row r (from_clause cq) st)) c table_name q k h m) =
           Inr res"
proof -
  let ?st' = "without_row r (from_clause cq) st"
  from compile_query_store_view [OF rd cq] obtain s conds mid where
      ps: "parse_statement (query cq) = Some s" and frm: "st_from s = from_clause cq"
      and pc: "parse_conds (st_where s) = Some conds"
      and pr: "params cq = PVec q # mid @ [PVec q, PInt k]"
      and n: "length (filter needs_param conds) = length mid"
    by blast
  from rel frm have rel1: "map_of (relations st) (st_from s) = Some rel" by simp
  from without_row_relation [OF rel, of r] frm
  have rel2: "map_of (relations ?st') (st_from s) = Some (removeAll r rel)" by simp
  note e1 = pg_execute_view [OF ps pc pr n rel1]
  note e2 = pg_execute_view [OF ps pc pr n rel2, unfolded without_row_now]
  from res have ex: "(case pg_execute st (query cq) (params cq) of Inl e \<Rightarrow> Inl e
      | Inr rows \<Rightarrow> shape_rows rows) = Inr res"
    by (simp add: search_configured [OF tc cq])
  then obtain rows where rows: "pg_execute st (query cq) (params cq) = Inr rows"
    by (cases "pg_execute st (query cq) (params cq)") simp_all
  from rows [unfolded e1] obtain kept where k0: "\<not> k < 0"
      and sel: "select_rows (now st) conds mid rel = Inr kept"
    by (auto split: if_splits sum.splits)
  have "row_passes (now st) r conds mid \<noteq> Inr True"
    using nv unfolding pg_row_passes_view [OF ps pc pr n] .
  from select_rows_removeAll [OF sel this]
  have sel': "select_rows (now st) conds mid (removeAll r rel) = Inr kept" .
  have "pg_execute ?st' (query cq) (params cq) = pg_execute st (query cq) (params cq)"
    unfolding e1 e2 sel sel' ..
  with ex show ?thesis
    by (simp add: search_configured [OF tc cq])
qed

lemma search_includes_row:
  assumes tc: "map_of (get_available_tables cfg) table_name = Some tc"
      and rd: "readable tc"
      and cq: "compile_query tc q k h m = Inr cq"
      and rel: "map_of (relations st) (from_clause cq) = Some rel"
      and res: "search cfg (pg_execute st) c table_name q k h m = (Inr res, c')"
      and r: "r \<in> set rel"
      and v: "pg_row_passes st (query cq) (params cq) r = Inr True"
      and len: "length rel \<le> nat k"
  shows "\<exists>p. search_result_of (query cq) (params cq) r = Inr p \<and> p \<in> set res"
proof -
  from compile_query_store_view [OF rd cq] obtain s conds mid where
      ps: "parse_statement (query cq) = Some s" and frm: "st_from s = from_clause cq"
      and pc: "parse_conds (st_where s) = Some conds"
      and pr: "params cq = PVec q # mid @ [PVec q, PInt k]"
      and n: "length (filter needs_param conds) = length mid"
    by blast
  from rel frm have rel1: "map_of (relations st) (st_from s) = Some rel" by simp
  note e1 = pg_execute_view [OF ps pc pr n rel1]
  from res have ex: "(case pg_execute st (query cq) (params cq) of Inl e \<Rightarrow> Inl e
      | Inr rows \<Rightarrow> shape_rows rows) = Inr res"
    by (simp add: search_configured [OF tc cq])
  then obtain rows where rows: "pg_execute st (query cq) (params cq) = Inr rows"
      and sh: "shape_rows rows = Inr res"
    by (cases "pg_execute st (query cq) (params cq)") simp_all
  from rows [unfolded e1] obtain kept scored where
      sel: "select_rows (now st) conds mid rel = Inr kept"
      and sc: "map_rows (score_row s q q) kept = Inr scored"
      and rw: "rows = map snd (take (nat k) (sort_key fst scored))"
    by (auto split: if_splits sum.splits)
  have "row_passes (now st) r conds mid = Inr True"
    using v unfolding pg_row_passes_view [OF ps pc pr n] .
  from select_rows_kept [OF sel r this] have rk: "r \<in> set kept" .
  from map_rows_mem [OF sc rk] obtain y where y: "score_row s q q r = Inr y" "y \<in> set scored"
    by blast
  from select_rows_length [OF sel] map_rows_length [OF sc] len
  have "length (sort_key fst scored) \<le> nat k" by simp
  then have "rows = map snd (sort_key fst scored)" unfolding rw by simp
  with y(2) have "snd y \<in> set rows" by simp
  from shape_rows_mem [OF sh this] obtain p where p: "pop_score (snd y) = Inr p" "p \<in> set res"
    by blast
  have "search_result_of (query cq) (params cq) r = Inr p"
    by (simp add: search_result_of_view [OF ps pr] y(1) p(1))
  with p(2) show ?thesis by blast
qed

lemma verdict_iff:
  assumes rd: "readable tc" and cq: "compile_query tc q k h m = Inr cq"
      and tbl: "table tc = Some tbl" and ec: "embedding_column tc = Some ec"
      and al: "al = (case table_alias tc of Some a \<Rightarrow> a | None \<Rightarrow> [hd tbl])"
      and fs: "fs = (case filters tc of Some f \<Rightarrow> f
           | None \<Rightarrow> \<lparr> time_column = None, default_hours = None,
                       confidence_column = None, default_min_confidence = None \<rparr>)"
  shows "(pg_row_passes st (query cq) (params cq) r = Inr True) =
         ((\<exists>v. map_of r (al @ ''.'' @ ec) = Some v \<and> v \<noteq> VNull) \<and>
          time_filter_ok (now st) al fs h r \<and> conf_filter_ok al fs m r)"
proof -
  from compile_query_wf [OF cq] obtain cc where cc: "content_column tc = Some cc" by blast
  from compiled_on_store [OF rd cq tbl ec cc al refl fs] obtain s where
      ps: "parse_statement (query cq) = Some s"
      and pc: "parse_conds (st_where s) = Some (entry_conds al ec fs)"
      and pr: "params cq = PVec q # (snd (time_part al fs h) @ snd (conf_part al fs m)) @ [PVec q, PInt k]"
    by blast
  note v = pg_row_passes_view [OF ps pc pr entry_conds_params]
  show ?thesis
    unfolding v
    by (cases "truthy_col (time_column fs)"; cases "truthy_col (confidence_column fs)")
       (auto simp: entry_conds_def time_part_none time_part_some conf_part_none conf_part_some
          time_filter_ok_def conf_filter_ok_def
          split: option.splits val.splits sum.splits pyfloat.splits)
qed

section \<open>The configured table \<^verbatim>\<open>facts\<close> on the store\<close>

lemma facts_configured:
  "map_of (get_available_tables example_config) ''facts'' = Some facts_config"
  by (simp add: get_available_tables_def example_config_def)

lemma facts_readable: "readable facts_config"
  by (simp add: readable_def facts_config_def facts_filters_def opt_str_def plain_name_def
        single_line_def)

lemma facts_compile:
  "compile_query facts_config q k h m =
     Inr (facts_compiled q k h m)"
  by (simp add: compile_query_def facts_config_def facts_compiled_def)

lemma facts_params:
  "params (facts_compiled q k h m) =
   [PVec q, PFloat (case m of Some x \<Rightarrow> x | None \<Rightarrow> 0.6), PVec q, PInt k]"
  by (simp add: facts_compiled_def build_params time_part_def conf_part_def facts_filters_def
        split: option.split)

lemma facts_parse:
  "parse_statement (query
     (facts_compiled q k h m)) = Some facts_statement"
proof -
  let ?fs = "facts_filters"
  have 1: "split_str '', '' (py_join '', '' [''f.id'', ''f.fact'', ''f.confidence'']) =
      [''f.id'', ''f.fact'', ''f.confidence'']"
    by simp
  have 2: "from_clause (build ''person_facts'' ''embedding'' ''f''
      [''f.id'', ''f.fact'', ''f.confidence''] [] ?fs q k h m) = ''person_facts f''"
    by (simp add: build_def Let_def)
  have w: "where_conditions (build ''person_facts'' ''embedding'' ''f''
      [''f.id'', ''f.fact'', ''f.confidence''] [] ?fs q k h m) =
      [''f.embedding IS NOT NULL'', ''f.confidence >= %s'']"
    by (simp add: where_conditions_build time_part_def conf_part_def facts_filters_def)
  have 3: "split_str '' AND '' (py_join '' AND '' [''f.embedding IS NOT NULL'', ''f.confidence >= %s'']) =
      [''f.embedding IS NOT NULL'', ''f.confidence >= %s'']"
    by simp
  have "parse_statement (query (build ''person_facts'' ''embedding'' ''f''
      [''f.id'', ''f.fact'', ''f.confidence''] [] ?fs q k h m)) =
      Some \<lparr> st_select = split_str '', '' (py_join '', '' [''f.id'', ''f.fact'', ''f.confidence'']),
                st_score_col = ''f'' @ ''.'' @ ''embedding'',
                st_from = from_clause (build ''person_facts'' ''embedding'' ''f''
                   [''f.id'', ''f.fact'', ''f.confidence''] [] ?fs q k h m),
                st_where = split_str '' AND ''
                    (py_join '' AND '' (where_conditions (build ''person_facts'' ''embedding'' ''f''
                   [''f.id'', ''f.fact'', ''f.confidence''] [] ?fs q k h m))),
                st_order_col = ''f'' @ ''.'' @ ''embedding'' \<rparr>"
    by (rule parse_statement_build)
       (simp_all add: plain_name_def single_line_def opt_str_def facts_filters_def)
  then show ?thesis
    unfolding 1 2 w 3 by (simp add: facts_statement_def facts_compiled_def)
qed

lemma facts_parse_conds: "parse_conds (st_where facts_statement) = Some facts_conds"
  by (simp add: facts_statement_def facts_conds_def parse_cond_def strip_suffix_def suffix_to_prefix)


lemma facts_execute:
  "pg_execute st (query (facts_compiled q k h m)) ps =
     (case map_of (relations st) ''person_facts f'' of
        None \<Rightarrow> Inl (BackendError ''relation does not exist'')
      | Some rel \<Rightarrow> pg_run st facts_statement facts_conds rel ps)"
proof -
  have f: "st_from facts_statement = ''person_facts f''" by (simp add: facts_statement_def)
  show ?thesis
    by (simp add: pg_execute_def facts_parse facts_parse_conds f split: option.split)
qed

lemma facts_search:
  "search example_config (pg_execute st) c ''facts'' q k h m =
     ((case map_of (relations st) ''person_facts f'' of
         None \<Rightarrow> Inl (BackendError ''relation does not exist'')
       | Some rel \<Rightarrow>
           (case pg_run st facts_statement facts_conds rel
                   [PVec q, PFloat (case m of Some x \<Rightarrow> x | None \<Rightarrow> 0.6), PVec q, PInt k] of
              Inl e \<Rightarrow> Inl e
            | Inr rows \<Rightarrow> shape_rows rows)),
      c\<lparr>executed := executed c @
         [(query (facts_compiled q k h m),
           [PVec q, PFloat (case m of Some x \<Rightarrow> x | None \<Rightarrow> 0.6), PVec q, PInt k])]\<rparr>)"
  by (subst search_configured [OF facts_configured facts_compile],
      simp only: facts_params facts_execute)
     (simp split: option.split)

lemmas store_eval = pg_run_def score_row_def project_col_def split_as_def after_last_def
  pg_distance_def cosine_distance_def vec_norm_def dict_of_def pop_score_def
  facts_statement_def facts_conds_def fact_tea_def fact_dog_def fact_cat_def

lemma facts_row_passes:
  "pg_row_passes st (query (facts_compiled q k h m)) (params (facts_compiled q k h m)) r =
   row_passes (now st) r facts_conds [PFloat (case m of Some x \<Rightarrow> x | None \<Rightarrow> 0.6)]"
  by (simp add: pg_row_passes_def facts_parse facts_parse_conds facts_params)
     (simp add: facts_conds_def)

lemma facts_from: "from_clause (facts_compiled q k h m) = ''person_facts f''"
  by (simp add: facts_compiled_def build_def Let_def)

lemma facts_search_strict:
  "list_all (\<lambda>r. pg_row_passes facts_store (query (facts_compiled [1, 0] 10 None (Some 0.95)))
       (params (facts_compiled [1, 0] 10 None (Some 0.95))) r = Inr False) [fact_dog, fact_tea]"
  unfolding facts_row_passes
  by (simp add: facts_conds_def fact_dog_def fact_tea_def)

lemma facts_search_default:
  "search example_config (pg_execute facts_store) conn0 ''facts'' [1, 0] 10 None None =
     (Inr [([(''id'', VInt 2), (''fact'', VStr ''owns a dog''), (''confidence'', VFloat (Float 0.9))],
            Float 0)],
      conn0\<lparr>executed := [(query (facts_compiled [1, 0] 10 None None),
         [PVec [1, 0], PFloat 0.6, PVec [1, 0], PInt 10])]\<rparr>)"
  unfolding facts_search
  by (simp add: facts_store_def facts_filters_def store_eval conn0_def)

lemma facts_entry:
  "table facts_config = Some ''person_facts''" "embedding_column facts_config = Some ''embedding''"
  "''f'' = (case table_alias facts_config of Some a \<Rightarrow> a | None \<Rightarrow> [hd ''person_facts''])"
  "filters facts_config = Some facts_filters"
  "confidence_column facts_filters = Some ''confidence''"
  "default_min_confidence facts_filters = Some 0.6"
  by (simp_all add: facts_config_def facts_filters_def)

lemma facts_relation:
  "map_of (relations facts_store) (from_clause (facts_compiled q k h m)) = Some [fact_dog, fact_tea]"
  by (simp add: facts_from facts_store_def)

lemma fact_tea_cells:
  "map_of fact_tea (''f'' @ ''.'' @ ''confidence'') = Some (VFloat (Float 0.4))"
  "map_of fact_tea (''f'' @ ''.'' @ ''embedding'') = Some (VVec [1, 0])"
  "time_filter_ok (now facts_store) ''f'' facts_filters h fact_tea"
  by (simp_all add: fact_tea_def time_filter_ok_def facts_filters_def)

section \<open>Request-time values travel as parameters\<close>

lemma time_part_explicit:
  "truthy_col (time_column fs) = Some tcol \<Longrightarrow> snd (time_part al fs (Some x)) = [PInt x]"
  by (simp add: time_part_def)

lemma conf_part_explicit:
  "truthy_col (confidence_column fs) = Some ccol \<Longrightarrow> snd (conf_part al fs (Some y)) = [PFloat y]"
  by (simp add: conf_part_def)

lemma compile_query_carries_values:
  assumes cq: "compile_query tc q k h m = Inr cq"
  shows "hd (params cq) = PVec q \<and> last (params cq) = PInt k \<and>
         (\<forall>fs tcol x. filters tc = Some fs \<and> truthy_col (time_column fs) = Some tcol \<and> h = Some x \<longrightarrow>
            PInt x \<in> set (params cq)) \<and>
         (\<forall>fs ccol y. filters tc = Some fs \<and> truthy_col (confidence_column fs) = Some ccol \<and>
            m = Some y \<longrightarrow> PFloat y \<in> set (params cq))"
proof -
  from cq obtain tbl ec al dc jns fs' where b: "cq = build tbl ec al dc jns fs' q k h m"
    and fs': "fs' = (case filters tc of Some f \<Rightarrow> f
           | None \<Rightarrow> \<lparr> time_column = None, default_hours = None,
                       confidence_column = None, default_min_confidence = None \<rparr>)"
    by (rule compile_query_Inr)
  have p: "params cq = PVec q # snd (time_part al fs' h) @ snd (conf_part al fs' m) @ [PVec q, PInt k]"
    unfolding b by (rule build_params)
  have 1: "PInt x \<in> set (params cq)"
    if "filters tc = Some fs \<and> truthy_col (time_column fs) = Some tcol \<and> h = Some x" for fs tcol x
    using that fs' time_part_explicit [of fs tcol al x] unfolding p by simp
  have 2: "PFloat y \<in> set (params cq)"
    if "filters tc = Some fs \<and> truthy_col (confidence_column fs) = Some ccol \<and> m = Some y"
    for fs ccol y
    using that fs' conf_part_explicit [of fs ccol al y] unfolding p by simp
  from compile_query_params [OF cq] obtain mid where
    "params cq = PVec q # mid @ [PVec q, PInt k]" by blast
  from params_ends(1,3) [OF this] have e: "hd (params cq) = PVec q" "last (params cq) = PInt k" .
  show ?thesis
  proof (intro conjI allI impI)
    show "hd (params cq) = PVec q" by (rule e(1))
  next
    show "last (params cq) = PInt k" by (rule e(2))
  next
    fix fs tcol x
    assume "filters tc = Some fs \<and> truthy_col (time_column fs) = Some tcol \<and> h = Some x"
    then show "PInt x \<in> set (params cq)" by (rule 1)
  next
    fix fs ccol y
    assume "filters tc = Some fs \<and> truthy_col (confidence_column fs) = Some ccol \<and> m = Some y"
    then show "PFloat y \<in> set (params cq)" by (rule 2)
  qed
qed

text \<open>
  C1. For one configuration and one table name, two calls of \<open>search\<close> with any query
  vectors, limits, hours and confidence thresholds (and any store behind the connection)
  hand statements with the same text to the store; and when the entry compiles, the
  statement is executed with a parameter list that starts with the query vector, ends
  with the limit, and holds the caller's hours and confidence threshold where the
  entry declares the filter: the request-time values travel in the parameter list only.
\<close>

theorem search_statement_text_independent:
  "map fst (executed (snd (search cfg exec1 c table_name q1 l1 h1 m1))) =
   map fst (executed (snd (search cfg exec2 c table_name q2 l2 h2 m2))) \<and>
   (map_of (get_available_tables cfg) table_name = Some tc \<and>
    compile_query tc q1 l1 h1 m1 = Inr cq \<longrightarrow>
      executed (snd (search cfg exec1 c table_name q1 l1 h1 m1)) =
        executed c @ [(query cq, params cq)] \<and>
      hd (params cq) = PVec q1 \<and> last (params cq) = PInt l1 \<and>
      (\<forall>fs tcol x. filters tc = Some fs \<and> truthy_col (time_column fs) = Some tcol \<and>
         h1 = Some x \<longrightarrow> PInt x \<in> set (params cq)) \<and>
      (\<forall>fs ccol y. filters tc = Some fs \<and> truthy_col (confidence_column fs) = Some ccol \<and>
         m1 = Some y \<longrightarrow> PFloat y \<in> set (params cq)))"
proof (rule conjI)
  show "map fst (executed (snd (search cfg exec1 c table_name q1 l1 h1 m1))) =
   map fst (executed (snd (search cfg exec2 c table_name q2 l2 h2 m2)))"
  proof (cases "map_of (get_available_tables cfg) table_name")
    case None
    then show ?thesis by (simp add: search_def)
  next
    case (Some tc)
    from compile_query_text [of tc q1 l1 h1 m1 q2 l2 h2 m2] Some show ?thesis
      by (auto simp: search_def Let_def split: sum.split)
  qed
next
  show "map_of (get_available_tables cfg) table_name = Some tc \<and>
    compile_query tc q1 l1 h1 m1 = Inr cq \<longrightarrow>
      executed (snd (search cfg exec1 c table_name q1 l1 h1 m1)) =
        executed c @ [(query cq, params cq)] \<and>
      hd (params cq) = PVec q1 \<and> last (params cq) = PInt l1 \<and>
      (\<forall>fs tcol x. filters tc = Some fs \<and> truthy_col (time_column fs) = Some tcol \<and>
         h1 = Some x \<longrightarrow> PInt x \<in> set (params cq)) \<and>
      (\<forall>fs ccol y. filters tc = Some fs \<and> truthy_col (confidence_column fs) = Some ccol \<and>
         m1 = Some y \<longrightarrow> PFloat y \<in> set (params cq))"
  proof (rule impI)
    assume a: "map_of (get_available_tables cfg) table_name = Some tc \<and>
      compile_query tc q1 l1 h1 m1 = Inr cq"
    then have tc: "map_of (get_available_tables cfg) table_name = Some tc"
      and cq: "compile_query tc q1 l1 h1 m1 = Inr cq" by simp_all
    from search_configured [OF tc cq, of exec1 c]
    have "executed (snd (search cfg exec1 c table_name q1 l1 h1 m1)) =
          executed c @ [(query cq, params cq)]" by simp
    from this compile_query_carries_values [OF cq]
    show "executed (snd (search cfg exec1 c table_name q1 l1 h1 m1)) =
          executed c @ [(query cq, params cq)] \<and>
        hd (params cq) = PVec q1 \<and> last (params cq) = PInt l1 \<and>
        (\<forall>fs tcol x. filters tc = Some fs \<and> truthy_col (time_column fs) = Some tcol \<and>
           h1 = Some x \<longrightarrow> PInt x \<in> set (params cq)) \<and>
        (\<forall>fs ccol y. filters tc = Some fs \<and> truthy_col (confidence_column fs) = Some ccol \<and>
           m1 = Some y \<longrightarrow> PFloat y \<in> set (params cq))"
      by (rule conjI)
  qed
qed

theorem search_statement_text_independent_witness:
  "map_of (get_available_tables example_config) ''facts'' = Some facts_config \<and>
   compile_query facts_config [1, 0] 10 None (Some 0.3) =
     Inr (facts_compiled [1, 0] 10 None (Some 0.3)) \<and>
   filters facts_config = Some facts_filters \<and>
   truthy_col (confidence_column facts_filters) = Some ''confidence'' \<and>
   map fst (executed (snd (search example_config (pg_execute facts_store) conn0 ''facts''
      [1, 0] 10 None (Some 0.3)))) =
   map fst (executed (snd (search example_config (pg_execute empty_store) conn0 ''facts''
      [0, 5] 3 (Some 24) None))) \<and>
   executed (snd (search example_config (pg_execute facts_store) conn0 ''facts''
      [1, 0] 10 None (Some 0.3))) =
     executed conn0 @ [(query (facts_compiled [1, 0] 10 None (Some 0.3)),
                        params (facts_compiled [1, 0] 10 None (Some 0.3)))] \<and>
   hd (params (facts_compiled [1, 0] 10 None (Some 0.3))) = PVec [1, 0] \<and>
   last (params (facts_compiled [1, 0] 10 None (Some 0.3))) = PInt 10 \<and>
   PFloat 0.3 \<in> set (params (facts_compiled [1, 0] 10 None (Some 0.3)))"
proof -
  have f: "filters facts_config = Some facts_filters"
    by (simp add: facts_config_def)
  have g: "truthy_col (confidence_column facts_filters) = Some ''confidence''"
    by (simp add: facts_filters_def)
  note t = search_statement_text_independent [where cfg = example_config
      and ?exec1.0 = "pg_execute facts_store" and c = conn0 and table_name = "''facts''"
      and ?q1.0 = "[1, 0]" and ?l1.0 = 10 and ?h1.0 = None and ?m1.0 = "Some 0.3"
      and ?exec2.0 = "pg_execute empty_store" and ?q2.0 = "[0, 5]" and ?l2.0 = 3
      and ?h2.0 = "Some 24" and ?m2.0 = None and tc = facts_config
      and cq = "facts_compiled [1, 0] 10 None (Some 0.3)"]
  note t1 = t [THEN conjunct1]
  from t [THEN conjunct2] facts_configured facts_compile [of "[1, 0]" 10 None "Some 0.3"]
  have t2: "executed (snd (search example_config (pg_execute facts_store) conn0 ''facts''
      [1, 0] 10 None (Some 0.3))) =
     executed conn0 @ [(query (facts_compiled [1, 0] 10 None (Some 0.3)),
                        params (facts_compiled [1, 0] 10 None (Some 0.3)))] \<and>
   hd (params (facts_compiled [1, 0] 10 None (Some 0.3))) = PVec [1, 0] \<and>
   last (params (facts_compiled [1, 0] 10 None (Some 0.3))) = PInt 10 \<and>
   (\<forall>fs tcol x. filters facts_config = Some fs \<and> truthy_col (time_column fs) = Some tcol \<and>
         (None :: int option) = Some x \<longrightarrow>
         PInt x \<in> set (params (facts_compiled [1, 0] 10 None (Some 0.3)))) \<and>
   (\<forall>fs ccol y. filters facts_config = Some fs \<and>
         truthy_col (confidence_column fs) = Some ccol \<and> Some 0.3 = Some y \<longrightarrow>
         PFloat y \<in> set (params (facts_compiled [1, 0] 10 None (Some 0.3))))"
    by (rule mp [OF _ conjI])
  from t2 f g have t3: "PFloat 0.3 \<in> set (params (facts_compiled [1, 0] 10 None (Some 0.3)))"
    by blast
  from facts_configured facts_compile [of "[1, 0]" 10 None "Some 0.3"] f g t1
    t2 [THEN conjunct1] t2 [THEN conjunct2, THEN conjunct1]
    t2 [THEN conjunct2, THEN conjunct2, THEN conjunct1] t3
  show ?thesis by (intro conjI)
qed

section \<open>Results against the store\<close>

lemma pg_execute_Inr:
  assumes "pg_execute st sql ps = Inr rows" "parse_statement sql = Some s"
      "parse_conds (st_where s) = Some conds"
  obtains rel where "map_of (relations st) (st_from s) = Some rel"
    "pg_run st s conds rel ps = Inr rows"
  using assms by (auto simp: pg_execute_def split: option.splits)

lemma search_pg_results:
  assumes tc: "map_of (get_available_tables cfg) table_name = Some tc"
      and rd: "readable tc"
      and res: "search cfg (pg_execute st) c table_name q k h m = (Inr res, c')"
  shows "sorted_wrt score_ge (map snd res) \<and> 0 \<le> k \<and> length res \<le> nat k \<and>
         list_all score_in_range (map snd res)"
proof -
  from tc res obtain cq rows where cq: "compile_query tc q k h m = Inr cq"
      and ex: "pg_execute st (query cq) (params cq) = Inr rows"
      and sh: "shape_rows rows = Inr res"
    by (rule search_Inr)
  from compile_query_store_view [OF rd cq] obtain s conds mid where
      ps: "parse_statement (query cq) = Some s" and same: "st_score_col s = st_order_col s"
      and pc: "parse_conds (st_where s) = Some conds"
      and pr: "params cq = PVec q # mid @ [PVec q, PInt k]"
    by blast
  from ex ps pc obtain rel where run: "pg_run st s conds rel (params cq) = Inr rows"
    by (rule pg_execute_Inr)
  note ends = params_ends [OF pr]
  from pg_run_same_scores [OF run same ends(1,2,3)] obtain L where
      rows: "rows = map snd L" and srt: "sorted (map fst L)" and len: "length L \<le> nat k"
      and k0: "0 \<le> k"
      and lk: "list_all (\<lambda>p. \<exists>r d. pg_distance r (st_order_col s) q = Inr d \<and>
                fst p = order_key d \<and>
                map_of (snd p) ''similarity_score'' = Some (one_minus d)) L"
    by blast
  from shape_rows_Inr [OF sh] rows
  have sh2: "list_all2 (\<lambda>r p. pop_score r = Inr p) (map snd L) res" by simp
  then have ll: "length res = length L" by (auto dest: list_all2_lengthD)
  have each: "\<exists>r d. pg_distance r (st_order_col s) q = Inr d \<and> fst (L ! i) = order_key d \<and>
      py_float (one_minus d) = Inr (snd (res ! i))" if "i < length L" for i
  proof -
    from lk that obtain r d where d: "pg_distance r (st_order_col s) q = Inr d"
        "fst (L ! i) = order_key d"
        "map_of (snd (L ! i)) ''similarity_score'' = Some (one_minus d)"
      unfolding list_all_length by blast
    from sh2 that have "pop_score (snd (L ! i)) = Inr (res ! i)"
      by (simp add: list_all2_conv_all_nth)
    from pop_score_Inr [OF this d(3)] d(1,2) show ?thesis by blast
  qed
  have "list_all2 (\<lambda>p s. \<exists>d. fst p = order_key d \<and> py_float (one_minus d) = Inr s) L (map snd res)"
    unfolding list_all2_conv_all_nth using each ll by auto
  from sorted_scores [OF this srt] have 1: "sorted_wrt score_ge (map snd res)" .
  have "score_in_range (snd (res ! i))" if "i < length res" for i
    using each [of i] that ll pg_distance_score_range by auto
  then have 2: "list_all score_in_range (map snd res)"
    unfolding list_all_length by simp
  from 1 2 k0 len ll show ?thesis by simp
qed

lemma search_negative_limit:
  assumes tc: "map_of (get_available_tables cfg) table_name = Some tc"
      and rd: "readable tc"
      and cq: "compile_query tc q k h m = Inr cq"
      and rel: "map_of (relations st) (from_clause cq) = Some rel"
      and k0: "k < 0"
  shows "fst (search cfg (pg_execute st) c table_name q k h m) =
           Inl (BackendError ''LIMIT must not be negative'')"
proof -
  from compile_query_store_view [OF rd cq] obtain s conds mid where
      ps: "parse_statement (query cq) = Some s" and frm: "st_from s = from_clause cq"
      and pc: "parse_conds (st_where s) = Some conds"
      and pr: "params cq = PVec q # mid @ [PVec q, PInt k]"
      and n: "length (filter needs_param conds) = length mid"
    by blast
  have "pg_run st s conds rel (params cq) = Inl (BackendError ''LIMIT must not be negative'')"
    unfolding pr using k0 by (simp add: pg_run_compiled [OF n])
  then have "pg_execute st (query cq) (params cq) =
      Inl (BackendError ''LIMIT must not be negative'')"
    by (simp add: pg_execute_def ps frm pc rel)
  then show ?thesis
    by (simp add: search_configured [OF tc cq])
qed


section \<open>The limit is not validated\<close>

text \<open>
  C2, as the code has it. \<open>search\<close> makes no check of the limit: for every limit,
  positive or not, on a configured table whose entry compiles, the statement is handed
  to the store with the limit as its last parameter, and the outcome is the store's
  answer (its rows shaped, or its error). On the store model a negative limit is
  rejected by the store itself, after the statement was handed to it.
\<close>

theorem search_limit_not_validated:
  assumes "map_of (get_available_tables cfg) table_name = Some tc"
      and "compile_query tc q k h m = Inr cq"
  shows "search cfg exec c table_name q k h m =
           ((case exec (query cq) (params cq) of Inl e \<Rightarrow> Inl e | Inr rows \<Rightarrow> shape_rows rows),
            c\<lparr>executed := executed c @ [(query cq, params cq)]\<rparr>) \<and>
         last (params cq) = PInt k \<and>
         (readable tc \<and> k < 0 \<and> map_of (relations st) (from_clause cq) = Some rel \<longrightarrow>
            fst (search cfg (pg_execute st) c table_name q k h m) =
              Inl (BackendError ''LIMIT must not be negative''))"
proof -
  from compile_query_params [OF assms(2)] have "last (params cq) = PInt k" by auto
  with search_configured [OF assms] search_negative_limit [OF assms(1) _ assms(2)]
  show ?thesis by blast
qed

theorem search_limit_not_validated_witness:
  "map_of (get_available_tables example_config) ''facts'' = Some facts_config \<and>
   compile_query facts_config [1, 0] (- 1) None None = Inr (facts_compiled [1, 0] (- 1) None None) \<and>
   readable facts_config \<and> (- 1 :: int) < 0 \<and>
   map_of (relations facts_store) (from_clause (facts_compiled [1, 0] (- 1) None None)) =
     Some [fact_dog, fact_tea] \<and>
   last (params (facts_compiled [1, 0] (- 1) None None)) = PInt (- 1) \<and>
   snd (search example_config (pg_execute facts_store) conn0 ''facts'' [1, 0] (- 1) None None) =
     conn0\<lparr>executed := executed conn0 @
        [(query (facts_compiled [1, 0] (- 1) None None),
          params (facts_compiled [1, 0] (- 1) None None))]\<rparr> \<and>
   fst (search example_config (pg_execute facts_store) conn0 ''facts'' [1, 0] (- 1) None None) =
     Inl (BackendError ''LIMIT must not be negative'')"
proof -
  have rel: "map_of (relations facts_store) (from_clause (facts_compiled [1, 0] (- 1) None None)) =
      Some [fact_dog, fact_tea]"
    by (simp add: facts_store_def facts_compiled_def build_def Let_def)
  note t = search_limit_not_validated [OF facts_configured
      facts_compile [of "[1, 0]" "- 1" None None],
      where exec = "pg_execute facts_store" and c = conn0 and st = facts_store
        and rel = "[fact_dog, fact_tea]"]
  note t1 = t [THEN conjunct1] and t2 = t [THEN conjunct2, THEN conjunct1]
    and t3 = t [THEN conjunct2, THEN conjunct2]
  from t2 have 1: "last (params (facts_compiled [1, 0] (- 1) None None)) = PInt (- 1)" .
  from t1 have 2: "snd (search example_config (pg_execute facts_store) conn0 ''facts'' [1, 0] (- 1)
      None None) = conn0\<lparr>executed := executed conn0 @
        [(query (facts_compiled [1, 0] (- 1) None None),
          params (facts_compiled [1, 0] (- 1) None None))]\<rparr>"
    by simp
  from t3 facts_readable rel
  have 3: "fst (search example_config (pg_execute facts_store) conn0 ''facts'' [1, 0] (- 1) None None) =
     Inl (BackendError ''LIMIT must not be negative'')"
    by simp
  from facts_configured facts_compile facts_readable rel 1 2 3 show ?thesis by simp
qed

text \<open>
  The claim as stated fails: with limit 0 the statement is executed, with 0 bound to
  LIMIT, and the call returns the empty list instead of raising.
\<close>

theorem search_limit_zero_counterexample:
  "fst (search example_config (pg_execute facts_store) conn0 ''facts'' [1, 0] 0 None None) = Inr [] \<and>
   map snd (executed (snd (search example_config (pg_execute facts_store) conn0 ''facts'' [1, 0] 0
      None None))) = [[PVec [1, 0], PFloat 0.6, PVec [1, 0], PInt 0]]"
  unfolding facts_search
  by (simp add: facts_store_def store_eval conn0_def)

section \<open>The dimension of the query vector is not validated\<close>

text \<open>
  C3, as the code has it. \<open>search\<close> makes no check of the query vector: whatever its
  dimension, on a configured table whose entry compiles the statement is handed to the
  store with the vector bound, unchanged, to the score expression and to ORDER BY, and an
  error of the store is returned as it is. A rejection for the dimension can only be the
  store's own, raised while it executes the statement.
\<close>

theorem search_dimension_not_validated:
  assumes "map_of (get_available_tables cfg) table_name = Some tc"
      and "compile_query tc q k h m = Inr cq"
  shows "snd (search cfg exec c table_name q k h m) =
           c\<lparr>executed := executed c @ [(query cq, params cq)]\<rparr> \<and>
         hd (params cq) = PVec q \<and> params cq ! (length (params cq) - 2) = PVec q \<and>
         (\<forall>e. exec (query cq) (params cq) = Inl e \<longrightarrow>
              fst (search cfg exec c table_name q k h m) = Inl e)"
proof -
  from compile_query_params [OF assms(2)] obtain mid where
    "params cq = PVec q # mid @ [PVec q, PInt k]" by blast
  from params_ends(1,2) [OF this] search_configured [OF assms, of exec c]
  show ?thesis by simp
qed

theorem search_dimension_not_validated_witness:
  "map_of (get_available_tables example_config) ''facts'' = Some facts_config \<and>
   compile_query facts_config [1, 2, 3] 10 None None = Inr (facts_compiled [1, 2, 3] 10 None None) \<and>
   pg_execute facts_store (query (facts_compiled [1, 2, 3] 10 None None))
     (params (facts_compiled [1, 2, 3] 10 None None)) =
     Inl (BackendError ''different vector dimensions'') \<and>
   hd (params (facts_compiled [1, 2, 3] 10 None None)) = PVec [1, 2, 3] \<and>
   fst (search example_config (pg_execute facts_store) conn0 ''facts'' [1, 2, 3] 10 None None) =
     Inl (BackendError ''different vector dimensions'')"
proof -
  note t = search_dimension_not_validated [OF facts_configured
      facts_compile [of "[1, 2, 3]" 10 None None],
      where exec = "pg_execute facts_store" and c = conn0]
  have ex: "pg_execute facts_store (query (facts_compiled [1, 2, 3] 10 None None))
     (params (facts_compiled [1, 2, 3] 10 None None)) =
     Inl (BackendError ''different vector dimensions'')"
    unfolding facts_params facts_execute
    by (simp add: facts_store_def store_eval)
  from t have 1: "hd (params (facts_compiled [1, 2, 3] 10 None None)) = PVec [1, 2, 3]" by blast
  from t ex have 2: "fst (search example_config (pg_execute facts_store) conn0 ''facts'' [1, 2, 3] 10
      None None) = Inl (BackendError ''different vector dimensions'')"
    by blast
  from facts_configured facts_compile ex 1 2 show ?thesis by simp
qed

text \<open>
  The claim as stated fails: the stored embeddings have dimension 2, the query vector
  has dimension 1, and the statement is executed all the same; the failure is the
  store's.
\<close>

theorem search_wrong_dimension_counterexample:
  "map snd (executed (snd (search example_config (pg_execute facts_store) conn0 ''facts'' [1] 10
      None None))) = [[PVec [1], PFloat 0.6, PVec [1], PInt 10]] \<and>
   fst (search example_config (pg_execute facts_store) conn0 ''facts'' [1] 10 None None) =
     Inl (BackendError ''different vector dimensions'')"
  unfolding facts_search
  by (simp add: facts_store_def store_eval conn0_def)


section \<open>Best match first\<close>

lemma compile_query_clauses:
  assumes "compile_query tc q k h m = Inr cq"
  shows "\<exists>cols e. select_clause cq =
             cols @ '', 1 - ('' @ e @ '' <=> %s::vector) as similarity_score'' \<and>
           order_clause cq = e @ '' <=> %s::vector''"
proof -
  from assms obtain tbl ec al dc jns fs where b: "cq = build tbl ec al dc jns fs q k h m"
    by (rule compile_query_Inr)
  have "select_clause cq = py_join '', '' dc @ '', 1 - ('' @ (al @ ''.'' @ ec) @
      '' <=> %s::vector) as similarity_score''"
    unfolding b by (simp add: build_def Let_def)
  moreover have "order_clause cq = (al @ ''.'' @ ec) @ '' <=> %s::vector''"
    unfolding b by (simp add: build_def Let_def)
  ultimately show ?thesis by blast
qed

text \<open>
  C5. On a configured table with a readable entry, whenever \<open>search\<close> returns results
  from the store, their scores never increase along the list (numbers in non-increasing
  order, NaN scores of zero vectors last). The score expression of the SELECT list and
  the ORDER BY expression are built from one and the same column expression and operator,
  and the query vector is the parameter bound to both.
\<close>

theorem search_results_best_first:
  assumes "map_of (get_available_tables cfg) table_name = Some tc"
      and "readable tc"
      and "search cfg (pg_execute st) c table_name q k h m = (Inr res, c')"
  shows "sorted_wrt score_ge (map snd res) \<and>
         (\<exists>cq cols e. compile_query tc q k h m = Inr cq \<and>
            select_clause cq = cols @ '', 1 - ('' @ e @ '' <=> %s::vector) as similarity_score'' \<and>
            order_clause cq = e @ '' <=> %s::vector'' \<and>
            hd (params cq) = PVec q \<and> params cq ! (length (params cq) - 2) = PVec q)"
proof -
  from assms(1,3) obtain cq where cq: "compile_query tc q k h m = Inr cq"
    by (rule search_Inr)
  from compile_query_params [OF cq] obtain mid where
    "params cq = PVec q # mid @ [PVec q, PInt k]" by blast
  from params_ends(1,2) [OF this] compile_query_clauses [OF cq] cq
  have "\<exists>cq cols e. compile_query tc q k h m = Inr cq \<and>
            select_clause cq = cols @ '', 1 - ('' @ e @ '' <=> %s::vector) as similarity_score'' \<and>
            order_clause cq = e @ '' <=> %s::vector'' \<and>
            hd (params cq) = PVec q \<and> params cq ! (length (params cq) - 2) = PVec q"
    by blast
  with search_pg_results [OF assms] show ?thesis by blast
qed

lemma facts_search_two:
  "search example_config (pg_execute facts_store) conn0 ''facts'' [1, 0] 10 None (Some 0.3) =
     (Inr [([(''id'', VInt 1), (''fact'', VStr ''likes tea''), (''confidence'', VFloat (Float 0.4))],
            Float 1),
           ([(''id'', VInt 2), (''fact'', VStr ''owns a dog''), (''confidence'', VFloat (Float 0.9))],
            Float 0)],
      conn0\<lparr>executed := [(query (facts_compiled [1, 0] 10 None (Some 0.3)),
         [PVec [1, 0], PFloat 0.3, PVec [1, 0], PInt 10])]\<rparr>)"
  unfolding facts_search
  by (simp add: facts_store_def store_eval conn0_def)

theorem search_results_best_first_witness:
  "map_of (get_available_tables example_config) ''facts'' = Some facts_config \<and>
   readable facts_config \<and>
   search example_config (pg_execute facts_store) conn0 ''facts'' [1, 0] 10 None (Some 0.3) =
     (Inr [([(''id'', VInt 1), (''fact'', VStr ''likes tea''), (''confidence'', VFloat (Float 0.4))],
            Float 1),
           ([(''id'', VInt 2), (''fact'', VStr ''owns a dog''), (''confidence'', VFloat (Float 0.9))],
            Float 0)],
      conn0\<lparr>executed := [(query (facts_compiled [1, 0] 10 None (Some 0.3)),
         [PVec [1, 0], PFloat 0.3, PVec [1, 0], PInt 10])]\<rparr>) \<and>
   sorted_wrt score_ge [Float 1, Float 0]"
proof -
  from search_results_best_first [OF facts_configured facts_readable facts_search_two]
  have "sorted_wrt score_ge (map snd
     [([(''id'', VInt 1), (''fact'', VStr ''likes tea''), (''confidence'', VFloat (Float 0.4))],
            Float 1),
      ([(''id'', VInt 2), (''fact'', VStr ''owns a dog''), (''confidence'', VFloat (Float 0.9))],
            Float 0)])"
    by (rule conjunct1)
  then have s: "sorted_wrt score_ge [Float 1, Float 0]" by simp
  from facts_configured facts_readable facts_search_two s show ?thesis by (intro conjI)
qed

section \<open>At most \<open>limit\<close> results, scores in range\<close>

text \<open>
  C6, as the code and the store have it. On a configured table with a readable entry:
  whenever \<open>search\<close> returns results, the limit is not negative, there are at most
  \<open>limit\<close> results, and every score is a number of the closed interval from -1 to 1
  (or NaN, for a zero vector); and when the entry compiles, the relation of the FROM
  clause exists in the store, the limit is not negative and no row of the relation
  satisfies the predicate of the statement (the store's verdict on every row is false;
  in particular when the relation is empty), \<open>search\<close> returns the empty list, not an
  error.
\<close>

theorem search_at_most_limit_scores_in_range:
  assumes "map_of (get_available_tables cfg) table_name = Some tc"
      and "readable tc"
  shows "(search cfg (pg_execute st) c table_name q k h m = (Inr res, c') \<longrightarrow>
            0 \<le> k \<and> length res \<le> nat k \<and> list_all score_in_range (map snd res)) \<and>
         (compile_query tc q k h m = Inr cq \<and>
            map_of (relations st) (from_clause cq) = Some rel \<and> 0 \<le> k \<and>
            list_all (\<lambda>r. pg_row_passes st (query cq) (params cq) r = Inr False) rel \<longrightarrow>
            fst (search cfg (pg_execute st) c table_name q k h m) = Inr [])"
  using search_pg_results [OF assms] search_nothing_passes [OF assms] by blast

lemma facts_search_one:
  "search example_config (pg_execute facts_store) conn0 ''facts'' [1, 0] 1 None (Some 0.3) =
     (Inr [([(''id'', VInt 1), (''fact'', VStr ''likes tea''), (''confidence'', VFloat (Float 0.4))],
            Float 1)],
      conn0\<lparr>executed := [(query (facts_compiled [1, 0] 1 None (Some 0.3)),
         [PVec [1, 0], PFloat 0.3, PVec [1, 0], PInt 1])]\<rparr>)"
  unfolding facts_search
  by (simp add: facts_store_def store_eval conn0_def)

theorem search_at_most_limit_scores_in_range_witness:
  "map_of (get_available_tables example_config) ''facts'' = Some facts_config \<and>
   readable facts_config \<and>
   search example_config (pg_execute facts_store) conn0 ''facts'' [1, 0] 1 None (Some 0.3) =
     (Inr [([(''id'', VInt 1), (''fact'', VStr ''likes tea''), (''confidence'', VFloat (Float 0.4))],
            Float 1)],
      conn0\<lparr>executed := [(query (facts_compiled [1, 0] 1 None (Some 0.3)),
         [PVec [1, 0], PFloat 0.3, PVec [1, 0], PInt 1])]\<rparr>) \<and>
   length [([(''id'', VInt 1), (''fact'', VStr ''likes tea''), (''confidence'', VFloat (Float 0.4))],
            Float 1)] \<le> nat 1 \<and>
   score_in_range (Float 1) \<and>
   compile_query facts_config [1, 0] 10 None (Some 0.95) =
     Inr (facts_compiled [1, 0] 10 None (Some 0.95)) \<and>
   map_of (relations facts_store) (from_clause (facts_compiled [1, 0] 10 None (Some 0.95))) =
     Some [fact_dog, fact_tea] \<and>
   list_all (\<lambda>r. pg_row_passes facts_store (query (facts_compiled [1, 0] 10 None (Some 0.95)))
       (params (facts_compiled [1, 0] 10 None (Some 0.95))) r = Inr False) [fact_dog, fact_tea] \<and>
   fst (search example_config (pg_execute facts_store) conn0 ''facts'' [1, 0] 10 None (Some 0.95)) =
     Inr [] \<and>
   map_of (relations empty_store) (from_clause (facts_compiled [1, 0] 10 None None)) = Some [] \<and>
   fst (search example_config (pg_execute empty_store) conn0 ''facts'' [1, 0] 10 None None) = Inr []"
proof -
  note t = search_at_most_limit_scores_in_range [OF facts_configured facts_readable]
  note a = t [where st = facts_store and c = conn0 and q = "[1, 0]" and k = 1 and h = None
      and m = "Some 0.3", THEN conjunct1, rule_format, OF facts_search_one]
  from a have 1: "length [([(''id'', VInt 1), (''fact'', VStr ''likes tea''),
      (''confidence'', VFloat (Float 0.4))], Float 1)] \<le> nat 1"
    by blast
  from a have "list_all score_in_range (map snd [([(''id'', VInt 1), (''fact'', VStr ''likes tea''),
      (''confidence'', VFloat (Float 0.4))], Float 1)])"
    by blast
  then have 2: "score_in_range (Float 1)" by simp
  have k0: "(0 :: int) \<le> 10" by simp
  note b = t [where c = conn0, THEN conjunct2, rule_format,
      OF conjI [OF facts_compile [of "[1, 0]" 10 None "Some 0.95"]
        conjI [OF facts_relation conjI [OF k0 facts_search_strict]]]]
  have rel: "map_of (relations empty_store) (from_clause (facts_compiled [1, 0] 10 None None)) =
      Some []"
    by (simp add: empty_store_def facts_from)
  have none: "list_all (\<lambda>r. pg_row_passes empty_store (query (facts_compiled [1, 0] 10 None None))
       (params (facts_compiled [1, 0] 10 None None)) r = Inr False) []"
    by simp
  note c = t [where c = conn0, THEN conjunct2, rule_format,
      OF conjI [OF facts_compile [of "[1, 0]" 10 None None]
        conjI [OF rel conjI [OF k0 none]]]]
  from facts_configured facts_readable facts_search_one 1 2
    facts_compile [of "[1, 0]" 10 None "Some 0.95"] facts_relation facts_search_strict b rel c
  show ?thesis by (intro conjI)
qed

text \<open>
  The claim as stated fails at the lower end of the interval: a stored vector opposite
  to the query vector has cosine distance 2 and score -1, which is not greater than -1.
\<close>

theorem search_score_minus_one_counterexample:
  "fst (search example_config (pg_execute opposite_store) conn0 ''facts'' [1, 0] 10 None None) =
     Inr [([(''id'', VInt 3), (''fact'', VStr ''fears cats''), (''confidence'', VFloat (Float 0.8))],
           Float (- 1))] \<and>
   \<not> (- 1 < (- 1 :: real))"
  unfolding facts_search
  by (simp add: opposite_store_def store_eval)

section \<open>The confidence threshold\<close>

lemma conf_threshold_bound:
  assumes "truthy_col (confidence_column fs) = Some ccol"
  shows "PFloat (case m of Some t \<Rightarrow> t
                 | None \<Rightarrow> (case default_min_confidence fs of Some d \<Rightarrow> d | None \<Rightarrow> 0))
         \<in> set (params (build tbl ec al dc jns fs q k h m))"
  unfolding build_params conf_part_some [OF assms] by simp

lemma truthy_col_eq: "x = Some c \<Longrightarrow> c \<noteq> [] \<Longrightarrow> truthy_col x = Some c"
  by (cases c) simp_all

text \<open>
  C7. For every configured table with a readable entry that declares a confidence column
  and a default threshold \<open>d\<close> (the scenario: \<^verbatim>\<open>confidence\<close> and 0.6), every store and
  every record whose confidence is a number \<open>x\<close> (the scenario: 0.4), whatever the query
  vector, the limit, the hours and the other filter of the entry: the threshold bound to
  the statement is the caller's \<open>min_confidence\<close>, or \<open>d\<close> when the caller omits it. When
  \<open>x\<close> is below that threshold, the record does not pass, and whenever \<open>search\<close> returns
  results they are those of the store without the record. When \<open>x\<close> is not below it and
  all else is satisfied (the embedding is present and the time filter, if one is
  declared, holds), the record passes, and whenever \<open>search\<close> returns results and the
  limit does not cut the relation, the result made of the record is among them.
\<close>

theorem search_confidence_threshold:
  assumes tc: "map_of (get_available_tables cfg) table_name = Some tc"
      and rd: "readable tc"
      and cq: "compile_query tc q k h m = Inr cq"
      and tbl: "table tc = Some tbl" and ec: "embedding_column tc = Some ec"
      and al: "al = (case table_alias tc of Some a \<Rightarrow> a | None \<Rightarrow> [hd tbl])"
      and fs: "filters tc = Some fs"
      and ccol: "confidence_column fs = Some ccol" "ccol \<noteq> []"
      and d: "default_min_confidence fs = Some d"
      and thr: "thr = (case m of Some t \<Rightarrow> t | None \<Rightarrow> d)"
      and rel: "map_of (relations st) (from_clause cq) = Some rel"
      and x: "map_of r (al @ ''.'' @ ccol) = Some (VFloat (Float x))"
  shows "PFloat thr \<in> set (params cq) \<and>
         (x < thr \<longrightarrow>
            pg_row_passes st (query cq) (params cq) r \<noteq> Inr True \<and>
            (search cfg (pg_execute st) c table_name q k h m = (Inr res, c') \<longrightarrow>
               fst (search cfg (pg_execute (without_row r (from_clause cq) st)) c table_name
                      q k h m) = Inr res)) \<and>
         (thr \<le> x \<and> map_of r (al @ ''.'' @ ec) = Some (VVec v) \<and>
            time_filter_ok (now st) al fs h r \<longrightarrow>
            pg_row_passes st (query cq) (params cq) r = Inr True \<and>
            (search cfg (pg_execute st) c table_name q k h m = (Inr res, c') \<and>
               r \<in> set rel \<and> length rel \<le> nat k \<longrightarrow>
               (\<exists>p. search_result_of (query cq) (params cq) r = Inr p \<and> p \<in> set res)))"
proof -
  note tr = truthy_col_eq [OF ccol]
  have fs': "fs = (case filters tc of Some f \<Rightarrow> f
           | None \<Rightarrow> \<lparr> time_column = None, default_hours = None,
                       confidence_column = None, default_min_confidence = None \<rparr>)"
    using fs by simp
  note vi = verdict_iff [OF rd cq tbl ec al fs', of st r]
  have cf: "conf_filter_ok al fs m r = (thr \<le> x)"
    using tr d x thr by (simp add: conf_filter_ok_def split: option.split)
  from cq obtain tbl' ec' al' dc jns fs'' where b: "cq = build tbl' ec' al' dc jns fs'' q k h m"
      and f2: "fs'' = (case filters tc of Some f \<Rightarrow> f
           | None \<Rightarrow> \<lparr> time_column = None, default_hours = None,
                       confidence_column = None, default_min_confidence = None \<rparr>)"
    by (rule compile_query_Inr)
  from f2 fs have f3: "fs'' = fs" by simp
  have 1: "PFloat thr \<in> set (params cq)"
    using conf_threshold_bound [OF tr, of m tbl' ec' al' dc jns q k h] d thr
    unfolding b f3 by (cases m) simp_all
  have 2: "pg_row_passes st (query cq) (params cq) r \<noteq> Inr True" if "x < thr"
    using that vi cf by simp
  have 3: "fst (search cfg (pg_execute (without_row r (from_clause cq) st)) c table_name
                      q k h m) = Inr res"
    if "x < thr" "search cfg (pg_execute st) c table_name q k h m = (Inr res, c')"
    using search_without_row [OF tc rd cq rel that(2) 2 [OF that(1)]] .
  have 4: "pg_row_passes st (query cq) (params cq) r = Inr True"
    if "thr \<le> x \<and> map_of r (al @ ''.'' @ ec) = Some (VVec v) \<and>
            time_filter_ok (now st) al fs h r"
    using that vi cf by simp
  have 5: "\<exists>p. search_result_of (query cq) (params cq) r = Inr p \<and> p \<in> set res"
    if a: "thr \<le> x \<and> map_of r (al @ ''.'' @ ec) = Some (VVec v) \<and>
            time_filter_ok (now st) al fs h r"
      and b: "search cfg (pg_execute st) c table_name q k h m = (Inr res, c') \<and>
               r \<in> set rel \<and> length rel \<le> nat k"
  proof -
    from b have b1: "search cfg (pg_execute st) c table_name q k h m = (Inr res, c')"
      and b2: "r \<in> set rel" and b3: "length rel \<le> nat k" by simp_all
    from search_includes_row [OF tc rd cq rel b1 b2 4 [OF a] b3] show ?thesis .
  qed
  show ?thesis
  proof (intro conjI impI)
    show "PFloat thr \<in> set (params cq)" by (rule 1)
  next
    assume "x < thr"
    then show "pg_row_passes st (query cq) (params cq) r \<noteq> Inr True" by (rule 2)
  next
    assume "x < thr" "search cfg (pg_execute st) c table_name q k h m = (Inr res, c')"
    then show "fst (search cfg (pg_execute (without_row r (from_clause cq) st)) c table_name
                      q k h m) = Inr res" by (rule 3)
  next
    assume "thr \<le> x \<and> map_of r (al @ ''.'' @ ec) = Some (VVec v) \<and>
            time_filter_ok (now st) al fs h r"
    then show "pg_row_passes st (query cq) (params cq) r = Inr True" by (rule 4)
  next
    assume "thr \<le> x \<and> map_of r (al @ ''.'' @ ec) = Some (VVec v) \<and>
            time_filter_ok (now st) al fs h r"
      "search cfg (pg_execute st) c table_name q k h m = (Inr res, c') \<and>
               r \<in> set rel \<and> length rel \<le> nat k"
    then show "\<exists>p. search_result_of (query cq) (params cq) r = Inr p \<and> p \<in> set res"
      by (rule 5)
  qed
qed

lemma dated_entry:
  "map_of (get_available_tables \<lparr> tables = Some [(''facts'', dated_config)] \<rparr>) ''facts'' =
     Some dated_config"
  "readable dated_config"
  "compile_query dated_config q k h m = Inr (dated_compiled q k h m)"
  "table dated_config = Some ''person_facts''" "embedding_column dated_config = Some ''embedding''"
  "''f'' = (case table_alias dated_config of Some a \<Rightarrow> a | None \<Rightarrow> [hd ''person_facts''])"
  "filters dated_config = Some dated_filters"
  "confidence_column dated_filters = Some ''confidence''"
  "default_min_confidence dated_filters = Some 0.6"
  "map_of (relations dated_store) (from_clause (dated_compiled q k h m)) = Some [fact_tea_dated]"
  by (simp_all add: get_available_tables_def dated_config_def dated_filters_def readable_def
        opt_str_def plain_name_def single_line_def compile_query_def dated_compiled_def
        dated_store_def build_def Let_def)

lemma fact_tea_dated_cells:
  "map_of fact_tea_dated (''f'' @ ''.'' @ ''confidence'') = Some (VFloat (Float 0.4))"
  "map_of fact_tea_dated (''f'' @ ''.'' @ ''embedding'') = Some (VVec [1, 0])"
  "time_filter_ok (now dated_store) ''f'' dated_filters None fact_tea_dated"
  by (simp_all add: fact_tea_dated_def fact_tea_def time_filter_ok_def dated_filters_def
        dated_store_def)

theorem search_confidence_threshold_witness:
  "map_of (get_available_tables example_config) ''facts'' = Some facts_config \<and>
   readable facts_config \<and>
   confidence_column facts_filters = Some ''confidence'' \<and>
   default_min_confidence facts_filters = Some 0.6 \<and>
   map_of fact_tea ''f.confidence'' = Some (VFloat (Float 0.4)) \<and>
   PFloat 0.6 \<in> set (params (facts_compiled [1, 0] 10 None None)) \<and>
   pg_row_passes facts_store (query (facts_compiled [1, 0] 10 None None))
     (params (facts_compiled [1, 0] 10 None None)) fact_tea \<noteq> Inr True \<and>
   fst (search example_config (pg_execute facts_store) conn0 ''facts'' [1, 0] 10 None None) =
     Inr [([(''id'', VInt 2), (''fact'', VStr ''owns a dog''), (''confidence'', VFloat (Float 0.9))],
           Float 0)] \<and>
   fst (search example_config (pg_execute (without_row fact_tea ''person_facts f'' facts_store))
          conn0 ''facts'' [1, 0] 10 None None) =
     Inr [([(''id'', VInt 2), (''fact'', VStr ''owns a dog''), (''confidence'', VFloat (Float 0.9))],
           Float 0)] \<and>
   PFloat 0.3 \<in> set (params (facts_compiled [1, 0] 10 None (Some 0.3))) \<and>
   pg_row_passes facts_store (query (facts_compiled [1, 0] 10 None (Some 0.3)))
     (params (facts_compiled [1, 0] 10 None (Some 0.3))) fact_tea = Inr True \<and>
   (\<exists>p. search_result_of (query (facts_compiled [1, 0] 10 None (Some 0.3)))
           (params (facts_compiled [1, 0] 10 None (Some 0.3))) fact_tea = Inr p \<and>
        p \<in> set [([(''id'', VInt 1), (''fact'', VStr ''likes tea''),
                     (''confidence'', VFloat (Float 0.4))], Float 1),
                   ([(''id'', VInt 2), (''fact'', VStr ''owns a dog''),
                     (''confidence'', VFloat (Float 0.9))], Float 0)]) \<and>
   pg_row_passes dated_store (query (dated_compiled [1, 0] 10 None None))
     (params (dated_compiled [1, 0] 10 None None)) fact_tea_dated \<noteq> Inr True \<and>
   pg_row_passes dated_store (query (dated_compiled [1, 0] 10 None (Some 0.3)))
     (params (dated_compiled [1, 0] 10 None (Some 0.3))) fact_tea_dated = Inr True"
proof -
  have ne: "''confidence'' \<noteq> []" by simp
  have t6: "(0.6 :: real) = (case (None :: real option) of Some t \<Rightarrow> t | None \<Rightarrow> 0.6)" by simp
  have t3: "(0.3 :: real) = (case Some 0.3 of Some t \<Rightarrow> t | None \<Rightarrow> 0.6)" by simp
  have lt: "(0.4 :: real) < 0.6" by simp
  have le: "(0.3 :: real) \<le> 0.4" by simp
  have cell: "map_of fact_tea ''f.confidence'' = Some (VFloat (Float 0.4))"
    by (simp add: fact_tea_def)
  note a = search_confidence_threshold [OF facts_configured facts_readable
      facts_compile [of "[1, 0]" 10 None None] facts_entry(1,2,3,4,5) ne facts_entry(6) t6
      facts_relation fact_tea_cells(1),
      where c = conn0 and v = "[1, 0]"]
  note b = search_confidence_threshold [OF facts_configured facts_readable
      facts_compile [of "[1, 0]" 10 None "Some 0.3"] facts_entry(1,2,3,4,5) ne facts_entry(6) t3
      facts_relation fact_tea_cells(1),
      where c = conn0 and v = "[1, 0]"]
  note c = search_confidence_threshold [OF dated_entry(1,2)
      dated_entry(3) [of "[1, 0]" 10 None None] dated_entry(4,5,6,7,8) ne dated_entry(9) t6
      dated_entry(10) fact_tea_dated_cells(1),
      where c = conn0 and v = "[1, 0]"]
  note d = search_confidence_threshold [OF dated_entry(1,2)
      dated_entry(3) [of "[1, 0]" 10 None "Some 0.3"] dated_entry(4,5,6,7,8) ne dated_entry(9) t3
      dated_entry(10) fact_tea_dated_cells(1),
      where c = conn0 and v = "[1, 0]"]
  note a1 = a [THEN conjunct1]
  note a2 = a [THEN conjunct2, THEN conjunct1, rule_format, OF lt]
  note a3 = a2 [THEN conjunct1]
  have s1: "fst (search example_config (pg_execute facts_store) conn0 ''facts'' [1, 0] 10 None None) =
     Inr [([(''id'', VInt 2), (''fact'', VStr ''owns a dog''), (''confidence'', VFloat (Float 0.9))],
           Float 0)]"
    by (simp only: facts_search_default fst_conv)
  have a4: "fst (search example_config (pg_execute (without_row fact_tea ''person_facts f'' facts_store))
          conn0 ''facts'' [1, 0] 10 None None) =
     Inr [([(''id'', VInt 2), (''fact'', VStr ''owns a dog''), (''confidence'', VFloat (Float 0.9))],
           Float 0)]"
    using a2 [THEN conjunct2, rule_format, OF facts_search_default] unfolding facts_from .
  note b1 = b [THEN conjunct1]
  have inc: "(0.3 :: real) \<le> 0.4 \<and> map_of fact_tea (''f'' @ ''.'' @ ''embedding'') = Some (VVec [1, 0]) \<and>
      time_filter_ok (now facts_store) ''f'' facts_filters None fact_tea"
    using le fact_tea_cells(2,3) by (intro conjI)
  note b2 = b [THEN conjunct2, THEN conjunct2, rule_format, OF inc]
  note b3 = b2 [THEN conjunct1]
  have mem: "fact_tea \<in> set [fact_dog, fact_tea]" "length [fact_dog, fact_tea] \<le> nat 10"
    by simp_all
  have b4: "\<exists>p. search_result_of (query (facts_compiled [1, 0] 10 None (Some 0.3)))
           (params (facts_compiled [1, 0] 10 None (Some 0.3))) fact_tea = Inr p \<and>
        p \<in> set [([(''id'', VInt 1), (''fact'', VStr ''likes tea''),
                     (''confidence'', VFloat (Float 0.4))], Float 1),
                   ([(''id'', VInt 2), (''fact'', VStr ''owns a dog''),
                     (''confidence'', VFloat (Float 0.9))], Float 0)]"
    by (rule b2 [THEN conjunct2, rule_format, OF conjI [OF facts_search_two conjI [OF mem]]])
  note c1 = c [THEN conjunct2, THEN conjunct1, rule_format, OF lt, THEN conjunct1]
  have incd: "(0.3 :: real) \<le> 0.4 \<and>
      map_of fact_tea_dated (''f'' @ ''.'' @ ''embedding'') = Some (VVec [1, 0]) \<and>
      time_filter_ok (now dated_store) ''f'' dated_filters None fact_tea_dated"
    using le fact_tea_dated_cells(2,3) by (intro conjI)
  note d1 = d [THEN conjunct2, THEN conjunct2, rule_format, OF incd, THEN conjunct1]
  from facts_configured facts_readable facts_entry(5,6) cell a1 a3 s1 a4 b1 b3 b4 c1 d1
  show ?thesis by (intro conjI)
qed

section \<open>Fallbacks for omitted configuration keys\<close>

lemma no_comma_prefix:
  "CHR '' '' \<notin> set (x # a) \<Longrightarrow> \<not> prefix '', '' ((x # a) @ '', '' @ rest)"
  by (cases a) auto

lemma split_str_comma:
  "CHR '' '' \<notin> set a \<Longrightarrow> split_str '', '' (a @ '', '' @ rest) = a # split_str '', '' rest"
proof (induction a)
  case Nil
  then show ?case by simp
next
  case (Cons x a)
  from no_comma_prefix [OF Cons.prems, of rest]
  have "\<not> prefix '', '' (x # a @ '', '' @ rest)" by simp
  moreover from Cons have "split_str '', '' (a @ '', '' @ rest) = a # split_str '', '' rest"
    by simp
  ultimately show ?case by (simp del: prefix_code)
qed

lemma split_str_comma_last: "CHR '' '' \<notin> set a \<Longrightarrow> split_str '', '' a = [a]"
proof (induction a)
  case Nil
  then show ?case by simp
next
  case (Cons x a)
  then have "\<not> prefix '', '' (x # a)" by (cases a) auto
  moreover from Cons have "split_str '', '' a = [a]" by simp
  ultimately show ?case by (simp del: prefix_code)
qed

lemma split_str_two:
  assumes "CHR '' '' \<notin> set a" "CHR '' '' \<notin> set b"
  shows "split_str '', '' (py_join '', '' [a, b]) = [a, b]"
proof -
  have "split_str '', '' (py_join '', '' [a, b]) = split_str '', '' (a @ '', '' @ b)"
    by (simp only: py_join.simps)
  also have "\<dots> = a # split_str '', '' b" using assms(1) by (rule split_str_comma)
  also have "\<dots> = [a, b]" using assms(2) by (simp add: split_str_comma_last)
  finally show ?thesis .
qed

lemma time_part_fallback:
  "truthy_col (time_column fs) = Some tcol \<Longrightarrow> default_hours fs = None \<Longrightarrow>
   time_part al fs None = time_part al fs (Some 168)"
  by (simp add: time_part_def)

lemma conf_part_fallback:
  "truthy_col (confidence_column fs) = Some ccol \<Longrightarrow> default_min_confidence fs = None \<Longrightarrow>
   conf_part al fs None = conf_part al fs (Some 0)"
  by (simp add: conf_part_def)

lemma build_same:
  "time_part al fs h = time_part al fs h' \<Longrightarrow> conf_part al fs m = conf_part al fs m' \<Longrightarrow>
   build tbl ec al dc jns fs q k h m = build tbl ec al dc jns fs q k h' m'"
  by (simp add: build_def Let_def)

lemma build_select_default:
  "select_clause (build tbl ec al [al @ ''.id'', al @ ''.'' @ cc] jns fs q k h m) =
     al @ ''.id, '' @ al @ ''.'' @ cc @
       '', 1 - ('' @ al @ ''.'' @ ec @ '' <=> %s::vector) as similarity_score''"
  by (simp add: build_def Let_def)

lemma build_query_select:
  "prefix (newline @ ''            SELECT '' @ select_clause (build tbl ec al dc jns fs q k h m) @
             newline @ ''            FROM '' @ from_clause (build tbl ec al dc jns fs q k h m) @
             newline @ ''            WHERE '')
     (query (build tbl ec al dc jns fs q k h m))"
  by (simp add: build_def Let_def)


lemma time_fallback_build:
  assumes tr: "truthy_col (time_column fs) = Some tcol" and dh: "default_hours fs = None"
  shows "build tbl ec al dc jns fs q k None m = build tbl ec al dc jns fs q k (Some 168) m"
    "al @ ''.'' @ tcol @ '' >= NOW() - INTERVAL '' @ [CHR 0x27] @ ''%s hours'' @ [CHR 0x27]
       \<in> set (where_conditions (build tbl ec al dc jns fs q k None m))"
    "params (build tbl ec al dc jns fs q k None m) ! 1 = PInt 168"
proof -
  show "build tbl ec al dc jns fs q k None m = build tbl ec al dc jns fs q k (Some 168) m"
    by (rule build_same [OF time_part_fallback [OF tr dh] refl])
  show "al @ ''.'' @ tcol @ '' >= NOW() - INTERVAL '' @ [CHR 0x27] @ ''%s hours'' @ [CHR 0x27]
       \<in> set (where_conditions (build tbl ec al dc jns fs q k None m))"
    unfolding where_conditions_build time_part_some [OF tr] by simp
  show "params (build tbl ec al dc jns fs q k None m) ! 1 = PInt 168"
    unfolding build_params time_part_some [OF tr] using dh by simp
qed

lemma conf_fallback_build:
  assumes tr: "truthy_col (confidence_column fs) = Some ccol"
      and dm: "default_min_confidence fs = None"
  shows "build tbl ec al dc jns fs q k h None = build tbl ec al dc jns fs q k h (Some 0)"
    "al @ ''.'' @ ccol @ '' >= %s'' \<in> set (where_conditions (build tbl ec al dc jns fs q k h None))"
    "params (build tbl ec al dc jns fs q k h None) !
       (length (params (build tbl ec al dc jns fs q k h None)) - 3) = PFloat 0"
proof -
  show "build tbl ec al dc jns fs q k h None = build tbl ec al dc jns fs q k h (Some 0)"
    by (rule build_same [OF refl conf_part_fallback [OF tr dm]])
  show "al @ ''.'' @ ccol @ '' >= %s'' \<in> set (where_conditions (build tbl ec al dc jns fs q k h None))"
    unfolding where_conditions_build conf_part_some [OF tr] by simp
  have "params (build tbl ec al dc jns fs q k h None) =
      (PVec q # snd (time_part al fs h)) @ [PFloat 0, PVec q, PInt k]"
    unfolding build_params conf_part_some [OF tr] using dm by simp
  then show "params (build tbl ec al dc jns fs q k h None) !
       (length (params (build tbl ec al dc jns fs q k h None)) - 3) = PFloat 0"
    by (simp add: nth_append)
qed

lemma time_fallback_verdict:
  assumes rd: "readable tc" and cq: "compile_query tc q k None m = Inr cq"
      and tbl: "table tc = Some tbl" and ec: "embedding_column tc = Some ec"
      and al: "al = (case table_alias tc of Some a \<Rightarrow> a | None \<Rightarrow> [hd tbl])"
      and fs: "filters tc = Some fs"
      and tr: "truthy_col (time_column fs) = Some tcol" and dh: "default_hours fs = None"
      and cell: "map_of r (al @ ''.'' @ tcol) = Some (VTime tm)"
  shows "(tm < now st - 168 \<longrightarrow> pg_row_passes st (query cq) (params cq) r \<noteq> Inr True) \<and>
         (now st - 168 \<le> tm \<and> (\<exists>v. map_of r (al @ ''.'' @ ec) = Some (VVec v)) \<and>
            conf_filter_ok al fs m r \<longrightarrow>
            pg_row_passes st (query cq) (params cq) r = Inr True)"
proof -
  have fs': "fs = (case filters tc of Some f \<Rightarrow> f
           | None \<Rightarrow> \<lparr> time_column = None, default_hours = None,
                       confidence_column = None, default_min_confidence = None \<rparr>)"
    using fs by simp
  note vi = verdict_iff [OF rd cq tbl ec al fs', of st r]
  have tf: "time_filter_ok (now st) al fs None r = (now st - 168 \<le> tm)"
    using tr dh cell by (simp add: time_filter_ok_def)
  show ?thesis unfolding vi tf by auto
qed

lemma conf_fallback_verdict:
  assumes rd: "readable tc" and cq: "compile_query tc q k h None = Inr cq"
      and tbl: "table tc = Some tbl" and ec: "embedding_column tc = Some ec"
      and al: "al = (case table_alias tc of Some a \<Rightarrow> a | None \<Rightarrow> [hd tbl])"
      and fs: "filters tc = Some fs"
      and tr: "truthy_col (confidence_column fs) = Some ccol"
      and dm: "default_min_confidence fs = None"
  shows "(\<forall>x. map_of r (al @ ''.'' @ ccol) = Some (VFloat (Float x)) \<longrightarrow>
            (x < 0 \<longrightarrow> pg_row_passes st (query cq) (params cq) r \<noteq> Inr True) \<and>
            (0 \<le> x \<and> (\<exists>v. map_of r (al @ ''.'' @ ec) = Some (VVec v)) \<and>
               time_filter_ok (now st) al fs h r \<longrightarrow>
               pg_row_passes st (query cq) (params cq) r = Inr True)) \<and>
         (map_of r (al @ ''.'' @ ccol) = Some VNull \<longrightarrow>
            pg_row_passes st (query cq) (params cq) r \<noteq> Inr True)"
proof -
  have fs': "fs = (case filters tc of Some f \<Rightarrow> f
           | None \<Rightarrow> \<lparr> time_column = None, default_hours = None,
                       confidence_column = None, default_min_confidence = None \<rparr>)"
    using fs by simp
  note vi = verdict_iff [OF rd cq tbl ec al fs', of st r]
  have cf: "conf_filter_ok al fs None r = not_below 0 (map_of r (al @ ''.'' @ ccol))"
    using tr dm by (simp add: conf_filter_ok_def)
  show ?thesis unfolding vi cf by auto
qed

lemma default_projection_read:
  assumes rd: "readable tc" and cq: "compile_query tc q k h m = Inr cq"
      and tbl: "table tc = Some tbl" and cc: "content_column tc = Some cc"
      and al: "al = (case table_alias tc of Some a \<Rightarrow> a | None \<Rightarrow> [hd tbl])"
      and dn: "display_columns tc = None" and pcc: "plain_name cc"
  shows "\<exists>s. parse_statement (query cq) = Some s \<and> st_select s = [al @ ''.id'', al @ ''.'' @ cc]"
proof -
  from cq obtain tbl' ec al' dc jns fs cc' where b: "cq = build tbl' ec al' dc jns fs q k h m"
    and tc: "table tc = Some tbl'" "tbl' \<noteq> []" "embedding_column tc = Some ec"
      "content_column tc = Some cc'"
      "al' = (case table_alias tc of Some a \<Rightarrow> a | None \<Rightarrow> [hd tbl'])"
      "dc = (case display_columns tc of Some d \<Rightarrow> d | None \<Rightarrow> [al' @ ''.id'', al' @ ''.'' @ cc'])"
      "jns = (case joins tc of Some j \<Rightarrow> j | None \<Rightarrow> [])"
      "fs = (case filters tc of Some f \<Rightarrow> f
           | None \<Rightarrow> \<lparr> time_column = None, default_hours = None,
                       confidence_column = None, default_min_confidence = None \<rparr>)"
    by (rule compile_query_Inr)
  from tc(1,4) tbl cc have eq0: "tbl' = tbl" "cc' = cc" by simp_all
  from tc(5) al have eq1: "al' = al" unfolding eq0 by simp
  note b = b [unfolded eq0 eq1] and tc = tc [unfolded eq0 eq1]
  from tc(6) dn have dc: "dc = [al @ ''.id'', al @ ''.'' @ cc]" by simp
  from rd tc have p_tbl: "plain_name tbl" and p_ec: "plain_name ec"
    by (simp_all add: readable_def opt_str_def)
  have p_al: "plain_name al"
  proof (cases "table_alias tc")
    case None
    with tc(5) p_tbl tc(2) show ?thesis by (simp add: plain_name_hd)
  next
    case (Some a)
    with rd tc(5) show ?thesis by (simp add: readable_def opt_str_def)
  qed
  have s_dc: "list_all single_line dc"
    unfolding dc using plain_single [OF p_al] plain_single [OF pcc] by simp
  have s_jns: "list_all single_line jns"
    using rd tc(7) by (cases "joins tc") (simp_all add: readable_def)
  have p_fs: "plain_name (opt_str (time_column fs))" "plain_name (opt_str (confidence_column fs))"
    using rd tc(8) by (cases "filters tc"; simp add: readable_def opt_str_def plain_name_def)+
  note ps = parse_statement_build [OF plain_single [OF p_tbl] p_al p_ec s_dc s_jns p_fs,
      of q k h m]
  have "CHR '' '' \<notin> set (al @ ''.id'')" "CHR '' '' \<notin> set (al @ ''.'' @ cc)"
    using p_al pcc by (simp_all add: plain_name_def)
  from split_str_two [OF this]
  have sp: "split_str '', '' (py_join '', '' dc) = [al @ ''.id'', al @ ''.'' @ cc]"
    unfolding dc .
  show ?thesis unfolding b ps sp by simp
qed

text \<open>
  C10, as the code and the store have it. For a configured entry with a table name, an
  embedding column and a content column, compilation does not fail and \<open>search\<close> hands
  the compiled statement to the store, whatever the hours and threshold of the caller.
  When the entry declares a time column and no \<open>default_hours\<close> and the caller omits the
  hours, the request is compiled and answered as if the caller had passed 168: the time
  predicate is among the conditions, 168 is the parameter bound to it, and in the store
  a row older than 168 hours does not pass, while a younger one passes when all else is
  satisfied. When the entry declares a confidence column and no
  \<open>default_min_confidence\<close> and the caller omits the threshold, the request is compiled
  and answered as if the caller had passed 0: the confidence predicate is among the
  conditions, 0 is the parameter bound to it, and in the store a row whose confidence is
  a number not below 0 passes when all else is satisfied, while a row whose confidence is
  negative or NULL does not pass. Without \<open>display_columns\<close>, the projection is the id
  and the content column, both qualified by the alias, in the clause, in the statement
  text and in what the store reads.
\<close>

theorem search_filter_fallbacks:
  assumes tc: "map_of (get_available_tables cfg) table_name = Some tc"
      and wf: "table tc = Some tbl" "tbl \<noteq> []" "embedding_column tc = Some ec"
        "content_column tc = Some cc"
      and al: "al = (case table_alias tc of Some a \<Rightarrow> a | None \<Rightarrow> [hd tbl])"
  shows "\<exists>cq. compile_query tc q k h m = Inr cq \<and>
           search cfg exec c table_name q k h m =
             ((case exec (query cq) (params cq) of Inl e \<Rightarrow> Inl e | Inr rows \<Rightarrow> shape_rows rows),
              c\<lparr>executed := executed c @ [(query cq, params cq)]\<rparr>) \<and>
           (\<forall>fs tcol. filters tc = Some fs \<and> time_column fs = Some tcol \<and> tcol \<noteq> [] \<and>
                default_hours fs = None \<and> h = None \<longrightarrow>
              compile_query tc q k (Some 168) m = Inr cq \<and>
              search cfg exec c table_name q k (Some 168) m = search cfg exec c table_name q k h m \<and>
              al @ ''.'' @ tcol @ '' >= NOW() - INTERVAL '' @ [CHR 0x27] @ ''%s hours'' @ [CHR 0x27]
                \<in> set (where_conditions cq) \<and>
              params cq ! 1 = PInt 168 \<and>
              (readable tc \<longrightarrow>
                 (\<forall>st r tm. map_of r (al @ ''.'' @ tcol) = Some (VTime tm) \<longrightarrow>
                    (tm < now st - 168 \<longrightarrow>
                       pg_row_passes st (query cq) (params cq) r \<noteq> Inr True) \<and>
                    (now st - 168 \<le> tm \<and> (\<exists>v. map_of r (al @ ''.'' @ ec) = Some (VVec v)) \<and>
                       conf_filter_ok al fs m r \<longrightarrow>
                       pg_row_passes st (query cq) (params cq) r = Inr True)))) \<and>
           (\<forall>fs ccol. filters tc = Some fs \<and> confidence_column fs = Some ccol \<and> ccol \<noteq> [] \<and>
                default_min_confidence fs = None \<and> m = None \<longrightarrow>
              compile_query tc q k h (Some 0) = Inr cq \<and>
              search cfg exec c table_name q k h (Some 0) = search cfg exec c table_name q k h m \<and>
              al @ ''.'' @ ccol @ '' >= %s'' \<in> set (where_conditions cq) \<and>
              params cq ! (length (params cq) - 3) = PFloat 0 \<and>
              (readable tc \<longrightarrow>
                 (\<forall>st r.
                    (\<forall>x. map_of r (al @ ''.'' @ ccol) = Some (VFloat (Float x)) \<longrightarrow>
                       (x < 0 \<longrightarrow> pg_row_passes st (query cq) (params cq) r \<noteq> Inr True) \<and>
                       (0 \<le> x \<and> (\<exists>v. map_of r (al @ ''.'' @ ec) = Some (VVec v)) \<and>
                          time_filter_ok (now st) al fs h r \<longrightarrow>
                          pg_row_passes st (query cq) (params cq) r = Inr True)) \<and>
                    (map_of r (al @ ''.'' @ ccol) = Some VNull \<longrightarrow>
                       pg_row_passes st (query cq) (params cq) r \<noteq> Inr True)))) \<and>
           (display_columns tc = None \<longrightarrow>
              select_clause cq = al @ ''.id, '' @ al @ ''.'' @ cc @
                '', 1 - ('' @ al @ ''.'' @ ec @ '' <=> %s::vector) as similarity_score'' \<and>
              prefix (newline @ ''            SELECT '' @ select_clause cq @
                      newline @ ''            FROM '' @ from_clause cq @
                      newline @ ''            WHERE '') (query cq) \<and>
              (readable tc \<and> plain_name cc \<longrightarrow>
                 (\<exists>s. parse_statement (query cq) = Some s \<and>
                      st_select s = [al @ ''.id'', al @ ''.'' @ cc])))"
proof -
  let ?dc = "case display_columns tc of Some d \<Rightarrow> d | None \<Rightarrow> [al @ ''.id'', al @ ''.'' @ cc]"
  let ?jns = "case joins tc of Some j \<Rightarrow> j | None \<Rightarrow> []"
  let ?fs = "case filters tc of Some f \<Rightarrow> f
             | None \<Rightarrow> \<lparr> time_column = None, default_hours = None,
                         confidence_column = None, default_min_confidence = None \<rparr>"
  let ?cq = "build tbl ec al ?dc ?jns ?fs q k h m"
  have cq: "compile_query tc q' k' h' m' = Inr (build tbl ec al ?dc ?jns ?fs q' k' h' m')"
    for q' k' h' m'
    using compile_query_eq [OF wf, of q' k' h' m'] al
    by (simp cong: option.case_cong)
  note sc = search_configured [OF tc cq, of exec c]
  have T: "compile_query tc q k (Some 168) m = Inr ?cq \<and>
      search cfg exec c table_name q k (Some 168) m = search cfg exec c table_name q k h m \<and>
      al @ ''.'' @ tcol @ '' >= NOW() - INTERVAL '' @ [CHR 0x27] @ ''%s hours'' @ [CHR 0x27]
        \<in> set (where_conditions ?cq) \<and>
      params ?cq ! 1 = PInt 168 \<and>
      (readable tc \<longrightarrow>
         (\<forall>st r tm. map_of r (al @ ''.'' @ tcol) = Some (VTime tm) \<longrightarrow>
            (tm < now st - 168 \<longrightarrow> pg_row_passes st (query ?cq) (params ?cq) r \<noteq> Inr True) \<and>
            (now st - 168 \<le> tm \<and> (\<exists>v. map_of r (al @ ''.'' @ ec) = Some (VVec v)) \<and>
               conf_filter_ok al fs m r \<longrightarrow>
               pg_row_passes st (query ?cq) (params ?cq) r = Inr True)))"
    if a: "filters tc = Some fs \<and> time_column fs = Some tcol \<and> tcol \<noteq> [] \<and>
           default_hours fs = None \<and> h = None" for fs tcol
  proof -
    from a have fs: "filters tc = Some fs" and tr: "truthy_col (time_column fs) = Some tcol"
        and dh: "default_hours fs = None" and h: "h = None"
      by (simp_all add: truthy_col_eq)
    have f: "?fs = fs" using fs by simp
    note tb = time_fallback_build [OF tr dh]
    have 1: "compile_query tc q k (Some 168) m = Inr ?cq"
      unfolding cq f h tb(1) ..
    have 2: "search cfg exec c table_name q k (Some 168) m = search cfg exec c table_name q k h m"
      unfolding search_configured [OF tc 1] sc ..
    have 3: "al @ ''.'' @ tcol @ '' >= NOW() - INTERVAL '' @ [CHR 0x27] @ ''%s hours'' @ [CHR 0x27]
        \<in> set (where_conditions ?cq)"
      unfolding f h by (rule tb(2))
    have 4: "params ?cq ! 1 = PInt 168" unfolding f h by (rule tb(3))
    have 5: "\<forall>st r tm. map_of r (al @ ''.'' @ tcol) = Some (VTime tm) \<longrightarrow>
            (tm < now st - 168 \<longrightarrow> pg_row_passes st (query ?cq) (params ?cq) r \<noteq> Inr True) \<and>
            (now st - 168 \<le> tm \<and> (\<exists>v. map_of r (al @ ''.'' @ ec) = Some (VVec v)) \<and>
               conf_filter_ok al fs m r \<longrightarrow>
               pg_row_passes st (query ?cq) (params ?cq) r = Inr True)" if rd: "readable tc"
    proof (intro allI impI)
      fix st :: store and r :: row and tm :: real
      assume cell: "map_of r (al @ ''.'' @ tcol) = Some (VTime tm)"
      from time_fallback_verdict [OF rd cq [of q k None m] wf(1,3) al fs tr dh cell, of st]
      show "(tm < now st - 168 \<longrightarrow> pg_row_passes st (query ?cq) (params ?cq) r \<noteq> Inr True) \<and>
            (now st - 168 \<le> tm \<and> (\<exists>v. map_of r (al @ ''.'' @ ec) = Some (VVec v)) \<and>
               conf_filter_ok al fs m r \<longrightarrow>
               pg_row_passes st (query ?cq) (params ?cq) r = Inr True)"
        unfolding h .
    qed
    from 1 2 3 4 5 show ?thesis by blast
  qed
  have C: "compile_query tc q k h (Some 0) = Inr ?cq \<and>
      search cfg exec c table_name q k h (Some 0) = search cfg exec c table_name q k h m \<and>
      al @ ''.'' @ ccol @ '' >= %s'' \<in> set (where_conditions ?cq) \<and>
      params ?cq ! (length (params ?cq) - 3) = PFloat 0 \<and>
      (readable tc \<longrightarrow>
         (\<forall>st r.
            (\<forall>x. map_of r (al @ ''.'' @ ccol) = Some (VFloat (Float x)) \<longrightarrow>
               (x < 0 \<longrightarrow> pg_row_passes st (query ?cq) (params ?cq) r \<noteq> Inr True) \<and>
               (0 \<le> x \<and> (\<exists>v. map_of r (al @ ''.'' @ ec) = Some (VVec v)) \<and>
                  time_filter_ok (now st) al fs h r \<longrightarrow>
                  pg_row_passes st (query ?cq) (params ?cq) r = Inr True)) \<and>
            (map_of r (al @ ''.'' @ ccol) = Some VNull \<longrightarrow>
               pg_row_passes st (query ?cq) (params ?cq) r \<noteq> Inr True)))"
    if a: "filters tc = Some fs \<and> confidence_column fs = Some ccol \<and> ccol \<noteq> [] \<and>
           default_min_confidence fs = None \<and> m = None" for fs ccol
  proof -
    from a have fs: "filters tc = Some fs" and tr: "truthy_col (confidence_column fs) = Some ccol"
        and dm: "default_min_confidence fs = None" and m: "m = None"
      by (simp_all add: truthy_col_eq)
    have f: "?fs = fs" using fs by simp
    note tb = conf_fallback_build [OF tr dm]
    have 1: "compile_query tc q k h (Some 0) = Inr ?cq"
      unfolding cq f m tb(1) ..
    have 2: "search cfg exec c table_name q k h (Some 0) = search cfg exec c table_name q k h m"
      unfolding search_configured [OF tc 1] sc ..
    have 3: "al @ ''.'' @ ccol @ '' >= %s'' \<in> set (where_conditions ?cq)"
      unfolding f m by (rule tb(2))
    have 4: "params ?cq ! (length (params ?cq) - 3) = PFloat 0" unfolding f m by (rule tb(3))
    have 5: "\<forall>st r.
            (\<forall>x. map_of r (al @ ''.'' @ ccol) = Some (VFloat (Float x)) \<longrightarrow>
               (x < 0 \<longrightarrow> pg_row_passes st (query ?cq) (params ?cq) r \<noteq> Inr True) \<and>
               (0 \<le> x \<and> (\<exists>v. map_of r (al @ ''.'' @ ec) = Some (VVec v)) \<and>
                  time_filter_ok (now st) al fs h r \<longrightarrow>
                  pg_row_passes st (query ?cq) (params ?cq) r = Inr True)) \<and>
            (map_of r (al @ ''.'' @ ccol) = Some VNull \<longrightarrow>
               pg_row_passes st (query ?cq) (params ?cq) r \<noteq> Inr True)" if rd: "readable tc"
    proof (intro allI)
      fix st :: store and r :: row
      from conf_fallback_verdict [OF rd cq [of q k h None] wf(1,3) al fs tr dm, of r st]
      show "(\<forall>x. map_of r (al @ ''.'' @ ccol) = Some (VFloat (Float x)) \<longrightarrow>
               (x < 0 \<longrightarrow> pg_row_passes st (query ?cq) (params ?cq) r \<noteq> Inr True) \<and>
               (0 \<le> x \<and> (\<exists>v. map_of r (al @ ''.'' @ ec) = Some (VVec v)) \<and>
                  time_filter_ok (now st) al fs h r \<longrightarrow>
                  pg_row_passes st (query ?cq) (params ?cq) r = Inr True)) \<and>
            (map_of r (al @ ''.'' @ ccol) = Some VNull \<longrightarrow>
               pg_row_passes st (query ?cq) (params ?cq) r \<noteq> Inr True)"
        unfolding m .
    qed
    from 1 2 3 4 5 show ?thesis by blast
  qed
  have D: "select_clause ?cq = al @ ''.id, '' @ al @ ''.'' @ cc @
                '', 1 - ('' @ al @ ''.'' @ ec @ '' <=> %s::vector) as similarity_score'' \<and>
              prefix (newline @ ''            SELECT '' @ select_clause ?cq @
                      newline @ ''            FROM '' @ from_clause ?cq @
                      newline @ ''            WHERE '') (query ?cq) \<and>
              (readable tc \<and> plain_name cc \<longrightarrow>
                 (\<exists>s. parse_statement (query ?cq) = Some s \<and>
                      st_select s = [al @ ''.id'', al @ ''.'' @ cc]))"
    if dn: "display_columns tc = None"
  proof -
    have d: "?dc = [al @ ''.id'', al @ ''.'' @ cc]" using dn by simp
    have 1: "select_clause ?cq = al @ ''.id, '' @ al @ ''.'' @ cc @
                '', 1 - ('' @ al @ ''.'' @ ec @ '' <=> %s::vector) as similarity_score''"
      unfolding d by (rule build_select_default)
    have 2: "prefix (newline @ ''            SELECT '' @ select_clause ?cq @
                      newline @ ''            FROM '' @ from_clause ?cq @
                      newline @ ''            WHERE '') (query ?cq)"
      by (rule build_query_select)
    have 3: "\<exists>s. parse_statement (query ?cq) = Some s \<and>
                      st_select s = [al @ ''.id'', al @ ''.'' @ cc]"
      if "readable tc \<and> plain_name cc"
      using default_projection_read [OF _ cq wf(1,4) al dn, of q k h m] that by blast
    from 1 2 3 show ?thesis by blast
  qed
  show ?thesis
  proof (intro exI [of _ ?cq] conjI)
    show "compile_query tc q k h m = Inr ?cq" by (rule cq)
  next
    show "search cfg exec c table_name q k h m =
             ((case exec (query ?cq) (params ?cq) of Inl e \<Rightarrow> Inl e | Inr rows \<Rightarrow> shape_rows rows),
              c\<lparr>executed := executed c @ [(query ?cq, params ?cq)]\<rparr>)"
      by (rule sc)
  next
    show "\<forall>fs tcol. filters tc = Some fs \<and> time_column fs = Some tcol \<and> tcol \<noteq> [] \<and>
                default_hours fs = None \<and> h = None \<longrightarrow>
              compile_query tc q k (Some 168) m = Inr ?cq \<and>
              search cfg exec c table_name q k (Some 168) m = search cfg exec c table_name q k h m \<and>
              al @ ''.'' @ tcol @ '' >= NOW() - INTERVAL '' @ [CHR 0x27] @ ''%s hours'' @ [CHR 0x27]
                \<in> set (where_conditions ?cq) \<and>
              params ?cq ! 1 = PInt 168 \<and>
              (readable tc \<longrightarrow>
                 (\<forall>st r tm. map_of r (al @ ''.'' @ tcol) = Some (VTime tm) \<longrightarrow>
                    (tm < now st - 168 \<longrightarrow>
                       pg_row_passes st (query ?cq) (params ?cq) r \<noteq> Inr True) \<and>
                    (now st - 168 \<le> tm \<and> (\<exists>v. map_of r (al @ ''.'' @ ec) = Some (VVec v)) \<and>
                       conf_filter_ok al fs m r \<longrightarrow>
                       pg_row_passes st (query ?cq) (params ?cq) r = Inr True)))"
      using T by (intro allI impI)
  next
    show "\<forall>fs ccol. filters tc = Some fs \<and> confidence_column fs = Some ccol \<and> ccol \<noteq> [] \<and>
                default_min_confidence fs = None \<and> m = None \<longrightarrow>
              compile_query tc q k h (Some 0) = Inr ?cq \<and>
              search cfg exec c table_name q k h (Some 0) = search cfg exec c table_name q k h m \<and>
              al @ ''.'' @ ccol @ '' >= %s'' \<in> set (where_conditions ?cq) \<and>
              params ?cq ! (length (params ?cq) - 3) = PFloat 0 \<and>
              (readable tc \<longrightarrow>
                 (\<forall>st r.
                    (\<forall>x. map_of r (al @ ''.'' @ ccol) = Some (VFloat (Float x)) \<longrightarrow>
                       (x < 0 \<longrightarrow> pg_row_passes st (query ?cq) (params ?cq) r \<noteq> Inr True) \<and>
                       (0 \<le> x \<and> (\<exists>v. map_of r (al @ ''.'' @ ec) = Some (VVec v)) \<and>
                          time_filter_ok (now st) al fs h r \<longrightarrow>
                          pg_row_passes st (query ?cq) (params ?cq) r = Inr True)) \<and>
                    (map_of r (al @ ''.'' @ ccol) = Some VNull \<longrightarrow>
                       pg_row_passes st (query ?cq) (params ?cq) r \<noteq> Inr True)))"
      using C by (intro allI impI)
  next
    show "display_columns tc = None \<longrightarrow>
              select_clause ?cq = al @ ''.id, '' @ al @ ''.'' @ cc @
                '', 1 - ('' @ al @ ''.'' @ ec @ '' <=> %s::vector) as similarity_score'' \<and>
              prefix (newline @ ''            SELECT '' @ select_clause ?cq @
                      newline @ ''            FROM '' @ from_clause ?cq @
                      newline @ ''            WHERE '') (query ?cq) \<and>
              (readable tc \<and> plain_name cc \<longrightarrow>
                 (\<exists>s. parse_statement (query ?cq) = Some s \<and>
                      st_select s = [al @ ''.id'', al @ ''.'' @ cc]))"
      using D by (intro impI)
  qed
qed

lemma notes_entry:
  "map_of (get_available_tables example_config) ''notes'' = Some notes_config"
  "readable notes_config"
  "compile_query notes_config q k h m = Inr (notes_compiled q k h m)"
  "table notes_config = Some ''notes''" "''notes'' \<noteq> []"
  "embedding_column notes_config = Some ''embedding''"
  "content_column notes_config = Some ''body''"
  "''n'' = (case table_alias notes_config of Some a \<Rightarrow> a | None \<Rightarrow> [hd ''notes''])"
  "filters notes_config = Some notes_filters"
  "display_columns notes_config = None"
  by (simp_all add: get_available_tables_def example_config_def notes_config_def notes_filters_def
        readable_def opt_str_def plain_name_def single_line_def compile_query_def
        notes_compiled_def)

lemma notes_filters_entry:
  "time_column notes_filters = Some ''created_at''" "default_hours notes_filters = None"
  "confidence_column notes_filters = Some ''confidence''"
  "default_min_confidence notes_filters = None"
  by (simp_all add: notes_filters_def)

lemma notes_from: "from_clause (notes_compiled q k h m) = ''notes n''"
  by (simp add: notes_compiled_def build_def Let_def)

lemma notes_params:
  "params (notes_compiled q k None None) = [PVec q, PInt 168, PFloat 0, PVec q, PInt k]"
  by (simp add: notes_compiled_def build_params time_part_def conf_part_def notes_filters_def)

lemma notes_search_on:
  assumes rel: "map_of (relations st) ''notes n'' = Some rel"
  obtains s where
    "fst (search example_config (pg_execute st) c ''notes'' q k None None) =
       (case (if k < 0 then Inl (BackendError ''LIMIT must not be negative'')
            else
              (case select_rows (now st)
                      [NotNull ''n.embedding'', SinceHours ''n.created_at'', AtLeast ''n.confidence'']
                      [PInt 168, PFloat 0] rel of
                 Inl e \<Rightarrow> Inl e
               | Inr kept \<Rightarrow>
                   (case map_rows (score_row s q q) kept of
                      Inl e \<Rightarrow> Inl e
                    | Inr scored \<Rightarrow> Inr (map snd (take (nat k) (sort_key fst scored)))))) of
          Inl e \<Rightarrow> Inl e | Inr rows \<Rightarrow> shape_rows rows)"
    "st_select s = [''n.id'', ''n.body'']" "st_score_col s = ''n.embedding''"
    "st_order_col s = ''n.embedding''"
proof -
  have dc: "[''n.id'', ''n.body''] = (case display_columns notes_config of Some d \<Rightarrow> d
                     | None \<Rightarrow> [''n'' @ ''.id'', ''n'' @ ''.'' @ ''body''])"
    by (simp add: notes_entry(10))
  have fs: "notes_filters = (case filters notes_config of Some f \<Rightarrow> f
           | None \<Rightarrow> \<lparr> time_column = None, default_hours = None,
                       confidence_column = None, default_min_confidence = None \<rparr>)"
    by (simp add: notes_entry(9))
  from compiled_on_store [OF notes_entry(2) notes_entry(3) [of q k None None]
      notes_entry(4,6,7,8) dc fs]
  obtain s where ps: "parse_statement (query (notes_compiled q k None None)) = Some s"
      and frm: "st_from s = from_clause (notes_compiled q k None None)"
      and pc: "parse_conds (st_where s) = Some (entry_conds ''n'' ''embedding'' notes_filters)"
      and pr: "params (notes_compiled q k None None) =
          PVec q # (snd (time_part ''n'' notes_filters None) @ snd (conf_part ''n'' notes_filters None)) @
          [PVec q, PInt k]"
      and sel: "st_select s = split_str '', '' (py_join '', '' [''n.id'', ''n.body''])"
      and sc: "st_score_col s = ''n'' @ ''.'' @ ''embedding''"
      and oc: "st_order_col s = ''n'' @ ''.'' @ ''embedding''"
    by blast
  from rel frm have rel': "map_of (relations st) (st_from s) = Some rel"
    by (simp add: notes_from)
  note e = pg_execute_view [OF ps pc pr entry_conds_params rel']
  have 1: "fst (search example_config (pg_execute st) c ''notes'' q k None None) =
       (case (if k < 0 then Inl (BackendError ''LIMIT must not be negative'')
            else
              (case select_rows (now st)
                      [NotNull ''n.embedding'', SinceHours ''n.created_at'', AtLeast ''n.confidence'']
                      [PInt 168, PFloat 0] rel of
                 Inl e \<Rightarrow> Inl e
               | Inr kept \<Rightarrow>
                   (case map_rows (score_row s q q) kept of
                      Inl e \<Rightarrow> Inl e
                    | Inr scored \<Rightarrow> Inr (map snd (take (nat k) (sort_key fst scored)))))) of
          Inl e \<Rightarrow> Inl e | Inr rows \<Rightarrow> shape_rows rows)"
    unfolding search_configured [OF notes_entry(1) notes_entry(3)] fst_conv e
    by (simp add: entry_conds_def time_part_def conf_part_def notes_filters_def)
  have 2: "st_select s = [''n.id'', ''n.body'']" unfolding sel by simp
  have 3: "st_score_col s = ''n.embedding''" "st_order_col s = ''n.embedding''"
    unfolding sc oc by simp_all
  from 1 2 3 show thesis by (rule that)
qed

lemma notes_search_fallback:
  "fst (search example_config (pg_execute notes_store) conn0 ''notes'' [1, 0] 10 None None) =
     Inr [([(''id'', VInt 1), (''body'', VStr ''call the bank'')], Float 1)]"
proof -
  have rel: "map_of (relations notes_store) ''notes n'' = Some [note_old, note_recent]"
    by (simp add: notes_store_def)
  from notes_search_on [OF rel, of conn0 "[1, 0]" 10] obtain s where
      e: "fst (search example_config (pg_execute notes_store) conn0 ''notes'' [1, 0] 10 None None) =
       (case (if (10 :: int) < 0 then Inl (BackendError ''LIMIT must not be negative'')
            else
              (case select_rows (now notes_store)
                      [NotNull ''n.embedding'', SinceHours ''n.created_at'', AtLeast ''n.confidence'']
                      [PInt 168, PFloat 0] [note_old, note_recent] of
                 Inl e \<Rightarrow> Inl e
               | Inr kept \<Rightarrow>
                   (case map_rows (score_row s [1, 0] [1, 0]) kept of
                      Inl e \<Rightarrow> Inl e
                    | Inr scored \<Rightarrow> Inr (map snd (take (nat 10) (sort_key fst scored)))))) of
          Inl e \<Rightarrow> Inl e | Inr rows \<Rightarrow> shape_rows rows)"
      and s: "st_select s = [''n.id'', ''n.body'']" "st_score_col s = ''n.embedding''"
        "st_order_col s = ''n.embedding''"
    by blast
  show ?thesis
    unfolding e
    by (simp add: notes_store_def score_row_def s project_col_def split_as_def after_last_def
          pg_distance_def cosine_distance_def vec_norm_def dict_of_def pop_score_def
          note_recent_def note_old_def)
qed

lemma notes_search_unrated:
  "fst (search example_config (pg_execute unrated_store) conn0 ''notes'' [1, 0] 10 None None) =
     Inr [([(''id'', VInt 1), (''body'', VStr ''call the bank'')], Float 1)]"
proof -
  have rel: "map_of (relations unrated_store) ''notes n'' =
      Some [note_unrated, note_doubted, note_recent]"
    by (simp add: unrated_store_def)
  from notes_search_on [OF rel, of conn0 "[1, 0]" 10] obtain s where
      e: "fst (search example_config (pg_execute unrated_store) conn0 ''notes'' [1, 0] 10 None None) =
       (case (if (10 :: int) < 0 then Inl (BackendError ''LIMIT must not be negative'')
            else
              (case select_rows (now unrated_store)
                      [NotNull ''n.embedding'', SinceHours ''n.created_at'', AtLeast ''n.confidence'']
                      [PInt 168, PFloat 0] [note_unrated, note_doubted, note_recent] of
                 Inl e \<Rightarrow> Inl e
               | Inr kept \<Rightarrow>
                   (case map_rows (score_row s [1, 0] [1, 0]) kept of
                      Inl e \<Rightarrow> Inl e
                    | Inr scored \<Rightarrow> Inr (map snd (take (nat 10) (sort_key fst scored)))))) of
          Inl e \<Rightarrow> Inl e | Inr rows \<Rightarrow> shape_rows rows)"
      and s: "st_select s = [''n.id'', ''n.body'']" "st_score_col s = ''n.embedding''"
        "st_order_col s = ''n.embedding''"
    by blast
  show ?thesis
    unfolding e
    by (simp add: unrated_store_def score_row_def s project_col_def split_as_def after_last_def
          pg_distance_def cosine_distance_def vec_norm_def dict_of_def pop_score_def
          note_recent_def note_unrated_def note_doubted_def)
qed


lemma compiled_the: "\<exists>cq. f = Inr cq \<and> P cq \<Longrightarrow> f = Inr cq0 \<Longrightarrow> P cq0"
  by auto

lemma notes_row_passes:
  "pg_row_passes st (query (notes_compiled q k None None)) (params (notes_compiled q k None None)) r =
   row_passes (now st) r
     [NotNull ''n.embedding'', SinceHours ''n.created_at'', AtLeast ''n.confidence'']
     [PInt 168, PFloat 0]"
proof -
  have fs: "notes_filters = (case filters notes_config of Some f \<Rightarrow> f
           | None \<Rightarrow> \<lparr> time_column = None, default_hours = None,
                       confidence_column = None, default_min_confidence = None \<rparr>)"
    by (simp add: notes_entry(9))
  from compiled_on_store [OF notes_entry(2) notes_entry(3) [of q k None None]
      notes_entry(4,6,7,8) refl fs]
  obtain s where ps: "parse_statement (query (notes_compiled q k None None)) = Some s"
      and pc: "parse_conds (st_where s) = Some (entry_conds ''n'' ''embedding'' notes_filters)"
      and pr: "params (notes_compiled q k None None) =
          PVec q # (snd (time_part ''n'' notes_filters None) @ snd (conf_part ''n'' notes_filters None)) @
          [PVec q, PInt k]"
    by blast
  show ?thesis
    unfolding pg_row_passes_view [OF ps pc pr entry_conds_params]
    by (simp add: entry_conds_def time_part_def conf_part_def notes_filters_def)
qed

lemma note_cells:
  "map_of note_old (''n'' @ ''.'' @ ''created_at'') = Some (VTime 100)"
  "map_of note_recent (''n'' @ ''.'' @ ''created_at'') = Some (VTime 900)"
  "map_of note_recent (''n'' @ ''.'' @ ''confidence'') = Some (VFloat (Float 0.2))"
  "map_of note_doubted (''n'' @ ''.'' @ ''confidence'') = Some (VFloat (Float (- 0.1)))"
  "map_of note_unrated (''n'' @ ''.'' @ ''confidence'') = Some VNull"
  "\<exists>v. map_of note_recent (''n'' @ ''.'' @ ''embedding'') = Some (VVec v)"
  "conf_filter_ok ''n'' notes_filters None note_recent"
  "time_filter_ok (now notes_store) ''n'' notes_filters None note_recent"
  by (simp_all add: note_old_def note_recent_def note_doubted_def note_unrated_def
        conf_filter_ok_def time_filter_ok_def notes_filters_def notes_store_def)

theorem search_filter_fallbacks_witness:
  "map_of (get_available_tables example_config) ''notes'' = Some notes_config \<and>
   readable notes_config \<and>
   filters notes_config = Some notes_filters \<and>
   time_column notes_filters = Some ''created_at'' \<and> default_hours notes_filters = None \<and>
   confidence_column notes_filters = Some ''confidence'' \<and>
   default_min_confidence notes_filters = None \<and>
   display_columns notes_config = None \<and>
   compile_query notes_config [1, 0] 10 None None = Inr (notes_compiled [1, 0] 10 None None) \<and>
   compile_query notes_config [1, 0] 10 (Some 168) None = Inr (notes_compiled [1, 0] 10 None None) \<and>
   compile_query notes_config [1, 0] 10 None (Some 0) = Inr (notes_compiled [1, 0] 10 None None) \<and>
   params (notes_compiled [1, 0] 10 None None) ! 1 = PInt 168 \<and>
   params (notes_compiled [1, 0] 10 None None) !
     (length (params (notes_compiled [1, 0] 10 None None)) - 3) = PFloat 0 \<and>
   pg_row_passes notes_store (query (notes_compiled [1, 0] 10 None None))
     (params (notes_compiled [1, 0] 10 None None)) note_old \<noteq> Inr True \<and>
   pg_row_passes notes_store (query (notes_compiled [1, 0] 10 None None))
     (params (notes_compiled [1, 0] 10 None None)) note_recent = Inr True \<and>
   pg_row_passes notes_store (query (notes_compiled [1, 0] 10 None None))
     (params (notes_compiled [1, 0] 10 None None)) note_doubted \<noteq> Inr True \<and>
   pg_row_passes notes_store (query (notes_compiled [1, 0] 10 None None))
     (params (notes_compiled [1, 0] 10 None None)) note_unrated \<noteq> Inr True \<and>
   select_clause (notes_compiled [1, 0] 10 None None) =
     ''n.id, n.body, 1 - (n.embedding <=> %s::vector) as similarity_score'' \<and>
   fst (search example_config (pg_execute notes_store) conn0 ''notes'' [1, 0] 10 None None) =
     Inr [([(''id'', VInt 1), (''body'', VStr ''call the bank'')], Float 1)] \<and>
   fst (search example_config (pg_execute notes_store) conn0 ''notes'' [1, 0] 10 (Some 168) None) =
     Inr [([(''id'', VInt 1), (''body'', VStr ''call the bank'')], Float 1)] \<and>
   fst (search example_config (pg_execute notes_store) conn0 ''notes'' [1, 0] 10 None (Some 0)) =
     Inr [([(''id'', VInt 1), (''body'', VStr ''call the bank'')], Float 1)]"
proof -
  let ?N = "notes_compiled [1, 0] 10 None None"
  have ne: "''created_at'' \<noteq> []" "''confidence'' \<noteq> []" by simp_all
  have hn: "(None :: int option) = None" and mn: "(None :: real option) = None" by simp_all
  note w = compiled_the [OF search_filter_fallbacks [OF notes_entry(1,4,5,6,7,8),
      where q = "[1, 0]" and k = 10 and h = None and m = None
        and exec = "pg_execute notes_store" and c = conn0] notes_entry(3)]
  note wT = w [THEN conjunct2, THEN conjunct1, rule_format,
      OF conjI [OF notes_entry(9) conjI [OF notes_filters_entry(1) conjI [OF ne(1)
        conjI [OF notes_filters_entry(2) hn]]]]]
  note wC = w [THEN conjunct2, THEN conjunct2, THEN conjunct1, rule_format,
      OF conjI [OF notes_entry(9) conjI [OF notes_filters_entry(3) conjI [OF ne(2)
        conjI [OF notes_filters_entry(4) mn]]]]]
  note wD = w [THEN conjunct2, THEN conjunct2, THEN conjunct2, rule_format, OF notes_entry(10)]
  note t1 = wT [THEN conjunct1]
  note t2 = wT [THEN conjunct2, THEN conjunct1]
  note t4 = wT [THEN conjunct2, THEN conjunct2, THEN conjunct2, THEN conjunct1]
  note t5 = wT [THEN conjunct2, THEN conjunct2, THEN conjunct2, THEN conjunct2, rule_format,
      OF notes_entry(2)]
  have old: "(100 :: real) < now notes_store - 168" by (simp add: notes_store_def)
  have rec: "now notes_store - 168 \<le> (900 :: real)" by (simp add: notes_store_def)
  note v_old = t5 [OF note_cells(1), THEN conjunct1, rule_format, OF old]
  note v_rec = t5 [OF note_cells(2), THEN conjunct2, rule_format,
      OF conjI [OF rec conjI [OF note_cells(6) note_cells(7)]]]
  note c1 = wC [THEN conjunct1]
  note c2 = wC [THEN conjunct2, THEN conjunct1]
  note c4 = wC [THEN conjunct2, THEN conjunct2, THEN conjunct2, THEN conjunct1]
  note c5 = wC [THEN conjunct2, THEN conjunct2, THEN conjunct2, THEN conjunct2, rule_format,
      OF notes_entry(2)]
  have neg: "(- 0.1 :: real) < 0" by simp
  note v_doubt = c5 [where st = notes_store, THEN conjunct1, rule_format, OF note_cells(4),
      THEN conjunct1, rule_format, OF neg]
  note v_null = c5 [where st = notes_store, THEN conjunct2, rule_format, OF note_cells(5)]
  from wD [THEN conjunct1]
  have d1: "select_clause ?N =
     ''n.id, n.body, 1 - (n.embedding <=> %s::vector) as similarity_score''"
    by simp
  note s0 = notes_search_fallback
  have s1: "fst (search example_config (pg_execute notes_store) conn0 ''notes'' [1, 0] 10
      (Some 168) None) = Inr [([(''id'', VInt 1), (''body'', VStr ''call the bank'')], Float 1)]"
    unfolding t2 by (rule s0)
  have s2: "fst (search example_config (pg_execute notes_store) conn0 ''notes'' [1, 0] 10
      None (Some 0)) = Inr [([(''id'', VInt 1), (''body'', VStr ''call the bank'')], Float 1)]"
    unfolding c2 by (rule s0)
  from notes_entry(1,2,9) notes_filters_entry notes_entry(10)
    notes_entry(3) [of "[1, 0]" 10 None None] t1 c1 t4 c4 v_old v_rec v_doubt v_null d1 s0 s1 s2
  show ?thesis by (intro conjI)
qed

text \<open>
  The claim as stated fails in its parenthesis: with the fallback threshold 0.0 bound,
  not every confidence passes. A note whose confidence is NULL and one whose confidence
  is -0.1, both written 50 hours ago and both with an embedding, are rejected by the
  store and are not among the results.
\<close>

theorem search_unrated_confidence_counterexample:
  "map_of note_unrated ''n.confidence'' = Some VNull \<and>
   map_of note_doubted ''n.confidence'' = Some (VFloat (Float (- 0.1))) \<and>
   params (notes_compiled [1, 0] 10 None None) =
     [PVec [1, 0], PInt 168, PFloat 0, PVec [1, 0], PInt 10] \<and>
   pg_row_passes unrated_store (query (notes_compiled [1, 0] 10 None None))
     (params (notes_compiled [1, 0] 10 None None)) note_unrated = Inr False \<and>
   pg_row_passes unrated_store (query (notes_compiled [1, 0] 10 None None))
     (params (notes_compiled [1, 0] 10 None None)) note_doubted = Inr False \<and>
   fst (search example_config (pg_execute unrated_store) conn0 ''notes'' [1, 0] 10 None None) =
     Inr [([(''id'', VInt 1), (''body'', VStr ''call the bank'')], Float 1)]"
proof -
  have 1: "map_of note_unrated ''n.confidence'' = Some VNull"
      "map_of note_doubted ''n.confidence'' = Some (VFloat (Float (- 0.1)))"
    by (simp_all add: note_unrated_def note_doubted_def)
  have 2: "pg_row_passes unrated_store (query (notes_compiled [1, 0] 10 None None))
     (params (notes_compiled [1, 0] 10 None None)) note_unrated = Inr False"
      "pg_row_passes unrated_store (query (notes_compiled [1, 0] 10 None None))
     (params (notes_compiled [1, 0] 10 None None)) note_doubted = Inr False"
    unfolding notes_row_passes
    by (simp_all add: note_unrated_def note_doubted_def unrated_store_def)
  from 1 notes_params 2 notes_search_unrated show ?thesis by (intro conjI)
qed

section \<open>Schema initialisation is idempotent\<close>

lemma create_extension_again:
  "create_extension name cat = Inr c1 \<Longrightarrow>
   name \<in> set (extensions c1) \<and> create_extension name c1 = Inr c1"
  by (auto simp: create_extension_def split: if_splits)

lemma create_table_again:
  "create_table name cols cat = Inr c2 \<Longrightarrow>
   map_of (cat_tables c2) name \<noteq> None \<and> create_table name cols c2 = Inr c2 \<and>
   extensions c2 = extensions cat"
  by (auto simp: create_table_def map_add_def split: if_splits)

lemma create_index_again:
  "create_index name tbl col cat = Inr c3 \<Longrightarrow>
   create_index name tbl col c3 = Inr c3 \<and> extensions c3 = extensions cat \<and>
   (map_of (cat_tables cat) tbl \<noteq> None \<longrightarrow> map_of (cat_tables c3) tbl \<noteq> None)"
  by (auto simp: create_index_def map_add_def split: if_splits option.splits)

lemma create_table_present:
  "map_of (cat_tables cat) name \<noteq> None \<Longrightarrow> create_table name cols cat = Inr cat"
  by (simp add: create_table_def)

lemma create_extension_present:
  "name \<in> set (extensions cat) \<Longrightarrow> create_extension name cat = Inr cat"
  by (simp add: create_extension_def)

lemma create_index_present:
  "map_of (indexes cat) name \<noteq> None \<Longrightarrow> create_index name tbl col cat = Inr cat"
  by (simp add: create_index_def)

text \<open>
  C8. Running \<open>ensure_schema\<close> again on the catalog it left gives the same catalog and the
  same outcome (no error, or the same error) as the first run; and on a catalog that
  already has the extension, the table and the index it changes nothing and raises
  nothing.
\<close>

theorem ensure_schema_idempotent:
  "ensure_schema (snd (ensure_schema cat)) = ensure_schema cat \<and>
   (''vector'' \<in> set (extensions cat) \<and> map_of (cat_tables cat) ''code_elements'' \<noteq> None \<and>
    map_of (indexes cat) ''idx_code_elements_embedding'' \<noteq> None \<longrightarrow>
      ensure_schema cat = (None, cat))"
proof
  show "ensure_schema (snd (ensure_schema cat)) = ensure_schema cat"
  proof (cases "create_extension ''vector'' cat")
    case (Inl e)
    then show ?thesis by (simp add: ensure_schema_def)
  next
    case c1: (Inr c1)
    note e1 = create_extension_again [OF c1]
    show ?thesis
    proof (cases "create_table ''code_elements'' code_elements_columns c1")
      case (Inl e)
      with c1 e1 show ?thesis by (simp add: ensure_schema_def)
    next
      case c2: (Inr c2)
      note e2 = create_table_again [OF c2]
      from e1 e2 have x2: "create_extension ''vector'' c2 = Inr c2"
        by (simp add: create_extension_present)
      show ?thesis
      proof (cases "create_index ''idx_code_elements_embedding'' ''code_elements'' ''embedding'' c2")
        case (Inl e)
        with c1 c2 x2 e2 show ?thesis by (simp add: ensure_schema_def)
      next
        case c3: (Inr c3)
        note e3 = create_index_again [OF c3]
        from e1 e2 e3 have x3: "create_extension ''vector'' c3 = Inr c3"
          by (simp add: create_extension_present)
        from e2 e3 have t3: "create_table ''code_elements'' code_elements_columns c3 = Inr c3"
          by (simp add: create_table_present)
        from c1 c2 c3 x3 t3 e3 show ?thesis by (simp add: ensure_schema_def)
      qed
    qed
  qed
  show "''vector'' \<in> set (extensions cat) \<and> map_of (cat_tables cat) ''code_elements'' \<noteq> None \<and>
    map_of (indexes cat) ''idx_code_elements_embedding'' \<noteq> None \<longrightarrow>
      ensure_schema cat = (None, cat)"
    by (simp add: ensure_schema_def create_extension_present create_table_present
          create_index_present)
qed


lemmas schema_eval = ensure_schema_def create_extension_def create_table_def create_index_def
  code_elements_columns_def fresh_catalog_def legacy_catalog_def ready_catalog_def

theorem ensure_schema_idempotent_witness:
  "ensure_schema fresh_catalog = (None, ready_catalog) \<and>
   ensure_schema (snd (ensure_schema fresh_catalog)) = (None, ready_catalog) \<and>
   ''vector'' \<in> set (extensions ready_catalog) \<and>
   map_of (cat_tables ready_catalog) ''code_elements'' = Some code_elements_columns \<and>
   map_of (indexes ready_catalog) ''idx_code_elements_embedding'' =
     Some (''code_elements'', ''embedding'') \<and>
   ensure_schema ready_catalog = (None, ready_catalog) \<and>
   ensure_schema legacy_catalog =
     (Some (BackendError ''column does not exist''), legacy_catalog\<lparr>extensions := [''vector'']\<rparr>) \<and>
   ensure_schema (snd (ensure_schema legacy_catalog)) =
     (Some (BackendError ''column does not exist''), legacy_catalog\<lparr>extensions := [''vector'']\<rparr>)"
proof -
  have a: "ensure_schema fresh_catalog = (None, ready_catalog)"
    by (simp add: schema_eval)
  have b: "ensure_schema legacy_catalog =
     (Some (BackendError ''column does not exist''), legacy_catalog\<lparr>extensions := [''vector'']\<rparr>)"
    by (simp add: schema_eval)
  have p: "''vector'' \<in> set (extensions ready_catalog)"
      "map_of (cat_tables ready_catalog) ''code_elements'' = Some code_elements_columns"
      "map_of (indexes ready_catalog) ''idx_code_elements_embedding'' =
         Some (''code_elements'', ''embedding'')"
    by (simp_all add: ready_catalog_def)
  from ensure_schema_idempotent [of fresh_catalog, THEN conjunct1] a
  have c: "ensure_schema (snd (ensure_schema fresh_catalog)) = (None, ready_catalog)" by simp
  from ensure_schema_idempotent [of legacy_catalog, THEN conjunct1] b
  have d: "ensure_schema (snd (ensure_schema legacy_catalog)) =
     (Some (BackendError ''column does not exist''), legacy_catalog\<lparr>extensions := [''vector'']\<rparr>)"
    by simp
  from ensure_schema_idempotent [of ready_catalog, THEN conjunct2] p
  have e: "ensure_schema ready_catalog = (None, ready_catalog)" by simp
  from a c p e b d show ?thesis by (intro conjI)
qed

section \<open>The indexing run skips failed units\<close>

lemma index_element_run:
  assumes "fits_schema (unit_embedding cst gen el)"
  shows "index_element cst gen st el =
     (None, if produced (unit_embedding cst gen el)
            then st\<lparr>db_rows := db_rows st @ [record_of cst gen el],
                    total_elements := total_elements st + 1\<rparr>
            else st)"
proof (cases "unit_embedding cst gen el" rule: produced.cases)
  case 1
  then show ?thesis by (simp add: index_element_def unit_embedding_def Let_def)
next
  case 2
  then show ?thesis by (simp add: index_element_def unit_embedding_def Let_def)
next
  case (3 x xs)
  with assms have "length (x # xs) = 1536" by (simp add: fits_schema_def)
  with 3 show ?thesis
    by (simp add: index_element_def unit_embedding_def Let_def insert_row_def record_of_def)
qed

lemma index_elements_run:
  assumes "list_all (\<lambda>el. fits_schema (unit_embedding cst gen el)) els"
  shows "index_elements cst gen st els =
     (None, st\<lparr>db_rows := db_rows st @ map (record_of cst gen) (indexed_units cst gen els),
              total_elements := total_elements st + length (indexed_units cst gen els)\<rparr>)"
  using assms
proof (induction els arbitrary: st)
  case Nil
  then show ?case by (simp add: indexed_units_def)
next
  case (Cons el els)
  then show ?case by (simp add: index_element_run indexed_units_def)
qed

lemma index_files_run:
  assumes "list_all (\<lambda>el. fits_schema (unit_embedding cst gen el)) (run_units extract fs)"
  shows "index_files cst gen extract st fs =
     (None, st\<lparr>db_rows := db_rows st @
                 map (record_of cst gen) (indexed_units cst gen (run_units extract fs)),
              printed := printed st @ map (\<lambda>f. ''Processing '' @ f @ ''...'') fs,
              total_elements := total_elements st +
                 length (indexed_units cst gen (run_units extract fs))\<rparr>)"
  using assms
proof (induction fs arbitrary: st)
  case Nil
  then show ?case by (simp add: indexed_units_def run_units_def)
next
  case (Cons f fs)
  then show ?case
    by (simp add: index_elements_run indexed_units_def run_units_def)
qed

lemma cmd_index_run:
  assumes "list_all (\<lambda>el. fits_schema (unit_embedding cst gen el)) (run_units extract python_files)"
  shows "cmd_index cst gen extract python_files directory clear rows0 =
     (None,
      \<lparr> db_rows = (if clear then [] else rows0) @
          map (record_of cst gen) (indexed_units cst gen (run_units extract python_files)),
        printed = [''Indexing Python files in '' @ directory @ ''...''] @
          (if clear then [''Cleared existing index''] else []) @
          map (\<lambda>f. ''Processing '' @ f @ ''...'') python_files @
          [''Indexed '' @ digits (length (indexed_units cst gen (run_units extract python_files))) @
           '' elements from '' @ digits (length python_files) @ '' files''],
        total_elements = length (indexed_units cst gen (run_units extract python_files)) \<rparr>)"
  by (simp add: cmd_index_def Let_def index_files_run [OF assms])


lemma units_split:
  "length (indexed_units cst gen els) + embedding_failures cst gen els = length els"
  by (simp add: indexed_units_def embedding_failures_def sum_length_filter_compl)

text \<open>
  C9, as the code has it. When every embedding the provider returns fits the schema (so
  that no insert fails), a run over any files and units ends without an error, whatever
  the number of units for which the provider fails: each such unit is skipped and the
  units after it are processed; the rows written are those of the units with an
  embedding, in order. The run counts and reports, in its last line, the number of units
  it indexed and the number of files; the number of failures is the number of units less
  the number reported, and it is not part of what the run prints or keeps.
\<close>

theorem cmd_index_skips_failed_units:
  assumes "list_all (\<lambda>el. fits_schema (unit_embedding cst gen el)) (run_units extract python_files)"
  shows "cmd_index cst gen extract python_files directory clear rows0 =
     (None,
      \<lparr> db_rows = (if clear then [] else rows0) @
          map (record_of cst gen) (indexed_units cst gen (run_units extract python_files)),
        printed = [''Indexing Python files in '' @ directory @ ''...''] @
          (if clear then [''Cleared existing index''] else []) @
          map (\<lambda>f. ''Processing '' @ f @ ''...'') python_files @
          [''Indexed '' @ digits (length (indexed_units cst gen (run_units extract python_files))) @
           '' elements from '' @ digits (length python_files) @ '' files''],
        total_elements = length (indexed_units cst gen (run_units extract python_files)) \<rparr>) \<and>
     length (indexed_units cst gen (run_units extract python_files)) +
       embedding_failures cst gen (run_units extract python_files) =
       length (run_units extract python_files)"
  using cmd_index_run [OF assms] units_split by simp

lemma produced_Some: "produced (Some v) = (v \<noteq> [])"
  by (cases v) simp_all

lemma example_texts:
  "unit_embedding join_fields flaky_provider unit_parse = Some (replicate 1536 0)"
  "unit_embedding join_fields flaky_provider unit_load = None"
  "unit_embedding join_fields flaky_provider unit_dump = Some (replicate 1536 0)"
  by (simp_all add: unit_embedding_def join_fields_def flaky_provider_def unit_parse_def
        unit_load_def unit_dump_def)

lemma example_units:
  "run_units extract_three [''a.py''] = [unit_parse, unit_load, unit_dump]"
  "run_units extract_two [''a.py''] = [unit_parse, unit_dump]"
  by (simp_all add: run_units_def extract_three_def extract_two_def)

lemma example_fits:
  "list_all (\<lambda>el. fits_schema (unit_embedding join_fields flaky_provider el))
     (run_units extract_three [''a.py''])"
  "list_all (\<lambda>el. fits_schema (unit_embedding join_fields flaky_provider el))
     (run_units extract_two [''a.py''])"
  by (simp_all add: example_units example_texts fits_schema_def)

lemma example_indexed:
  "indexed_units join_fields flaky_provider [unit_parse, unit_load, unit_dump] =
     [unit_parse, unit_dump]"
  "indexed_units join_fields flaky_provider [unit_parse, unit_dump] = [unit_parse, unit_dump]"
  by (simp_all add: indexed_units_def example_texts produced_Some)

lemma example_failures:
  "embedding_failures join_fields flaky_provider [unit_parse, unit_load, unit_dump] = 1"
  "embedding_failures join_fields flaky_provider [unit_parse, unit_dump] = 0"
  by (simp_all add: embedding_failures_def example_texts produced_Some)

lemma digits_small: "digits 2 = ''2''" "digits 1 = ''1''" "digits (Suc 0) = ''1''"
    "digits (Suc (Suc 0)) = ''2''"
  by code_simp+

theorem cmd_index_skips_failed_units_witness:
  "list_all (\<lambda>el. fits_schema (unit_embedding join_fields flaky_provider el))
     (run_units extract_three [''a.py'']) \<and>
   run_units extract_three [''a.py''] = [unit_parse, unit_load, unit_dump] \<and>
   unit_embedding join_fields flaky_provider unit_load = None \<and>
   cmd_index join_fields flaky_provider extract_three [''a.py''] ''src'' False [] =
     (None,
      \<lparr> db_rows = map (record_of join_fields flaky_provider) [unit_parse, unit_dump],
        printed = [''Indexing Python files in src...'', ''Processing a.py...'',
                   ''Indexed 2 elements from 1 files''],
        total_elements = 2 \<rparr>)"
proof -
  from cmd_index_skips_failed_units [OF example_fits(1), of "''src''" False "[]"]
  have "cmd_index join_fields flaky_provider extract_three [''a.py''] ''src'' False [] =
     (None,
      \<lparr> db_rows = map (record_of join_fields flaky_provider) [unit_parse, unit_dump],
        printed = [''Indexing Python files in src...'', ''Processing a.py...'',
                   ''Indexed 2 elements from 1 files''],
        total_elements = 2 \<rparr>)"
    by (simp add: example_units example_indexed digits_small)
  with example_fits(1) example_units(1) example_texts(2) show ?thesis by (intro conjI)
qed

text \<open>
  The claim as stated fails in its second half: a run in which the provider fails for
  one unit and a run with no failure at all print the same lines, write the same rows
  and keep the same counter. The number of failures is neither counted nor reported.
\<close>

theorem cmd_index_failures_not_reported_counterexample:
  "cmd_index join_fields flaky_provider extract_three [''a.py''] ''src'' False [] =
   cmd_index join_fields flaky_provider extract_two [''a.py''] ''src'' False [] \<and>
   embedding_failures join_fields flaky_provider (run_units extract_three [''a.py'']) = 1 \<and>
   embedding_failures join_fields flaky_provider (run_units extract_two [''a.py'']) = 0"
  by (simp add: cmd_index_run [OF example_fits(1)] cmd_index_run [OF example_fits(2)]
        example_units example_indexed example_failures)

end
